theory Spec2Isabelle
  imports Complex_Main "HOL-Library.Sublist"
begin

section \<open>Python values used by the scripts\<close>

text \<open>
  A Python \<^verbatim>\<open>bytes\<close> object is a list of 8-bit characters. A Python \<^verbatim>\<open>str\<close> is a list
  of code points; the scripts only build and test text whose code points are below 256
  (commands are ASCII, the rendering adds U+00B7), so a \<^verbatim>\<open>str\<close> is a list of 8-bit
  characters too, one per code point.
\<close>

type_synonym bytes = "char list"
type_synonym str = "char list"

datatype py_error = IndexError | ValueError

text \<open>\<^verbatim>\<open>str.isspace\<close> on one code point below 256.\<close>

definition isspace :: "char \<Rightarrow> bool" where
  "isspace c = ((of_char c :: nat) \<in> {9, 10, 11, 12, 13, 28, 29, 30, 31, 32, 133, 160})"

definition strip :: "str \<Rightarrow> str" where
  "strip s = rev (dropWhile isspace (rev (dropWhile isspace s)))"

definition startswith :: "'a list \<Rightarrow> 'a list \<Rightarrow> bool" where
  "startswith s p = prefix p s"

definition endswith :: "'a list \<Rightarrow> 'a list \<Rightarrow> bool" where
  "endswith s p = suffix p s"

text \<open>\<^verbatim>\<open>sep.join(xs)\<close>.\<close>

fun join :: "str \<Rightarrow> str list \<Rightarrow> str" where
  "join sep [] = []"
| "join sep [x] = x"
| "join sep (x # y # ys) = x @ sep @ join sep (y # ys)"

text \<open>
  \<^verbatim>\<open>buf.find(sub, start)\<close> for \<open>start \<ge> 0\<close>: the lowest index at or after \<open>start\<close> where
  \<open>sub\<close> occurs, \<open>None\<close> for Python's \<open>-1\<close>.
\<close>

fun find_pos :: "'a list \<Rightarrow> 'a list \<Rightarrow> nat \<Rightarrow> nat option" where
  "find_pos sub [] i = (if sub = [] then Some i else None)"
| "find_pos sub (x # xs) i = (if prefix sub (x # xs) then Some i else find_pos sub xs (Suc i))"

definition py_find :: "'a list \<Rightarrow> 'a list \<Rightarrow> nat \<Rightarrow> nat option" where
  "py_find buf sub start = (if length buf < start then None else find_pos sub (drop start buf) start)"

text \<open>\<^verbatim>\<open>sub in buf\<close>, for \<^verbatim>\<open>bytes\<close> and for \<^verbatim>\<open>str\<close>.\<close>

definition contains :: "'a list \<Rightarrow> 'a list \<Rightarrow> bool" where
  "contains buf sub = (py_find buf sub 0 \<noteq> None)"

text \<open>
  \<^verbatim>\<open>str.upper\<close>. The upper-case form of a code point below 256 can lie above 255 (U+00B5
  gives U+039C, U+00FF gives U+0178) and can be two code points (U+00DF gives \<^verbatim>\<open>SS\<close>), so
  the result is a list of code points as numbers. The letters \<^verbatim>\<open>a\<close> to \<^verbatim>\<open>z\<close> and U+00E0 to
  U+00FE, the division sign U+00F7 apart, move down by 32; every other code point stays.
  \<open>code_points\<close> gives a string literal in the same form, to compare with.
\<close>

definition upper_char :: "char \<Rightarrow> nat list" where
  "upper_char c =
     (if (97 \<le> (of_char c :: nat) \<and> (of_char c :: nat) \<le> 122)
         \<or> (224 \<le> (of_char c :: nat) \<and> (of_char c :: nat) \<le> 254 \<and> (of_char c :: nat) \<noteq> 247)
        then [(of_char c :: nat) - 32]
      else if (of_char c :: nat) = 223 then [83, 83]
      else if (of_char c :: nat) = 181 then [924]
      else if (of_char c :: nat) = 255 then [376]
      else [of_char c])"

definition upper :: "str \<Rightarrow> nat list" where
  "upper s = concat (map upper_char s)"

definition code_points :: "str \<Rightarrow> nat list" where
  "code_points s = map of_char s"

text \<open>\<^verbatim>\<open>str.split()\<close>: the maximal runs of characters that are not white space.\<close>

fun split_aux :: "str \<Rightarrow> str \<Rightarrow> str list" where
  "split_aux [] cur = (if cur = [] then [] else [cur])"
| "split_aux (c # cs) cur =
     (if isspace c then (if cur = [] then split_aux cs [] else cur # split_aux cs [])
      else split_aux cs (cur @ [c]))"

definition split :: "str \<Rightarrow> str list" where
  "split s = split_aux s []"

text \<open>
  \<^verbatim>\<open>str.isdigit\<close> on code points below 256: the ten decimal digits and the superscripts
  U+00B2, U+00B3 and U+00B9.
\<close>

definition is_dec :: "char \<Rightarrow> bool" where
  "is_dec c = (48 \<le> (of_char c :: nat) \<and> (of_char c :: nat) \<le> 57)"

definition isdigit :: "str \<Rightarrow> bool" where
  "isdigit s = (s \<noteq> [] \<and> list_all (\<lambda>c. is_dec c \<or> (of_char c :: nat) \<in> {178, 179, 185}) s)"

text \<open>
  \<^verbatim>\<open>int(s)\<close> in base ten: white space around, an optional sign, decimal digits with single
  underscores between digits; anything else raises \<^verbatim>\<open>ValueError\<close>.
\<close>

fun int_digits :: "str \<Rightarrow> bool \<Rightarrow> nat \<Rightarrow> nat option" where
  "int_digits [] prev acc = (if prev then Some acc else None)"
| "int_digits (c # cs) prev acc =
     (if is_dec c then int_digits cs True (acc * 10 + ((of_char c :: nat) - 48))
      else if c = CHR ''_'' \<and> prev then int_digits cs False acc
      else None)"

definition py_int :: "str \<Rightarrow> py_error + int" where
  "py_int s =
     (let t = strip s;
          neg = (t \<noteq> [] \<and> hd t = CHR ''-'');
          body = (if t \<noteq> [] \<and> (hd t = CHR ''-'' \<or> hd t = CHR ''+'') then tl t else t)
      in case int_digits body False 0 of
           None \<Rightarrow> Inl ValueError
         | Some n \<Rightarrow> Inr (if neg then - int n else int n))"

text \<open>\<^verbatim>\<open>s.encode("ascii", errors="ignore")\<close>: the code points from 128 on are dropped.\<close>

definition encode_ascii_ignore :: "str \<Rightarrow> bytes" where
  "encode_ascii_ignore s = filter (\<lambda>c. (of_char c :: nat) < 128) s"

text \<open>\<^verbatim>\<open>bytes(s, 'utf-8')\<close> on code points below 256.\<close>

definition utf8_char :: "char \<Rightarrow> bytes" where
  "utf8_char c = (if (of_char c :: nat) < 128 then [c]
                  else [char_of (192 + (of_char c :: nat) div 64), char_of (128 + (of_char c :: nat) mod 64)])"

definition encode_utf8 :: "str \<Rightarrow> bytes" where
  "encode_utf8 s = concat (map utf8_char s)"

text \<open>\<^verbatim>\<open>str(n)\<close> for a natural number, and the format \<^verbatim>\<open>{x:02X}\<close> for a byte.\<close>

definition digit_char :: "nat \<Rightarrow> char" where
  "digit_char d = ''0123456789'' ! d"

fun str_nat :: "nat \<Rightarrow> str" where
  "str_nat n = (if n < 10 then [digit_char n] else str_nat (n div 10) @ [digit_char (n mod 10)])"

declare str_nat.simps [simp del]

definition hex_digit :: "nat \<Rightarrow> char" where
  "hex_digit d = ''0123456789ABCDEF'' ! d"

definition hex2 :: "char \<Rightarrow> str" where
  "hex2 x = [hex_digit ((of_char x :: nat) div 16), hex_digit ((of_char x :: nat) mod 16)]"

section \<open>Rendering and logging: \<^verbatim>\<open>STN_Scripts/STSBR_STBRT.py\<close>\<close>

text \<open>The log file is the text written to it so far.\<close>

definition write_log :: "str \<Rightarrow> str \<Rightarrow> str" where
  "write_log f text = f @ text @ (if \<not> endswith text [CHR 0x0A] then [CHR 0x0A] else [])"

text \<open>
  \<^verbatim>\<open>make_visible\<close>: the loop over the bytes with the list \<^verbatim>\<open>chars\<close>; a zero byte
  leaves the loop (\<^verbatim>\<open>if not x: break\<close>).
\<close>

fun make_visible_loop :: "bytes \<Rightarrow> str list \<Rightarrow> str list" where
  "make_visible_loop [] chars = chars"
| "make_visible_loop (x # xs) chars =
     (if (of_char x :: nat) = 0 then chars
      else if x = CHR 0x20 then make_visible_loop xs (chars @ [[CHR 0xB7]])
      else if x = CHR 0x0D then make_visible_loop xs (chars @ [''<CR>''])
      else if x = CHR 0x0A then make_visible_loop xs (chars @ [''<LF>'' @ [CHR 0x0A]])
      else if x = CHR 0x09 then make_visible_loop xs (chars @ [''<TAB>''])
      else if 0x21 \<le> (of_char x :: nat) \<and> (of_char x :: nat) \<le> 0x7E
        then make_visible_loop xs (chars @ [[x]])
      else make_visible_loop xs (chars @ [[CHR 0x5C, CHR ''x''] @ hex2 x]))"

definition make_visible :: "bytes \<Rightarrow> str" where
  "make_visible b = join [] (make_visible_loop b [])"

text \<open>
  The hex dump built in \<^verbatim>\<open>read_until\<close>: \<^verbatim>\<open>" ".join(f"{x:02X}" if x else '\0' for x in
  log_data)\<close>; the Python literal \<^verbatim>\<open>'\0'\<close> is the one character U+0000.
\<close>

definition hex_dump :: "bytes \<Rightarrow> str" where
  "hex_dump log_data =
     join '' '' (map (\<lambda>x. if (of_char x :: nat) \<noteq> 0 then hex2 x else [CHR 0x00]) log_data)"

definition write_log_section :: "str \<Rightarrow> bytes \<Rightarrow> str \<Rightarrow> str \<Rightarrow> str" where
  "write_log_section logf log_data visible_bytes hex_bytes =
     write_log logf (''len='' @ str_nat (length log_data) @ [CHR 0x0A] @ visible_bytes
                    @ [CHR 0x0A] @ ''HEX: '' @ hex_bytes)"

text \<open>
  The rendering of one byte in the words of the specification: space as U+00B7, CR as
  \<^verbatim>\<open><CR>\<close>, LF as \<^verbatim>\<open><LF>\<close> and a newline, TAB as \<^verbatim>\<open><TAB>\<close>, printable ASCII as itself,
  anything else as \<^verbatim>\<open>\xHH\<close>.
\<close>

definition spec_visible :: "char \<Rightarrow> str" where
  "spec_visible x =
     (if x = CHR 0x20 then [CHR 0xB7]
      else if x = CHR 0x0D then ''<CR>''
      else if x = CHR 0x0A then ''<LF>'' @ [CHR 0x0A]
      else if x = CHR 0x09 then ''<TAB>''
      else if 0x21 \<le> (of_char x :: nat) \<and> (of_char x :: nat) \<le> 0x7E then [x]
      else [CHR 0x5C, CHR ''x''] @ hex2 x)"

section \<open>The log comparison utility: \<^verbatim>\<open>Testing_logs/main.py\<close>\<close>

text \<open>
  \<^verbatim>\<open>blocks_by_header\<close> is an \<^verbatim>\<open>OrderedDict\<close>: an association list in order of first
  insertion. Storing under a key that is present replaces the value where the key stands.
\<close>

type_synonym blocks = "(str \<times> str list) list"

fun od_set :: "str \<Rightarrow> str list \<Rightarrow> blocks \<Rightarrow> blocks" where
  "od_set k v [] = [(k, v)]"
| "od_set k v ((k', v') # d) = (if k' = k then (k, v) # d else (k', v') # od_set k v d)"

definition is_header :: "str \<Rightarrow> bool" where
  "is_header line = (startswith (strip line) ''---'' \<and> endswith (strip line) ''---'')"

text \<open>
  The \<^verbatim>\<open>for ln in lines\<close> loop of \<^verbatim>\<open>load_blocks\<close>, on the state
  \<^verbatim>\<open>(blocks_by_header, current_header, current_buf)\<close>.
\<close>

fun load_loop :: "str list \<Rightarrow> blocks \<Rightarrow> str option \<Rightarrow> str list \<Rightarrow> blocks \<times> str option \<times> str list" where
  "load_loop [] d h buf = (d, h, buf)"
| "load_loop (line # lns) d h buf =
     (if is_header line then
        load_loop lns (case h of None \<Rightarrow> d | Some ch \<Rightarrow> od_set ch buf d) (Some (strip line)) []
      else
        (case h of
           Some ch \<Rightarrow> load_loop lns d h (buf @ [line])
         | None \<Rightarrow> load_loop lns d h buf))"

text \<open>The flush after the loop.\<close>

fun flush :: "blocks \<times> str option \<times> str list \<Rightarrow> blocks" where
  "flush (d, None, buf) = d"
| "flush (d, Some ch, buf) = od_set ch buf d"

text \<open>
  The first component returned by \<^verbatim>\<open>load_blocks\<close>, from the lines of the file
  (\<^verbatim>\<open>text.splitlines()\<close>). The two other components are computed from this one.
\<close>

definition blocks_by_header :: "str list \<Rightarrow> blocks" where
  "blocks_by_header lines = flush (load_loop lines [] None [])"

section \<open>The serial port and the clock\<close>

text \<open>
  The scripts talk to a device through one serial port and read the clock with
  \<^verbatim>\<open>time()\<close>. What the device sends and when is not decided by the program, so a run is
  taken against a recorded environment:
  \<^item> \<open>clock\<close>: the values that the successive calls of \<^verbatim>\<open>time()\<close> return;
  \<^item> \<open>rx\<close>: the bytes found waiting at each successive look at the input queue (each
    entry holds what arrived since the look before; it is empty when nothing did);
  \<^item> \<open>baudrate\<close>: the speed the host side of the port is set to;
  \<^item> \<open>tx\<close>: the byte strings written so far, in order.
  Time stamps are exact rationals. \<^verbatim>\<open>sleep\<close> changes nothing the program can see except
  through later clock readings and later arrivals, which the environment already fixes,
  so a call of \<^verbatim>\<open>sleep\<close> has no counterpart below. Every loop of the scripts reads the
  clock in each round, so a run against a finite record either returns or uses the record
  up; \<open>None\<close> is the run whose record ended before the call returned.
\<close>

record world =
  clock :: "rat list"
  rx :: "bytes list"
  baudrate :: int
  tx :: "bytes list"

text \<open>\<^verbatim>\<open>time()\<close>.\<close>

definition py_time :: "world \<Rightarrow> (rat \<times> world) option" where
  "py_time w = (case clock w of [] \<Rightarrow> None | t # ts \<Rightarrow> Some (t, w\<lparr>clock := ts\<rparr>))"

text \<open>
  \<^verbatim>\<open>n = ser.in_waiting\<close> followed, when \<^verbatim>\<open>n\<close> is not zero, by \<^verbatim>\<open>ser.read(n)\<close>: the bytes
  read, empty when nothing was waiting.
\<close>

definition poll :: "world \<Rightarrow> bytes \<times> world" where
  "poll w = (case rx w of [] \<Rightarrow> ([], w) | c # cs \<Rightarrow> (c, w\<lparr>rx := cs\<rparr>))"

text \<open>\<^verbatim>\<open>ser.reset_input_buffer()\<close>: what is waiting is thrown away.\<close>

definition reset_input_buffer :: "world \<Rightarrow> world" where
  "reset_input_buffer w = w\<lparr>rx := tl (rx w)\<rparr>"

text \<open>\<^verbatim>\<open>ser.write(b)\<close>.\<close>

definition ser_write :: "bytes \<Rightarrow> world \<Rightarrow> world" where
  "ser_write b w = w\<lparr>tx := tx w @ [b]\<rparr>"

text \<open>
  \<^verbatim>\<open>ser.baudrate = b\<close>: the setter of the serial library raises \<^verbatim>\<open>ValueError\<close> on a
  negative rate and stores the rate otherwise.
\<close>

definition set_baudrate :: "int \<Rightarrow> world \<Rightarrow> py_error + world" where
  "set_baudrate b w = (if b < 0 then Inl ValueError else Inr (w\<lparr>baudrate := b\<rparr>))"

section \<open>Plain round trip: \<^verbatim>\<open>STN_Scripts/STSBR_STBRT.py\<close>\<close>

definition TX_NEWLINE :: str where
  "TX_NEWLINE = [CHR 0x0D]"

definition IDLE_GAP_SEC :: rat where
  "IDLE_GAP_SEC = 3 / 10"

text \<open>
  The \<^verbatim>\<open>while True\<close> loop of \<^verbatim>\<open>read_until\<close> on the state \<^verbatim>\<open>(buf, last_rx)\<close>. Each round
  reads the clock once: to stamp the bytes just read, or to compare the silence with
  \<^verbatim>\<open>delay\<close>. \<^verbatim>\<open>if command:\<close> is false for \<^verbatim>\<open>None\<close> and for empty bytes.
\<close>

function read_until_loop :: "rat \<Rightarrow> bytes option \<Rightarrow> world \<Rightarrow> bytes \<Rightarrow> rat \<Rightarrow> (world \<times> bytes \<times> rat) option" where
  "read_until_loop delay command w buf last_rx =
     (case py_time (snd (poll w)) of
        None \<Rightarrow> None
      | Some (t, w2) \<Rightarrow>
          if fst (poll w) \<noteq> [] then read_until_loop delay command w2 (buf @ fst (poll w)) t
          else if t - last_rx \<ge> delay then Some (w2, buf, last_rx)
          else if (case command of None \<Rightarrow> False | Some c \<Rightarrow> c \<noteq> [] \<and> contains buf c)
            then Some (w2, buf, last_rx)
          else read_until_loop delay command w2 buf last_rx)"
  by pat_completeness auto
termination
  by (relation "measure (\<lambda>(delay, command, w, buf, last_rx). length (clock w))")
     (auto simp: poll_def py_time_def split: list.splits)

declare read_until_loop.simps [simp del]

definition read_until :: "rat \<Rightarrow> bytes option \<Rightarrow> world \<Rightarrow> (world \<times> bytes \<times> str \<times> str) option" where
  "read_until delay command w =
     (case py_time w of
        None \<Rightarrow> None
      | Some (last_rx, w0) \<Rightarrow>
          (case read_until_loop delay command w0 [] last_rx of
             None \<Rightarrow> None
           | Some (w', buf, l) \<Rightarrow> Some (w', buf, make_visible buf, hex_dump buf)))"

text \<open>
  \<^verbatim>\<open>send_and_log\<close> of \<^verbatim>\<open>STSBR_STBRT.py\<close>; the result is the port, the log file and the
  next sequence number. What \<^verbatim>\<open>print\<close> writes to the console is left out.
\<close>

definition send_and_log_STSBR_STBRT :: "world \<Rightarrow> str \<Rightarrow> rat \<Rightarrow> str \<Rightarrow> nat \<Rightarrow> (world \<times> str \<times> nat) option" where
  "send_and_log_STSBR_STBRT ser cmd delay logf num =
     (let visible = make_visible (encode_utf8 cmd);
          logf1 = write_log logf ([CHR 0x0A] @ ''--- ['' @ str_nat num @ ''] '' @ visible @ '' ---'');
          cmd_b = encode_ascii_ignore (cmd @ TX_NEWLINE);
          ser1 = ser_write cmd_b (reset_input_buffer ser)
      in case read_until IDLE_GAP_SEC None ser1 of
           None \<Rightarrow> None
         | Some (ser2, log_data, visible_bytes, hex_bytes) \<Rightarrow>
             Some (ser2, write_log_section logf1 log_data visible_bytes hex_bytes, num + 1))"

section \<open>Live speed switch: \<^verbatim>\<open>STSBR_STBRT_115200_delay.py\<close>\<close>

definition STSBR_PROMPT_TIMEOUT_SEC :: rat where
  "STSBR_PROMPT_TIMEOUT_SEC = 6"

text \<open>
  The loop of \<^verbatim>\<open>read_until_idle\<close> on the state \<^verbatim>\<open>(buf, last_rx)\<close>. The loop of
  \<^verbatim>\<open>read_until_quiet\<close> in \<^verbatim>\<open>STN_Scripts/STPX.py\<close> is the same one with one more \<^verbatim>\<open>sleep\<close>.
\<close>

function read_until_idle_loop :: "rat \<Rightarrow> world \<Rightarrow> bytes \<Rightarrow> rat \<Rightarrow> (world \<times> bytes \<times> rat) option" where
  "read_until_idle_loop idle_gap w buf last_rx =
     (case py_time (snd (poll w)) of
        None \<Rightarrow> None
      | Some (t, w2) \<Rightarrow>
          if fst (poll w) \<noteq> [] then read_until_idle_loop idle_gap w2 (buf @ fst (poll w)) t
          else if t - last_rx \<ge> idle_gap then Some (w2, buf, last_rx)
          else read_until_idle_loop idle_gap w2 buf last_rx)"
  by pat_completeness auto
termination
  by (relation "measure (\<lambda>(idle_gap, w, buf, last_rx). length (clock w))")
     (auto simp: poll_def py_time_def split: list.splits)

declare read_until_idle_loop.simps [simp del]

definition read_until_idle :: "world \<Rightarrow> rat \<Rightarrow> (world \<times> bytes) option" where
  "read_until_idle ser idle_gap =
     (case py_time ser of
        None \<Rightarrow> None
      | Some (last_rx, w0) \<Rightarrow>
          (case read_until_idle_loop idle_gap w0 [] last_rx of
             None \<Rightarrow> None
           | Some (w', buf, l) \<Rightarrow> Some (w', buf)))"

definition read_until_quiet :: "world \<Rightarrow> (world \<times> bytes) option" where
  "read_until_quiet ser = read_until_idle ser IDLE_GAP_SEC"

text \<open>\<^verbatim>\<open>write_log_section\<close> of this script renders the bytes itself; its dump has no special case.\<close>

definition hex_plain :: "bytes \<Rightarrow> str" where
  "hex_plain log_data = join '' '' (map hex2 log_data)"

definition write_log_section_115200 :: "str \<Rightarrow> bytes \<Rightarrow> str" where
  "write_log_section_115200 logf log_data =
     write_log logf (''len='' @ str_nat (length log_data) @ [CHR 0x0A] @ make_visible log_data
                     @ [CHR 0x0A] @ ''HEX: '' @ hex_plain log_data)"

text \<open>\<^verbatim>\<open>parse_stsbr_baud\<close>: \<open>None\<close> when the rate cannot be read.\<close>

definition parse_stsbr_baud :: "str \<Rightarrow> int option" where
  "parse_stsbr_baud cmd =
     (let parts = split (strip cmd)
      in if length parts \<ge> 2 \<and> upper (parts ! 0) = code_points ''STSBR'' then
           (case py_int (parts ! 1) of Inl e \<Rightarrow> None | Inr n \<Rightarrow> Some n)
         else None)"

text \<open>The local variables of \<^verbatim>\<open>read_stsbr_with_baud_switch\<close> that phase 1 works on.\<close>

record phase1_vars =
  buf_old :: bytes
  ok_time :: "rat option"
  cr1_time :: "rat option"
  ok_pos_end :: nat

text \<open>The block \<^verbatim>\<open>if ok_time is None: ...\<close> of phase 1.\<close>

definition phase1_ok :: "world \<Rightarrow> phase1_vars \<Rightarrow> (world \<times> phase1_vars) option" where
  "phase1_ok w s =
     (if ok_time s = None then
        (case py_find (buf_old s) ''OK'' 0 of
           None \<Rightarrow> Some (w, s)
         | Some p_ok \<Rightarrow>
             (case py_time w of
                None \<Rightarrow> None
              | Some (t, w') \<Rightarrow> Some (w', s\<lparr>ok_time := Some t, ok_pos_end := p_ok + 2\<rparr>)))
      else Some (w, s))"

text \<open>
  The block \<^verbatim>\<open>if ok_time is not None and cr1_time is None: ...\<close> of phase 1; the flag says
  whether the block left the loop.
\<close>

definition phase1_cr :: "world \<Rightarrow> phase1_vars \<Rightarrow> (world \<times> phase1_vars \<times> bool) option" where
  "phase1_cr w s =
     (if ok_time s \<noteq> None \<and> cr1_time s = None then
        (case py_find (buf_old s) [CHR 0x0D] (ok_pos_end s) of
           None \<Rightarrow> Some (w, s, False)
         | Some p_cr \<Rightarrow>
             (case py_time w of
                None \<Rightarrow> None
              | Some (t, w') \<Rightarrow> Some (w', s\<lparr>cr1_time := Some t\<rparr>, True)))
      else Some (w, s, False))"

function phase1 :: "rat \<Rightarrow> world \<Rightarrow> phase1_vars \<Rightarrow> (world \<times> phase1_vars) option" where
  "phase1 deadline w s =
     (case py_time w of
        None \<Rightarrow> None
      | Some (now, w1) \<Rightarrow>
          if now \<ge> deadline then Some (w1, s)
          else if fst (poll w1) = [] then phase1 deadline (snd (poll w1)) s
          else
            (case phase1_ok (snd (poll w1)) (s\<lparr>buf_old := buf_old s @ fst (poll w1)\<rparr>) of
               None \<Rightarrow> None
             | Some (w2, s2) \<Rightarrow>
                 (case phase1_cr w2 s2 of
                    None \<Rightarrow> None
                  | Some (w3, s3, left) \<Rightarrow>
                      if left then Some (w3, s3) else phase1 deadline w3 s3)))"
  by pat_completeness auto
termination
  by (relation "measure (\<lambda>(deadline, w, s). length (clock w))")
     (auto simp: poll_def py_time_def phase1_ok_def phase1_cr_def
           split: list.splits option.splits if_splits)

declare phase1.simps [simp del]

text \<open>
  Between the phases: the host speed is set and the input queue is emptied, when phase 1
  reached the first CR after OK. An exception of the setter is swallowed by the
  \<^verbatim>\<open>try\<close>/\<^verbatim>\<open>except\<close> around it.
\<close>

definition switch_baud :: "world \<Rightarrow> phase1_vars \<Rightarrow> int \<Rightarrow> world" where
  "switch_baud w s new_baud =
     (if cr1_time s \<noteq> None then
        reset_input_buffer (case set_baudrate new_baud w of Inl e \<Rightarrow> w | Inr w' \<Rightarrow> w')
      else w)"

text \<open>Phase 2 on the state \<^verbatim>\<open>buf_new\<close>; it returns \<^verbatim>\<open>buf_new\<close> and \<^verbatim>\<open>prompt_time\<close>.\<close>

function phase2 :: "rat \<Rightarrow> world \<Rightarrow> bytes \<Rightarrow> (world \<times> bytes \<times> rat option) option" where
  "phase2 deadline w buf_new =
     (case py_time w of
        None \<Rightarrow> None
      | Some (now, w1) \<Rightarrow>
          if now \<ge> deadline then Some (w1, buf_new, None)
          else if fst (poll w1) = [] then phase2 deadline (snd (poll w1)) buf_new
          else if contains (buf_new @ fst (poll w1)) ''>'' then
            (case py_time (snd (poll w1)) of
               None \<Rightarrow> None
             | Some (t, w2) \<Rightarrow> Some (w2, buf_new @ fst (poll w1), Some t))
          else phase2 deadline (snd (poll w1)) (buf_new @ fst (poll w1)))"
  by pat_completeness auto
termination
  by (relation "measure (\<lambda>(deadline, w, buf_new). length (clock w))")
     (auto simp: poll_def py_time_def split: list.splits)

declare phase2.simps [simp del]

definition phase1_init :: phase1_vars where
  "phase1_init = \<lparr>buf_old = [], ok_time = None, cr1_time = None, ok_pos_end = 0\<rparr>"

text \<open>The result is \<^verbatim>\<open>(data_all, ok_time, prompt_time, cr1_time)\<close>, with the port.\<close>

definition read_stsbr_with_baud_switch ::
    "world \<Rightarrow> rat \<Rightarrow> int \<Rightarrow> rat \<Rightarrow> (world \<times> bytes \<times> rat option \<times> rat option \<times> rat option) option" where
  "read_stsbr_with_baud_switch ser t_tx new_baud timeout_sec =
     (case phase1 (t_tx + timeout_sec) ser phase1_init of
        None \<Rightarrow> None
      | Some (w1, s) \<Rightarrow>
          (case phase2 (t_tx + timeout_sec) (switch_baud w1 s new_baud) [] of
             None \<Rightarrow> None
           | Some (w3, buf_new, prompt_time) \<Rightarrow>
               Some (w3, buf_old s @ buf_new, ok_time s, prompt_time, cr1_time s)))"

section \<open>Number formats\<close>

text \<open>\<^verbatim>\<open>str(i)\<close> for an integer.\<close>

definition str_int :: "int \<Rightarrow> str" where
  "str_int i = (if i < 0 then ''-'' @ str_nat (nat (- i)) else str_nat (nat i))"

text \<open>
  The format \<^verbatim>\<open>{x:.Nf}\<close>: \<open>x\<close> rounded to \<open>N\<close> decimals, a tie going to the even
  neighbour, written with exactly \<open>N\<close> digits after the point.
\<close>

definition round_half_even :: "rat \<Rightarrow> int" where
  "round_half_even x =
     (if x - of_int \<lfloor>x\<rfloor> < 1 / 2 then \<lfloor>x\<rfloor>
      else if 1 / 2 < x - of_int \<lfloor>x\<rfloor> then \<lfloor>x\<rfloor> + 1
      else if even \<lfloor>x\<rfloor> then \<lfloor>x\<rfloor> else \<lfloor>x\<rfloor> + 1)"

definition fmt_fixed :: "nat \<Rightarrow> rat \<Rightarrow> str" where
  "fmt_fixed d x =
     (let n = nat (round_half_even (\<bar>x\<bar> * 10 ^ d));
          frac = str_nat (n mod 10 ^ d)
      in (if x < 0 then ''-'' else []) @ str_nat (n div 10 ^ d)
         @ (if d = 0 then [] else ''.'' @ replicate (d - length frac) (CHR ''0'') @ frac))"

section \<open>Two markers in one loop: \<^verbatim>\<open>STSBR_STBRT_9600_delay.py\<close>\<close>

text \<open>The local variables of \<^verbatim>\<open>read_stsbr_t1_t2\<close>.\<close>

record t12_vars =
  t12_buf :: bytes
  t12_ok_time :: "rat option"
  t12_prompt_time :: "rat option"
  ok_search_from :: nat
  prompt_search_from :: nat

text \<open>The block \<^verbatim>\<open>if ok_time is None: ...\<close>.\<close>

definition t12_ok :: "world \<Rightarrow> t12_vars \<Rightarrow> (world \<times> t12_vars) option" where
  "t12_ok w s =
     (if t12_ok_time s = None then
        (case py_find (t12_buf s) ''OK'' (ok_search_from s) of
           None \<Rightarrow> Some (w, s)
         | Some p_ok \<Rightarrow>
             (case py_time w of
                None \<Rightarrow> None
              | Some (t, w') \<Rightarrow> Some (w', s\<lparr>t12_ok_time := Some t, prompt_search_from := p_ok + 2\<rparr>)))
      else Some (w, s))"

text \<open>
  The block \<^verbatim>\<open>if ok_time is not None and prompt_time is None: ...\<close>; the flag says whether
  the block left the loop.
\<close>

definition t12_prompt :: "world \<Rightarrow> t12_vars \<Rightarrow> (world \<times> t12_vars \<times> bool) option" where
  "t12_prompt w s =
     (if t12_ok_time s \<noteq> None \<and> t12_prompt_time s = None then
        (case py_find (t12_buf s) ''>'' (prompt_search_from s) of
           None \<Rightarrow> Some (w, s, False)
         | Some p_gt \<Rightarrow>
             (case py_time w of
                None \<Rightarrow> None
              | Some (t, w') \<Rightarrow> Some (w', s\<lparr>t12_prompt_time := Some t\<rparr>, True)))
      else Some (w, s, False))"

function read_stsbr_t1_t2_loop :: "rat \<Rightarrow> world \<Rightarrow> t12_vars \<Rightarrow> (world \<times> t12_vars) option" where
  "read_stsbr_t1_t2_loop deadline w s =
     (case py_time w of
        None \<Rightarrow> None
      | Some (now, w1) \<Rightarrow>
          if now \<ge> deadline then Some (w1, s)
          else if fst (poll w1) = [] then read_stsbr_t1_t2_loop deadline (snd (poll w1)) s
          else
            (case t12_ok (snd (poll w1)) (s\<lparr>t12_buf := t12_buf s @ fst (poll w1)\<rparr>) of
               None \<Rightarrow> None
             | Some (w2, s2) \<Rightarrow>
                 (case t12_prompt w2 s2 of
                    None \<Rightarrow> None
                  | Some (w3, s3, left) \<Rightarrow>
                      if left then Some (w3, s3) else read_stsbr_t1_t2_loop deadline w3 s3)))"
  by pat_completeness auto
termination
  by (relation "measure (\<lambda>(deadline, w, s). length (clock w))")
     (auto simp: poll_def py_time_def t12_ok_def t12_prompt_def
           split: list.splits option.splits if_splits)

declare read_stsbr_t1_t2_loop.simps [simp del]

definition t12_init :: t12_vars where
  "t12_init = \<lparr>t12_buf = [], t12_ok_time = None, t12_prompt_time = None,
               ok_search_from = 0, prompt_search_from = 0\<rparr>"

text \<open>The result is \<^verbatim>\<open>(bytes(buf), ok_time, prompt_time)\<close>, with the port.\<close>

definition read_stsbr_t1_t2 :: "world \<Rightarrow> rat \<Rightarrow> rat \<Rightarrow> (world \<times> bytes \<times> rat option \<times> rat option) option" where
  "read_stsbr_t1_t2 ser t_tx prompt_timeout_sec =
     (case read_stsbr_t1_t2_loop (t_tx + prompt_timeout_sec) ser t12_init of
        None \<Rightarrow> None
      | Some (w, s) \<Rightarrow> Some (w, t12_buf s, t12_ok_time s, t12_prompt_time s))"

text \<open>
  The \<^verbatim>\<open>while True\<close> loop of \<^verbatim>\<open>read_until\<close> in this script, on the state
  \<^verbatim>\<open>(buf, last_rx)\<close>. A round that finds nothing waiting first looks for \<^verbatim>\<open>command\<close> in
  the buffer, and reads the clock only when that did not end the loop.
\<close>

function read_until_9600_loop ::
    "rat \<Rightarrow> bytes option \<Rightarrow> world \<Rightarrow> bytes \<Rightarrow> rat \<Rightarrow> (world \<times> bytes \<times> rat) option" where
  "read_until_9600_loop idle_gap command w buf last_rx =
     (if fst (poll w) \<noteq> [] then
        (case py_time (snd (poll w)) of
           None \<Rightarrow> None
         | Some (t, w2) \<Rightarrow> read_until_9600_loop idle_gap command w2 (buf @ fst (poll w)) t)
      else if (case command of None \<Rightarrow> False | Some c \<Rightarrow> contains buf c)
        then Some (snd (poll w), buf, last_rx)
      else
        (case py_time (snd (poll w)) of
           None \<Rightarrow> None
         | Some (t, w2) \<Rightarrow>
             if t - last_rx \<ge> idle_gap then Some (w2, buf, last_rx)
             else read_until_9600_loop idle_gap command w2 buf last_rx))"
  by pat_completeness auto
termination
  by (relation "measure (\<lambda>(idle_gap, command, w, buf, last_rx). length (clock w))")
     (auto simp: poll_def py_time_def split: list.splits)

declare read_until_9600_loop.simps [simp del]

text \<open>
  The hex dump of this \<^verbatim>\<open>read_until\<close>: \<^verbatim>\<open>" ".join(f"{x:02X}" if x else "\\0" for x in
  log_data)\<close>; the Python literal \<^verbatim>\<open>"\\0"\<close> is a backslash and the digit \<^verbatim>\<open>0\<close>.
\<close>

definition hex_dump_9600 :: "bytes \<Rightarrow> str" where
  "hex_dump_9600 log_data =
     join '' '' (map (\<lambda>x. if (of_char x :: nat) \<noteq> 0 then hex2 x else [CHR 0x5C, CHR ''0'']) log_data)"

text \<open>The result is \<^verbatim>\<open>(log_data, visible_bytes, hex_bytes)\<close>, with the port.\<close>

definition read_until_9600 :: "world \<Rightarrow> rat \<Rightarrow> bytes option \<Rightarrow> (world \<times> bytes \<times> str \<times> str) option" where
  "read_until_9600 ser idle_gap command =
     (case py_time ser of
        None \<Rightarrow> None
      | Some (last_rx, w0) \<Rightarrow>
          (case read_until_9600_loop idle_gap command w0 [] last_rx of
             None \<Rightarrow> None
           | Some (w', buf, l) \<Rightarrow> Some (w', buf, make_visible buf, hex_dump_9600 buf)))"

text \<open>
  The lines that \<^verbatim>\<open>send_and_log\<close> of this script writes after \<^verbatim>\<open>read_stsbr_t1_t2\<close> has
  returned: the TX time and the intervals T1 and T2.
\<close>

definition log_timings_9600 :: "str \<Rightarrow> rat \<Rightarrow> rat option \<Rightarrow> rat option \<Rightarrow> str" where
  "log_timings_9600 logf t_tx ok_t prompt_t =
     (let l1 = write_log logf (''TX time: '' @ fmt_fixed 6 t_tx);
          l2 = (case ok_t of
                  Some ok \<Rightarrow> write_log l1 (''T1 (TX -> OK): '' @ fmt_fixed 3 ((ok - t_tx) * 1000) @ '' ms'')
                | None \<Rightarrow> write_log l1 ''OK not received (cannot compute T1/T2)'')
      in case ok_t of
           None \<Rightarrow> l2
         | Some ok \<Rightarrow>
             (case prompt_t of
                Some pr \<Rightarrow> write_log l2 (''T2 (OK -> '' @ [CHR 0x27] @ ''>'' @ [CHR 0x27] @ ''): ''
                                        @ fmt_fixed 3 ((pr - ok) * 1000) @ '' ms'')
              | None \<Rightarrow> write_log l2 (''Prompt ('' @ [CHR 0x27] @ ''>'' @ [CHR 0x27] @ '') not received within ''
                                      @ fmt_fixed 1 STSBR_PROMPT_TIMEOUT_SEC @ '' s (cannot compute T2)'')))"

text \<open>
  \<^verbatim>\<open>send_and_log\<close> of this script; \<^verbatim>\<open>write_log_section\<close> is the one of \<^verbatim>\<open>STSBR_STBRT.py\<close>,
  line for line. The result is the port, the log file and the next sequence number.
\<close>

definition send_and_log_9600 :: "world \<Rightarrow> str \<Rightarrow> rat \<Rightarrow> str \<Rightarrow> nat \<Rightarrow> (world \<times> str \<times> nat) option" where
  "send_and_log_9600 ser cmd delay logf num =
     (let visible_cmd = make_visible (encode_utf8 cmd);
          logf1 = write_log logf ([CHR 0x0A] @ ''--- ['' @ str_nat num @ ''] '' @ visible_cmd @ '' ---'');
          cmd_to_send = encode_ascii_ignore (cmd @ TX_NEWLINE)
      in case py_time (reset_input_buffer ser) of
           None \<Rightarrow> None
         | Some (t_tx, ser1) \<Rightarrow>
             if contains (upper cmd) (code_points ''STSBR'') then
               (case read_stsbr_t1_t2 (ser_write cmd_to_send ser1) t_tx STSBR_PROMPT_TIMEOUT_SEC of
                  None \<Rightarrow> None
                | Some (ser3, data, ok_t, prompt_t) \<Rightarrow>
                    Some (ser3,
                          write_log_section (log_timings_9600 logf1 t_tx ok_t prompt_t) data
                            (make_visible data) (hex_plain data),
                          num + 1))
             else
               (case read_until_9600 (ser_write cmd_to_send ser1) IDLE_GAP_SEC None of
                  None \<Rightarrow> None
                | Some (ser3, log_data, visible_bytes, hex_bytes) \<Rightarrow>
                    Some (ser3, write_log_section logf1 log_data visible_bytes hex_bytes, num + 1)))"

section \<open>One command with time stamps: \<^verbatim>\<open>send_and_log\<close> of \<^verbatim>\<open>STSBR_STBRT_115200_delay.py\<close>\<close>

text \<open>
  The lines that \<^verbatim>\<open>send_and_log\<close> writes after \<^verbatim>\<open>read_stsbr_with_baud_switch\<close> has
  returned: the TX time and the intervals T1, CR1 and T2.
\<close>

definition log_timings :: "str \<Rightarrow> rat \<Rightarrow> int \<Rightarrow> rat option \<Rightarrow> rat option \<Rightarrow> rat option \<Rightarrow> str" where
  "log_timings logf t_tx new_baud ok_t prompt_t cr1_t =
     (let l1 = write_log logf (''TX time: '' @ fmt_fixed 6 t_tx);
          l2 = (case ok_t of
                  Some ok \<Rightarrow> write_log l1 (''T1 (TX -> OK): '' @ fmt_fixed 3 ((ok - t_tx) * 1000) @ '' ms'')
                | None \<Rightarrow> write_log l1 ''OK not received (cannot compute T1/T2)'');
          l3 = (case cr1_t of
                  Some cr1 \<Rightarrow> write_log l2 (''CR1 after OK seen at: '' @ fmt_fixed 3 ((cr1 - t_tx) * 1000)
                                          @ '' ms (then host baud -> '' @ str_int new_baud @ '')'')
                | None \<Rightarrow> write_log l2 (''First CR after OK not seen before timeout; host baud not switched to ''
                                        @ str_int new_baud))
      in case ok_t of
           None \<Rightarrow> l3
         | Some ok \<Rightarrow>
             (case prompt_t of
                Some pr \<Rightarrow> write_log l3 (''T2 (OK -> '' @ [CHR 0x27] @ ''>'' @ [CHR 0x27] @ ''): ''
                                        @ fmt_fixed 3 ((pr - ok) * 1000) @ '' ms'')
              | None \<Rightarrow> write_log l3 (''Prompt ('' @ [CHR 0x27] @ ''>'' @ [CHR 0x27] @ '') not received within ''
                                      @ fmt_fixed 1 STSBR_PROMPT_TIMEOUT_SEC @ '' s (cannot compute T2)'')))"

text \<open>The result is the port, the log file, the next number and \<^verbatim>\<open>updated_baud_or_None\<close>.\<close>

definition send_and_log_115200 ::
    "world \<Rightarrow> str \<Rightarrow> rat \<Rightarrow> str \<Rightarrow> nat \<Rightarrow> (world \<times> str \<times> nat \<times> int option) option" where
  "send_and_log_115200 ser cmd delay logf num =
     (let visible_cmd = make_visible (encode_utf8 cmd);
          logf1 = write_log logf ([CHR 0x0A] @ ''--- ['' @ str_nat num @ ''] '' @ visible_cmd @ '' ---'');
          cmd_to_send = encode_ascii_ignore (cmd @ TX_NEWLINE)
      in case py_time (reset_input_buffer ser) of
           None \<Rightarrow> None
         | Some (t_tx, ser1) \<Rightarrow>
             if startswith (upper (strip cmd)) (code_points ''STSBR'') then
               (case parse_stsbr_baud cmd of
                  None \<Rightarrow>
                    (case read_until_idle (ser_write cmd_to_send ser1) IDLE_GAP_SEC of
                       None \<Rightarrow> None
                     | Some (ser3, data) \<Rightarrow>
                         Some (ser3,
                               write_log_section_115200
                                 (write_log logf1 ''ERROR: Could not parse baud from STSBR command.'') data,
                               num + 1, None))
                | Some new_baud \<Rightarrow>
                    (case read_stsbr_with_baud_switch (ser_write cmd_to_send ser1) t_tx new_baud
                            STSBR_PROMPT_TIMEOUT_SEC of
                       None \<Rightarrow> None
                     | Some (ser3, data, ok_t, prompt_t, cr1_t) \<Rightarrow>
                         Some (ser3,
                               write_log_section_115200
                                 (log_timings logf1 t_tx new_baud ok_t prompt_t cr1_t) data,
                               num + 1, Some new_baud)))
             else
               (case read_until_idle (ser_write cmd_to_send ser1) IDLE_GAP_SEC of
                  None \<Rightarrow> None
                | Some (ser3, data) \<Rightarrow> Some (ser3, write_log_section_115200 logf1 data, num + 1, None)))"

text \<open>
  What \<^verbatim>\<open>main\<close> carries through a session: the open port, the log file, the number of
  the next command and the speed it believes the device to be at.
\<close>

record session =
  s_port :: world
  s_log :: str
  s_num :: nat
  s_baud :: int

text \<open>The loop \<^verbatim>\<open>for cmd, delay in seq\<close> of \<^verbatim>\<open>main\<close> in this script.\<close>

fun for_loop_115200 :: "(str \<times> rat) list \<Rightarrow> session \<Rightarrow> session option" where
  "for_loop_115200 [] st = Some st"
| "for_loop_115200 ((cmd, delay) # seq) st =
     (case send_and_log_115200 (s_port st) cmd delay (s_log st) (s_num st) of
        None \<Rightarrow> None
      | Some (ser', logf', num', maybe_new_baud) \<Rightarrow>
          for_loop_115200 seq
            (st\<lparr>s_port := ser', s_log := logf', s_num := num',
                s_baud := (case maybe_new_baud of None \<Rightarrow> s_baud st | Some b \<Rightarrow> b)\<rparr>))"

section \<open>Sessions that switch speed: \<^verbatim>\<open>main\<close> of \<^verbatim>\<open>STSBR_STBRT.py\<close> and \<^verbatim>\<open>STSBR_ATI_CR.py\<close>\<close>

text \<open>\<^verbatim>\<open>int([x for x in cmd.split() if x.isdigit()][0])\<close>.\<close>

definition first_digit_int :: "str \<Rightarrow> py_error + int" where
  "first_digit_int cmd =
     (case filter isdigit (split cmd) of [] \<Rightarrow> Inl IndexError | x # xs \<Rightarrow> py_int x)"

text \<open>
  The conditions of the \<^verbatim>\<open>if\<close>/\<^verbatim>\<open>elif\<close> chain that follows \<^verbatim>\<open>send_and_log\<close> in the loop of
  \<^verbatim>\<open>main\<close>, in the order of the chain, as the kind of the command.
\<close>

datatype command_kind = Timeout_setting | Speed_change | Reset | Plain

definition command_kind :: "int \<Rightarrow> str \<Rightarrow> command_kind" where
  "command_kind b cmd =
     (if contains (upper cmd) (code_points ''STBRT'') then Timeout_setting
      else if contains (upper cmd) (code_points ''STSBR '') then Speed_change
      else if contains (upper cmd) (code_points ''STRSTNVM'') \<and> b \<noteq> 9600 then Reset
      else Plain)"

text \<open>The session of these scripts also holds the globals \<^verbatim>\<open>STARTING_BAUD\<close> and \<^verbatim>\<open>TIMEOUT\<close>.\<close>

record session_g = session +
  STARTING_BAUD :: int
  TIMEOUT :: rat

text \<open>
  The loop \<^verbatim>\<open>for cmd, delay in seq\<close> of \<^verbatim>\<open>main\<close> in \<^verbatim>\<open>STSBR_STBRT.py\<close>. An exception ends
  the loop with the state reached (the \<^verbatim>\<open>except\<close> of \<^verbatim>\<open>main\<close> prints it and returns); a
  \<^verbatim>\<open>break\<close> ends it with the flag set, for the \<^verbatim>\<open>while\<close> loop to open the port again.
\<close>

fun for_loop_STSBR_STBRT ::
    "(str \<times> rat) list \<Rightarrow> session_g \<Rightarrow> ((py_error \<times> session_g) + (session_g \<times> bool)) option" where
  "for_loop_STSBR_STBRT [] st = Some (Inr (st, False))"
| "for_loop_STSBR_STBRT ((cmd, delay) # seq) st =
     (case send_and_log_STSBR_STBRT (s_port st) cmd delay (s_log st) (s_num st) of
        None \<Rightarrow> None
      | Some (ser', logf', num') \<Rightarrow>
          (case command_kind (s_baud st) cmd of
             Timeout_setting \<Rightarrow>
               (case first_digit_int cmd of
                  Inl e \<Rightarrow> Some (Inl (e, st\<lparr>s_port := ser', s_log := logf', s_num := num'\<rparr>))
                | Inr n \<Rightarrow>
                    for_loop_STSBR_STBRT seq
                      (st\<lparr>s_port := ser', s_log := logf', s_num := num', TIMEOUT := of_int n * (12 / 10)\<rparr>))
           | Speed_change \<Rightarrow>
               (case first_digit_int cmd of
                  Inl e \<Rightarrow>
                    Some (Inl (e, st\<lparr>s_port := ser', s_log := logf', s_num := num', STARTING_BAUD := s_baud st\<rparr>))
                | Inr n \<Rightarrow>
                    Some (Inr (st\<lparr>s_port := ser', s_log := logf', s_num := num', s_baud := n,
                                  STARTING_BAUD := s_baud st\<rparr>, True)))
           | Reset \<Rightarrow>
               Some (Inr (st\<lparr>s_port := ser', s_log := logf', s_num := num', s_baud := 9600,
                             STARTING_BAUD := 9600, TIMEOUT := 1\<rparr>, True))
           | Plain \<Rightarrow> for_loop_STSBR_STBRT seq (st\<lparr>s_port := ser', s_log := logf', s_num := num'\<rparr>)))"

section \<open>Fast speed switch: \<^verbatim>\<open>STSBR_ATI_CR.py\<close>\<close>

text \<open>
  \<^verbatim>\<open>read_until\<close>, \<^verbatim>\<open>make_visible\<close> and \<^verbatim>\<open>write_log_section\<close> of this script are those of
  \<^verbatim>\<open>STSBR_STBRT.py\<close>, line for line. A function that can raise returns \<open>Inl\<close> with the
  exception, the port and the log file as they are when it is raised.
\<close>

definition STSBR_OLD_READ_SEC :: rat where
  "STSBR_OLD_READ_SEC = 20 / 1000"

text \<open>The optional short read at the old speed, with its log section.\<close>

definition old_baud_read :: "world \<Rightarrow> str \<Rightarrow> (world \<times> str) option" where
  "old_baud_read ser logf =
     (if STSBR_OLD_READ_SEC \<noteq> 0 \<and> 0 < STSBR_OLD_READ_SEC then
        (case read_until STSBR_OLD_READ_SEC None ser of
           None \<Rightarrow> None
         | Some (ser', old_data, old_vis, old_hex) \<Rightarrow>
             Some (ser',
                   if old_vis \<noteq> [] then
                     write_log_section
                       (write_log logf ([CHR 0x0A] @ ''[pre-switch @ old baud '' @ str_int (baudrate ser') @ '']''))
                       old_data old_vis old_hex
                   else logf))
      else Some (ser, logf))"

definition send_stsbr_and_switch_baud ::
    "world \<Rightarrow> str \<Rightarrow> str \<Rightarrow> nat \<Rightarrow> ((py_error \<times> world \<times> str) + (world \<times> str \<times> nat \<times> int)) option" where
  "send_stsbr_and_switch_baud ser cmd logf num =
     (let visible = make_visible (encode_utf8 cmd);
          logf1 = write_log logf ([CHR 0x0A] @ ''--- ['' @ str_nat num @ ''] '' @ visible
                                  @ '' (FAST BAUD SWITCH) ---'')
      in case first_digit_int cmd of
           Inl e \<Rightarrow> Some (Inl (e, ser, logf1))
         | Inr new_baud \<Rightarrow>
             (case old_baud_read
                     (ser_write (encode_ascii_ignore (cmd @ TX_NEWLINE)) (reset_input_buffer ser)) logf1 of
                None \<Rightarrow> None
              | Some (ser2, logf2) \<Rightarrow>
                  (case set_baudrate new_baud ser2 of
                     Inl e \<Rightarrow> Some (Inl (e, ser2, logf2))
                   | Inr ser3 \<Rightarrow>
                       (case read_until IDLE_GAP_SEC None (reset_input_buffer ser3) of
                          None \<Rightarrow> None
                        | Some (ser4, log_data, visible_bytes, hex_bytes) \<Rightarrow>
                            Some (Inr (ser4,
                                       write_log_section
                                         (write_log logf2 ([CHR 0x0A] @ ''[post-switch @ new baud ''
                                                           @ str_int new_baud @ '']''))
                                         log_data visible_bytes hex_bytes,
                                       num + 1, new_baud))))))"

definition send_and_log_ATI_CR ::
    "world \<Rightarrow> str \<Rightarrow> rat \<Rightarrow> str \<Rightarrow> nat \<Rightarrow> ((py_error \<times> world \<times> str) + (world \<times> str \<times> nat)) option" where
  "send_and_log_ATI_CR ser cmd delay logf num =
     (if startswith (upper cmd) (code_points ''STSBR '') then
        (case send_stsbr_and_switch_baud ser cmd logf num of
           None \<Rightarrow> None
         | Some (Inl x) \<Rightarrow> Some (Inl x)
         | Some (Inr (ser', logf', num', new_baud)) \<Rightarrow> Some (Inr (ser', logf', num')))
      else
        (let visible = make_visible (encode_utf8 cmd);
             logf1 = write_log logf ([CHR 0x0A] @ ''--- ['' @ str_nat num @ ''] '' @ visible @ '' ---'');
             cmd_b = encode_ascii_ignore (cmd @ TX_NEWLINE)
         in case read_until IDLE_GAP_SEC None (ser_write cmd_b (reset_input_buffer ser)) of
              None \<Rightarrow> None
            | Some (ser2, log_data, visible_bytes, hex_bytes) \<Rightarrow>
                Some (Inr (ser2, write_log_section logf1 log_data visible_bytes hex_bytes, num + 1))))"

text \<open>
  The loop \<^verbatim>\<open>for cmd, delay in seq\<close> of \<^verbatim>\<open>main\<close> in \<^verbatim>\<open>STSBR_ATI_CR.py\<close>: after a speed
  change the loop goes on with the next command on the same port.
\<close>

fun for_loop_ATI_CR ::
    "(str \<times> rat) list \<Rightarrow> session_g \<Rightarrow> ((py_error \<times> session_g) + (session_g \<times> bool)) option" where
  "for_loop_ATI_CR [] st = Some (Inr (st, False))"
| "for_loop_ATI_CR ((cmd, delay) # seq) st =
     (case send_and_log_ATI_CR (s_port st) cmd delay (s_log st) (s_num st) of
        None \<Rightarrow> None
      | Some (Inl (e, ser', logf')) \<Rightarrow> Some (Inl (e, st\<lparr>s_port := ser', s_log := logf'\<rparr>))
      | Some (Inr (ser', logf', num')) \<Rightarrow>
          (case command_kind (s_baud st) cmd of
             Timeout_setting \<Rightarrow>
               (case first_digit_int cmd of
                  Inl e \<Rightarrow> Some (Inl (e, st\<lparr>s_port := ser', s_log := logf', s_num := num'\<rparr>))
                | Inr n \<Rightarrow>
                    for_loop_ATI_CR seq
                      (st\<lparr>s_port := ser', s_log := logf', s_num := num', TIMEOUT := of_int n * (12 / 10)\<rparr>))
           | Speed_change \<Rightarrow>
               (case first_digit_int cmd of
                  Inl e \<Rightarrow>
                    Some (Inl (e, st\<lparr>s_port := ser', s_log := logf', s_num := num',
                                     STARTING_BAUD := s_baud st\<rparr>))
                | Inr n \<Rightarrow>
                    for_loop_ATI_CR seq
                      (st\<lparr>s_port := ser', s_log := logf', s_num := num', s_baud := n,
                          STARTING_BAUD := s_baud st\<rparr>))
           | Reset \<Rightarrow>
               Some (Inr (st\<lparr>s_port := ser', s_log := logf', s_num := num', s_baud := 9600,
                             STARTING_BAUD := 9600, TIMEOUT := 1\<rparr>, True))
           | Plain \<Rightarrow> for_loop_ATI_CR seq (st\<lparr>s_port := ser', s_log := logf', s_num := num'\<rparr>)))"

section \<open>Strict rendering: \<^verbatim>\<open>STN_Scripts/STPX.py\<close>\<close>

text \<open>
  \<^verbatim>\<open>visible_bytes\<close>: the loop over the bytes with the list \<^verbatim>\<open>out\<close>; here no byte leaves the
  loop. \<^verbatim>\<open>hex_bytes\<close> writes every byte with two digits.
\<close>

fun visible_bytes_loop :: "bytes \<Rightarrow> str list \<Rightarrow> str list" where
  "visible_bytes_loop [] out = out"
| "visible_bytes_loop (x # xs) out =
     (if x = CHR 0x20 then visible_bytes_loop xs (out @ [[CHR 0xB7]])
      else if x = CHR 0x0D then visible_bytes_loop xs (out @ [''<CR>''])
      else if x = CHR 0x0A then visible_bytes_loop xs (out @ [''<LF>'' @ [CHR 0x0A]])
      else if x = CHR 0x09 then visible_bytes_loop xs (out @ [''<TAB>''])
      else if 0x21 \<le> (of_char x :: nat) \<and> (of_char x :: nat) \<le> 0x7E
        then visible_bytes_loop xs (out @ [[x]])
      else visible_bytes_loop xs (out @ [[CHR 0x5C, CHR ''x''] @ hex2 x]))"

definition visible_bytes_STPX :: "bytes \<Rightarrow> str" where
  "visible_bytes_STPX b = join [] (visible_bytes_loop b [])"

definition hex_bytes_STPX :: "bytes \<Rightarrow> str" where
  "hex_bytes_STPX b = join '' '' (map hex2 b)"

text \<open>
  \<^verbatim>\<open>drain\<close>: reads and throws away what is waiting, look after look, until a look finds
  nothing.
\<close>

fun drain_rx :: "bytes list \<Rightarrow> bytes list" where
  "drain_rx [] = []"
| "drain_rx (c # cs) = (if c = [] then cs else drain_rx cs)"

definition drain :: "world \<Rightarrow> world" where
  "drain w = w\<lparr>rx := drain_rx (rx w)\<rparr>"

text \<open>
  The loop \<^verbatim>\<open>for idx, (cmd, delay) in enumerate(SEQUENCE)\<close> of \<^verbatim>\<open>main\<close>, on the port and the
  log file. The three lines of the section are written by three calls of \<^verbatim>\<open>write_log\<close>,
  each of which ends its text with a newline when the text has none at its end.
\<close>

definition log_response_STPX :: "str \<Rightarrow> bytes \<Rightarrow> str" where
  "log_response_STPX logf log_data =
     write_log
       (write_log (write_log logf (''len='' @ str_nat (length log_data))) (visible_bytes_STPX log_data))
       (''HEX: '' @ hex_bytes_STPX log_data)"

fun for_loop_STPX :: "(str \<times> rat) list \<Rightarrow> nat \<Rightarrow> world \<Rightarrow> str \<Rightarrow> (world \<times> str) option" where
  "for_loop_STPX [] idx port logf = Some (port, logf)"
| "for_loop_STPX ((cmd, delay) # seq) idx port logf =
     (case read_until_quiet (ser_write (encode_ascii_ignore cmd @ [CHR 0x0D]) (drain port)) of
        None \<Rightarrow> None
      | Some (port', log_data) \<Rightarrow>
          for_loop_STPX seq (idx + 1) port'
            (log_response_STPX
               (write_log logf ([CHR 0x0A] @ ''--- ['' @ str_nat idx @ ''] '' @ cmd @ '' ---''))
               log_data))"

section \<open>Notions used to state the claims\<close>

text \<open>
  The first \<open>n\<close> rounds of a polling loop against an environment: the clock reading of
  each round with the bytes that the round found waiting.
\<close>

fun rounds :: "nat \<Rightarrow> rat list \<Rightarrow> bytes list \<Rightarrow> (rat \<times> bytes) list" where
  "rounds 0 ts cs = []"
| "rounds (Suc n) [] cs = []"
| "rounds (Suc n) (t # ts) cs = (t, case cs of [] \<Rightarrow> [] | c # _ \<Rightarrow> c) # rounds n ts (tl cs)"

text \<open>
  The clock reading of the last round that found bytes, \<open>t0\<close> when no round did.
\<close>

definition last_reception :: "rat \<Rightarrow> (rat \<times> bytes) list \<Rightarrow> rat" where
  "last_reception t0 rs = foldl (\<lambda>l (t, c). if c \<noteq> [] then t else l) t0 rs"

text \<open>\<open>sub\<close> occurs in \<open>buf\<close> at index \<open>i\<close>.\<close>

definition occurs_at :: "'a list \<Rightarrow> 'a list \<Rightarrow> nat \<Rightarrow> bool" where
  "occurs_at sub buf i = (i \<le> length buf \<and> prefix sub (drop i buf))"

text \<open>
  What phase 1 keeps true of its variables between rounds: \<^verbatim>\<open>ok_time\<close> is set exactly when
  \<^verbatim>\<open>OK\<close> occurs in \<^verbatim>\<open>buf_old\<close>, \<^verbatim>\<open>ok_pos_end\<close> is then the index just past the first
  \<^verbatim>\<open>OK\<close>, and \<^verbatim>\<open>cr1_time\<close> is set exactly when a CR occurs at or after \<^verbatim>\<open>ok_pos_end\<close>.
\<close>

definition phase1_inv :: "phase1_vars \<Rightarrow> bool" where
  "phase1_inv s =
     (case ok_time s of
        None \<Rightarrow> py_find (buf_old s) ''OK'' 0 = None \<and> cr1_time s = None
      | Some t \<Rightarrow>
          (case py_find (buf_old s) ''OK'' 0 of
             None \<Rightarrow> False
           | Some p \<Rightarrow> ok_pos_end s = p + 2 \<and>
               (cr1_time s = None) = (py_find (buf_old s) [CHR 0x0D] (p + 2) = None)))"

text \<open>The same for the loop of \<^verbatim>\<open>read_stsbr_t1_t2\<close>, with the prompt character.\<close>

definition t12_inv :: "t12_vars \<Rightarrow> bool" where
  "t12_inv s =
     (ok_search_from s = 0 \<and>
      (case t12_ok_time s of
        None \<Rightarrow> py_find (t12_buf s) ''OK'' 0 = None \<and> t12_prompt_time s = None
      | Some t \<Rightarrow>
          (case py_find (t12_buf s) ''OK'' 0 of
             None \<Rightarrow> False
           | Some p \<Rightarrow> prompt_search_from s = p + 2 \<and>
               (t12_prompt_time s = None) = (py_find (t12_buf s) ''>'' (p + 2) = None))))"

section \<open>Facts about the log comparison utility\<close>

lemma map_of_od_set: "map_of (od_set k v d) = (map_of d)(k \<mapsto> v)"
  by (induction d) (auto simp: fun_eq_iff)

lemma keys_od_set: "fst ` set (od_set k v d) = insert k (fst ` set d)"
  by (induction k v d rule: od_set.induct) auto

lemma distinct_od_set: "distinct (map fst d) \<Longrightarrow> distinct (map fst (od_set k v d))"
proof (induction d)
  case Nil
  show ?case by simp
next
  case (Cons p d)
  obtain k' v' where p: "p = (k', v')" by (cases p)
  show ?case
  proof (cases "k' = k")
    case True
    with Cons.prems p show ?thesis by simp
  next
    case False
    have "k' \<notin> fst ` set (od_set k v d)"
      using Cons.prems p False by (simp add: keys_od_set)
    with Cons p False show ?thesis by simp
  qed
qed

lemma distinct_flush_load_loop:
  "distinct (map fst d) \<Longrightarrow> distinct (map fst (flush (load_loop lns d h buf)))"
proof (induction lns arbitrary: d h buf)
  case Nil
  then show ?case by (cases h) (simp_all add: distinct_od_set)
next
  case (Cons line lns)
  show ?case
  proof (cases "is_header line")
    case True
    have "distinct (map fst (case h of None \<Rightarrow> d | Some ch \<Rightarrow> od_set ch buf d))"
      using Cons.prems by (cases h) (simp_all add: distinct_od_set)
    from Cons.IH [OF this] True show ?thesis by simp
  next
    case False
    with Cons show ?thesis by (cases h) simp_all
  qed
qed

lemma load_loop_append:
  "load_loop (xs @ ys) d h buf =
     (case load_loop xs d h buf of (d', h', buf') \<Rightarrow> load_loop ys d' h' buf')"
  by (induction xs arbitrary: d h buf) (auto split: option.splits)

text \<open>A stored block is kept while no later header line has its key.\<close>

lemma load_loop_keeps:
  "map_of d key = Some v \<Longrightarrow> h \<noteq> Some key \<Longrightarrow>
   \<forall>l \<in> set lns. is_header l \<longrightarrow> strip l \<noteq> key \<Longrightarrow>
   map_of (flush (load_loop lns d h buf)) key = Some v"
proof (induction lns arbitrary: d h buf)
  case Nil
  then show ?case by (cases h) (auto simp: map_of_od_set)
next
  case (Cons line lns)
  show ?case
  proof (cases "is_header line")
    case True
    have 1: "map_of (case h of None \<Rightarrow> d | Some ch \<Rightarrow> od_set ch buf d) key = Some v"
      using Cons.prems(1,2) by (cases h) (auto simp: map_of_od_set)
    have 2: "Some (strip line) \<noteq> Some key"
      using Cons.prems(3) True by simp
    have 3: "\<forall>l \<in> set lns. is_header l \<longrightarrow> strip l \<noteq> key"
      using Cons.prems(3) by simp
    from Cons.IH [OF 1 2 3] True show ?thesis by simp
  next
    case False
    have 3: "\<forall>l \<in> set lns. is_header l \<longrightarrow> strip l \<noteq> key"
      using Cons.prems(3) by simp
    show ?thesis
      using False Cons.IH [OF Cons.prems(1) Cons.prems(2) 3] by (cases h) simp_all
  qed
qed

text \<open>The open block collects the lines up to the next header line and is then stored.\<close>

lemma load_loop_collects:
  "\<forall>l \<in> set body. \<not> is_header l \<Longrightarrow>
   rest = [] \<or> is_header (hd rest) \<Longrightarrow>
   \<forall>l \<in> set rest. is_header l \<longrightarrow> strip l \<noteq> key \<Longrightarrow>
   map_of (flush (load_loop (body @ rest) d (Some key) buf)) key = Some (buf @ body)"
proof (induction body arbitrary: buf)
  case Nil
  show ?case
  proof (cases rest)
    case Nil
    then show ?thesis by (simp add: map_of_od_set)
  next
    case (Cons r rs)
    with Nil.prems have hr: "is_header r" and ne: "strip r \<noteq> key"
      and rs: "\<forall>l \<in> set rs. is_header l \<longrightarrow> strip l \<noteq> key"
      by auto
    have "map_of (flush (load_loop rs (od_set key buf d) (Some (strip r)) [])) key = Some buf"
      by (rule load_loop_keeps) (use ne rs in \<open>auto simp: map_of_od_set\<close>)
    with Cons hr show ?thesis by simp
  qed
next
  case (Cons b body)
  then show ?case by simp
qed

text \<open>
  C10. In the log comparison utility the parsed block map has at most one entry per
  distinct header line, and when several blocks of one file have the same header line the
  entry holds the lines of the last of them: a block (header line, the lines up to the
  next header line or the end of the file) after which no header line with the same
  stripped text occurs is the one stored under that header.
\<close>

theorem load_blocks_last_header_wins:
  "distinct (map fst (blocks_by_header lines)) \<and>
   (lines = pre @ [hl] @ body @ rest \<longrightarrow> is_header hl \<longrightarrow>
    (\<forall>l \<in> set body. \<not> is_header l) \<longrightarrow>
    (rest = [] \<or> is_header (hd rest)) \<longrightarrow>
    (\<forall>l \<in> set rest. is_header l \<longrightarrow> strip l \<noteq> strip hl) \<longrightarrow>
    map_of (blocks_by_header lines) (strip hl) = Some body)"
proof (intro conjI impI)
  show "distinct (map fst (blocks_by_header lines))"
    unfolding blocks_by_header_def by (rule distinct_flush_load_loop) simp
next
  assume lines: "lines = pre @ [hl] @ body @ rest" and hl: "is_header hl"
    and body: "\<forall>l \<in> set body. \<not> is_header l"
    and rest: "rest = [] \<or> is_header (hd rest)"
    and later: "\<forall>l \<in> set rest. is_header l \<longrightarrow> strip l \<noteq> strip hl"
  obtain d h buf where pre: "load_loop pre [] None [] = (d, h, buf)"
    by (cases "load_loop pre [] None []")
  define d' where "d' = (case h of None \<Rightarrow> d | Some ch \<Rightarrow> od_set ch buf d)"
  have "load_loop lines [] None [] = load_loop (body @ rest) d' (Some (strip hl)) []"
    using pre hl by (simp add: lines load_loop_append d'_def)
  then show "map_of (blocks_by_header lines) (strip hl) = Some body"
    using load_loop_collects [OF body rest later, of d' "[]"]
    by (simp add: blocks_by_header_def)
qed

theorem load_blocks_last_header_wins_witness:
  "is_header ''--- [0] ATI ---'' \<and> \<not> is_header ''new'' \<and>
   distinct (map fst (blocks_by_header [''--- [0] ATI ---'', ''old'', ''--- [0] ATI ---'', ''new''])) \<and>
   map_of (blocks_by_header [''--- [0] ATI ---'', ''old'', ''--- [0] ATI ---'', ''new''])
     ''--- [0] ATI ---'' = Some [''new'']"
  using load_blocks_last_header_wins [of "[''--- [0] ATI ---'', ''old'', ''--- [0] ATI ---'', ''new'']"
     "[''--- [0] ATI ---'', ''old'']" "''--- [0] ATI ---''" "[''new'']" "[]"]
  by (simp add: is_header_def strip_def isspace_def startswith_def endswith_def suffix_to_prefix)

section \<open>Facts about the rendering\<close>

lemma join_empty_sep: "join [] xs = concat xs"
  by (induction "[] :: str" xs rule: join.induct) simp_all

lemma of_char_zero_iff: "((of_char x :: nat) = 0) = (x = CHR 0x00)"
proof -
  have "(of_char (CHR 0x00) :: nat) = 0" by simp
  then show ?thesis by (metis of_char_eq_iff)
qed

lemma make_visible_loop_eq:
  "make_visible_loop b chars = chars @ map spec_visible (takeWhile (\<lambda>x. x \<noteq> CHR 0x00) b)"
proof (induction b arbitrary: chars)
  case Nil
  show ?case by simp
next
  case (Cons x xs)
  show ?case 
    by (simp add: Cons.IH of_char_zero_iff spec_visible_def)
qed

lemma make_visible_eq:
  "make_visible b = concat (map spec_visible (takeWhile (\<lambda>x. x \<noteq> CHR 0x00) b))"
  by (simp add: make_visible_def make_visible_loop_eq join_empty_sep)

lemma hex_digit_not_newline: "d < 16 \<Longrightarrow> hex_digit d \<noteq> CHR 0x0A"
proof -
  assume "d < 16"
  then have "hex_digit d \<in> set ''0123456789ABCDEF''"
    unfolding hex_digit_def by (intro nth_mem) simp
  then show ?thesis by auto
qed

lemma last_join:
  "xs \<noteq> [] \<Longrightarrow> \<forall>x \<in> set xs. x \<noteq> [] \<Longrightarrow> last (join sep xs) = last (last xs) \<and> join sep xs \<noteq> []"
  by (induction sep xs rule: join.induct) auto

lemma endswith_single: "endswith t [c] = (t \<noteq> [] \<and> last t = c)"
  by (cases t rule: rev_cases) (auto simp: endswith_def)

lemma hex_dump_no_newline_end:
  "\<not> endswith (pre @ ''HEX: '' @ hex_dump data) [CHR 0x0A]"
proof (cases data)
  case Nil
  then show ?thesis by (simp add: hex_dump_def endswith_single)
next
  case (Cons x xs)
  let ?f = "\<lambda>x. if (of_char x :: nat) \<noteq> 0 then hex2 x else [CHR 0x00]"
  have ne: "map ?f data \<noteq> []" using Cons by simp
  have all: "\<forall>y \<in> set (map ?f data). y \<noteq> []" by (auto simp: hex2_def)
  have l: "last (hex_dump data) = last (?f (last data))" and n: "hex_dump data \<noteq> []"
    using last_join [OF ne all, of "'' ''"] Cons by (simp_all add: hex_dump_def last_map)
  have "last (?f (last data)) \<noteq> CHR 0x0A"
    by (simp add: hex2_def hex_digit_not_newline)
  with l n show ?thesis by (simp add: endswith_single)
qed

section \<open>Facts about searching\<close>

lemma find_pos_Some:
  "find_pos sub xs i = Some p \<Longrightarrow>
   i \<le> p \<and> p - i \<le> length xs \<and> prefix sub (drop (p - i) xs) \<and> (\<forall>k < p - i. \<not> prefix sub (drop k xs))"
proof (induction xs arbitrary: i)
  case Nil
  then show ?case by (auto split: if_splits)
next
  case (Cons x xs)
  show ?case
  proof (cases "prefix sub (x # xs)")
    case True
    with Cons.prems show ?thesis by simp
  next
    case False
    with Cons.prems have "find_pos sub xs (Suc i) = Some p" by simp
    from Cons.IH [OF this] have ih: "Suc i \<le> p" "p - Suc i \<le> length xs"
      "prefix sub (drop (p - Suc i) xs)" "\<forall>k < p - Suc i. \<not> prefix sub (drop k xs)"
      by auto
    have eq: "p - i = Suc (p - Suc i)" using ih(1) by simp
    have "\<not> prefix sub (drop k (x # xs))" if "k < p - i" for k
      using that False ih(4) eq by (cases k) auto
    with ih eq show ?thesis by auto
  qed
qed

lemma find_pos_None:
  "find_pos sub xs i = None \<Longrightarrow> k \<le> length xs \<Longrightarrow> \<not> prefix sub (drop k xs)"
proof (induction xs arbitrary: i k)
  case Nil
  then show ?case by (auto split: if_splits)
next
  case (Cons x xs)
  then show ?case by (cases k) (auto split: if_splits)
qed

lemma find_Some_iff:
  "py_find buf sub st = Some p \<longleftrightarrow>
     st \<le> p \<and> occurs_at sub buf p \<and> (\<forall>k. st \<le> k \<and> k < p \<longrightarrow> \<not> occurs_at sub buf k)"
proof
  assume f: "py_find buf sub st = Some p"
  then have le: "st \<le> length buf" and fp: "find_pos sub (drop st buf) st = Some p"
    by (auto simp: py_find_def split: if_splits)
  from find_pos_Some [OF fp] have a: "st \<le> p" "p - st \<le> length buf - st"
    "prefix sub (drop (p - st) (drop st buf))" "\<forall>k < p - st. \<not> prefix sub (drop k (drop st buf))"
    by auto
  have "\<not> occurs_at sub buf k" if "st \<le> k" "k < p" for k
    using a(4) [rule_format, of "k - st"] that by (simp add: occurs_at_def)
  with a le show "st \<le> p \<and> occurs_at sub buf p \<and> (\<forall>k. st \<le> k \<and> k < p \<longrightarrow> \<not> occurs_at sub buf k)"
    by (auto simp: occurs_at_def)
next
  assume r: "st \<le> p \<and> occurs_at sub buf p \<and> (\<forall>k. st \<le> k \<and> k < p \<longrightarrow> \<not> occurs_at sub buf k)"
  then have le: "st \<le> length buf" and pl: "p \<le> length buf" by (auto simp: occurs_at_def)
  show "py_find buf sub st = Some p"
  proof (cases "find_pos sub (drop st buf) st")
    case None
    from find_pos_None [OF None, of "p - st"] r pl show ?thesis
      by (auto simp: occurs_at_def)
  next
    case (Some q)
    from find_pos_Some [OF Some] have a: "st \<le> q" "q - st \<le> length buf - st"
      "prefix sub (drop (q - st) (drop st buf))" "\<forall>k < q - st. \<not> prefix sub (drop k (drop st buf))"
      by auto
    have oq: "occurs_at sub buf q" using a le by (auto simp: occurs_at_def)
    have "q = p"
    proof (rule ccontr)
      assume "q \<noteq> p"
      then consider "q < p" | "p < q" by linarith
      then show False
      proof cases
        case 1
        with r oq a(1) show False by blast
      next
        case 2
        with r have "p - st < q - st" by auto
        with a(4) r show False by (auto simp: occurs_at_def)
      qed
    qed
    with Some le show ?thesis by (simp add: py_find_def)
  qed
qed

lemma find_None_iff:
  "py_find buf sub st = None \<longleftrightarrow> (\<forall>k \<ge> st. \<not> occurs_at sub buf k)"
proof
  assume n: "py_find buf sub st = None"
  show "\<forall>k \<ge> st. \<not> occurs_at sub buf k"
  proof (intro allI impI)
    fix k assume k: "st \<le> k"
    show "\<not> occurs_at sub buf k"
    proof (cases "length buf < st")
      case True
      with k show ?thesis by (simp add: occurs_at_def)
    next
      case False
      with n have "find_pos sub (drop st buf) st = None" by (simp add: py_find_def)
      from find_pos_None [OF this, of "k - st"] k show ?thesis
        by (auto simp: occurs_at_def)
    qed
  qed
next
  assume a: "\<forall>k \<ge> st. \<not> occurs_at sub buf k"
  show "py_find buf sub st = None"
  proof (cases "py_find buf sub st")
    case None then show ?thesis .
  next
    case (Some p)
    then have "st \<le> p \<and> occurs_at sub buf p" by (simp add: find_Some_iff)
    with a show ?thesis by blast
  qed
qed

lemma occurs_at_length: "occurs_at sub buf k \<Longrightarrow> k + length sub \<le> length buf"
  by (auto simp: occurs_at_def dest!: prefix_length_le)

lemma occurs_at_append: "occurs_at sub buf k \<Longrightarrow> occurs_at sub (buf @ ext) k"
  by (auto simp: occurs_at_def)

lemma occurs_at_append_back:
  assumes "occurs_at sub (buf @ ext) k" and len: "k + length sub \<le> length buf"
  shows "occurs_at sub buf k"
proof -
  have k: "k \<le> length buf" using len by simp
  from assms(1) k have "prefix sub (drop k buf @ ext)" by (simp add: occurs_at_def)
  then have "take (length sub) (drop k buf @ ext) = sub"
    by (metis append_eq_conv_conj prefix_def)
  moreover have "length sub \<le> length (drop k buf)" using len by simp
  ultimately have "take (length sub) (drop k buf) = sub" by simp
  then have "prefix sub (drop k buf)" by (metis take_is_prefix)
  with k show ?thesis by (simp add: occurs_at_def)
qed

lemma find_append_stable:
  assumes "py_find buf sub st = Some p"
  shows "py_find (buf @ ext) sub st = Some p"
proof -
  from assms have a: "st \<le> p" "occurs_at sub buf p" "\<forall>k. st \<le> k \<and> k < p \<longrightarrow> \<not> occurs_at sub buf k"
    by (simp_all add: find_Some_iff)
  have "\<not> occurs_at sub (buf @ ext) k" if "st \<le> k" "k < p" for k
  proof
    assume o: "occurs_at sub (buf @ ext) k"
    have "k + length sub \<le> length buf" using occurs_at_length [OF a(2)] that by simp
    from occurs_at_append_back [OF o this] a(3) that show False by blast
  qed
  with a show ?thesis by (auto simp: find_Some_iff occurs_at_append)
qed

section \<open>Facts about the port and the clock\<close>

lemmas world_ops = py_time_def poll_def reset_input_buffer_def ser_write_def

lemma py_time_SomeD:
  "py_time w = Some (t, w') \<Longrightarrow>
   clock w = t # clock w' \<and> rx w' = rx w \<and> tx w' = tx w \<and> baudrate w' = baudrate w"
  by (auto simp: py_time_def split: list.splits)

lemma poll_facts:
  "fst (poll w) = (case rx w of [] \<Rightarrow> [] | c # _ \<Rightarrow> c)" "rx (snd (poll w)) = tl (rx w)"
  "clock (snd (poll w)) = clock w" "tx (snd (poll w)) = tx w" "baudrate (snd (poll w)) = baudrate w"
  by (auto simp: poll_def split: list.splits)

section \<open>Facts about the plain round trip\<close>

lemma read_until_loop_tx:
  "read_until_loop delay command w buf last_rx = Some (w', r) \<Longrightarrow>
   tx w' = tx w \<and> baudrate w' = baudrate w"
proof (induction delay command w buf last_rx rule: read_until_loop.induct)
  case (1 delay command w buf last_rx)
  from "1.prems" obtain t w2 where t: "py_time (snd (poll w)) = Some (t, w2)"
    by (subst (asm) read_until_loop.simps) (auto split: option.splits)
  have w2: "tx w2 = tx w \<and> baudrate w2 = baudrate w"
    using py_time_SomeD [OF t] by (simp add: poll_facts)
  show ?case
    using "1.prems" "1.IH"(1) [OF t refl] "1.IH"(2) [OF t refl] t w2
    by (subst (asm) read_until_loop.simps) (auto split: if_splits)
qed

lemma read_until_tx:
  "read_until delay command w = Some (w', r) \<Longrightarrow> tx w' = tx w \<and> baudrate w' = baudrate w"
  unfolding read_until_def
  by (auto split: option.splits dest!: read_until_loop_tx py_time_SomeD)

text \<open>
  Whatever the command, the bytes written are its ASCII characters and one more CR.
\<close>

lemma send_and_log_STSBR_STBRT_tx:
  "send_and_log_STSBR_STBRT ser cmd delay logf num = Some (ser', logf', num') \<Longrightarrow>
   tx ser' = tx ser @ [encode_ascii_ignore cmd @ [CHR 0x0D]]"
  unfolding send_and_log_STSBR_STBRT_def Let_def
  by (auto split: option.splits dest!: read_until_tx
           simp: ser_write_def reset_input_buffer_def encode_ascii_ignore_def TX_NEWLINE_def)

section \<open>Facts about the idle read\<close>

lemma last_reception_Cons:
  "last_reception l ((t, c) # rs) = last_reception (if c \<noteq> [] then t else l) rs"
  by (simp add: last_reception_def)

lemma read_until_idle_loop_rounds:
  "read_until_idle_loop gap w buf l = Some (w', buf', l') \<Longrightarrow>
   \<exists>n > 0. length (rounds n (clock w) (rx w)) = n \<and>
     buf' = buf @ concat (map snd (rounds n (clock w) (rx w))) \<and>
     snd (last (rounds n (clock w) (rx w))) = [] \<and>
     gap \<le> fst (last (rounds n (clock w) (rx w))) - l' \<and>
     l' = last_reception l (rounds n (clock w) (rx w)) \<and>
     clock w' = drop n (clock w) \<and> rx w' = drop n (rx w)"
proof (induction gap w buf l rule: read_until_idle_loop.induct)
  case (1 gap w buf l)
  from "1.prems" obtain t w2 where t: "py_time (snd (poll w)) = Some (t, w2)"
    by (subst (asm) read_until_idle_loop.simps) (auto split: option.splits)
  let ?c = "fst (poll w)"
  have cl: "clock w = t # clock w2" and rx2: "rx w2 = tl (rx w)"
    using py_time_SomeD [OF t] by (simp_all add: poll_facts)
  have step: "rounds (Suc n) (clock w) (rx w) = (t, ?c) # rounds n (clock w2) (rx w2)" for n
    by (simp add: cl rx2 poll_facts)
  consider (more) "?c \<noteq> []" | (quiet) "?c = []" "gap \<le> t - l" | (wait) "?c = []" "\<not> gap \<le> t - l"
    by blast
  then show ?case
  proof cases
    case more
    then have "read_until_idle_loop gap w2 (buf @ ?c) t = Some (w', buf', l')"
      using "1.prems" t by (subst (asm) read_until_idle_loop.simps) simp
    from "1.IH"(1) [OF t refl more this] obtain n where n: "n > 0"
      "length (rounds n (clock w2) (rx w2)) = n"
      "buf' = (buf @ ?c) @ concat (map snd (rounds n (clock w2) (rx w2)))"
      "snd (last (rounds n (clock w2) (rx w2))) = []"
      "gap \<le> fst (last (rounds n (clock w2) (rx w2))) - l'"
      "l' = last_reception t (rounds n (clock w2) (rx w2))"
      "clock w' = drop n (clock w2)" "rx w' = drop n (rx w2)"
      by blast
    have ne: "rounds n (clock w2) (rx w2) \<noteq> []" using n(1,2) by auto
    show ?thesis
      apply (rule exI [of _ "Suc n"])
      unfolding step
      using n ne more by (simp add: last_reception_Cons cl rx2 drop_Suc)
  next
    case quiet
    then have "Some (w2, buf, l) = Some (w', buf', l')"
      using "1.prems" t by (subst (asm) read_until_idle_loop.simps) simp
    then show ?thesis
      apply (intro exI [of _ "Suc 0"])
      unfolding step
      using quiet cl rx2 by (auto simp add: last_reception_def drop_Suc)
  next
    case wait
    then have "read_until_idle_loop gap w2 buf l = Some (w', buf', l')"
      using "1.prems" t by (subst (asm) read_until_idle_loop.simps) simp
    from "1.IH"(2) [OF t refl _ _ this] wait obtain n where n: "n > 0"
      "length (rounds n (clock w2) (rx w2)) = n"
      "buf' = buf @ concat (map snd (rounds n (clock w2) (rx w2)))"
      "snd (last (rounds n (clock w2) (rx w2))) = []"
      "gap \<le> fst (last (rounds n (clock w2) (rx w2))) - l'"
      "l' = last_reception l (rounds n (clock w2) (rx w2))"
      "clock w' = drop n (clock w2)" "rx w' = drop n (rx w2)"
      by auto
    have ne: "rounds n (clock w2) (rx w2) \<noteq> []" using n(1,2) by auto
    show ?thesis
      apply (rule exI [of _ "Suc n"])
      unfolding step
      using n ne wait by (simp add: last_reception_Cons cl rx2 drop_Suc)
  qed
qed

lemma read_until_idle_rounds:
  "read_until_idle ser idle_gap = Some (ser', data) \<Longrightarrow>
   \<exists>n > 0. length (rounds n (tl (clock ser)) (rx ser)) = n \<and>
     data = concat (map snd (rounds n (tl (clock ser)) (rx ser))) \<and>
     snd (last (rounds n (tl (clock ser)) (rx ser))) = [] \<and>
     idle_gap \<le> fst (last (rounds n (tl (clock ser)) (rx ser)))
                  - last_reception (hd (clock ser)) (rounds n (tl (clock ser)) (rx ser)) \<and>
     rx ser' = drop n (rx ser)"
proof -
  assume r: "read_until_idle ser idle_gap = Some (ser', data)"
  then obtain t0 w0 l' where t0: "py_time ser = Some (t0, w0)"
    and loop: "read_until_idle_loop idle_gap w0 [] t0 = Some (ser', data, l')"
    by (auto simp: read_until_idle_def split: option.splits)
  from py_time_SomeD [OF t0] have c: "clock w0 = tl (clock ser)" "hd (clock ser) = t0" "rx w0 = rx ser"
    by simp_all
  from read_until_idle_loop_rounds [OF loop] show ?thesis
    unfolding c by auto
qed

text \<open>
  C4. A call of the idle read that returns has gone through some rounds \<open>1..n\<close> of looking
  at the input queue and reading the clock. The last round found nothing waiting, and its
  clock reading is at least \<open>idle_gap\<close> later than the reading of the last round that
  found bytes (than the reading taken on entry, when no round found any): the call
  returns only after that much silence. The bytes returned are the bytes found in all the
  rounds, in order. The same holds of \<^verbatim>\<open>read_until_quiet\<close> with the gap \<^verbatim>\<open>IDLE_GAP_SEC\<close>.
\<close>

theorem idle_read_waits_for_silence:
  "(read_until_idle ser idle_gap = Some (ser', data) \<longrightarrow>
    (\<exists>n > 0. length (rounds n (tl (clock ser)) (rx ser)) = n \<and>
      data = concat (map snd (rounds n (tl (clock ser)) (rx ser))) \<and>
      snd (last (rounds n (tl (clock ser)) (rx ser))) = [] \<and>
      idle_gap \<le> fst (last (rounds n (tl (clock ser)) (rx ser)))
                   - last_reception (hd (clock ser)) (rounds n (tl (clock ser)) (rx ser)) \<and>
      rx ser' = drop n (rx ser))) \<and>
   (read_until_quiet ser = Some (ser', data) \<longrightarrow>
    (\<exists>n > 0. length (rounds n (tl (clock ser)) (rx ser)) = n \<and>
      data = concat (map snd (rounds n (tl (clock ser)) (rx ser))) \<and>
      snd (last (rounds n (tl (clock ser)) (rx ser))) = [] \<and>
      IDLE_GAP_SEC \<le> fst (last (rounds n (tl (clock ser)) (rx ser)))
                   - last_reception (hd (clock ser)) (rounds n (tl (clock ser)) (rx ser)) \<and>
      rx ser' = drop n (rx ser)))"
  unfolding read_until_quiet_def
  by (intro conjI impI) (erule read_until_idle_rounds)+

theorem idle_read_waits_for_silence_witness:
  "read_until_idle \<lparr>clock = [0, 1/100, 5/100, 20/100, 36/100, 1], rx = [''OK'', ''>'', [], [], ''late''],
                    baudrate = 9600, tx = []\<rparr> (3/10)
     = Some (\<lparr>clock = [1], rx = [''late''], baudrate = 9600, tx = []\<rparr>, ''OK>'') \<and>
   read_until_quiet \<lparr>clock = [0, 1/100, 5/100, 20/100, 36/100, 1], rx = [''OK'', ''>'', [], [], ''late''],
                     baudrate = 9600, tx = []\<rparr>
     = Some (\<lparr>clock = [1], rx = [''late''], baudrate = 9600, tx = []\<rparr>, ''OK>'') \<and>
   (\<exists>n > 0. length (rounds n [1/100, 5/100, 20/100, 36/100, 1] [''OK'', ''>'', [], [], ''late'']) = n \<and>
     ''OK>'' = concat (map snd (rounds n [1/100, 5/100, 20/100, 36/100, 1] [''OK'', ''>'', [], [], ''late''])) \<and>
     snd (last (rounds n [1/100, 5/100, 20/100, 36/100, 1] [''OK'', ''>'', [], [], ''late''])) = [] \<and>
     3/10 \<le> fst (last (rounds n [1/100, 5/100, 20/100, 36/100, 1] [''OK'', ''>'', [], [], ''late'']))
                  - last_reception 0 (rounds n [1/100, 5/100, 20/100, 36/100, 1] [''OK'', ''>'', [], [], ''late'']) \<and>
     [''late''] = drop n [''OK'', ''>'', [], [], ''late''])"
proof -
  let ?ser = "\<lparr>clock = [0, 1/100, 5/100, 20/100, 36/100, 1], rx = [''OK'', ''>'', [], [], ''late''],
                    baudrate = 9600, tx = []\<rparr>"
  let ?ser' = "\<lparr>clock = [1], rx = [''late''], baudrate = 9600, tx = []\<rparr>"
  have r: "read_until_idle ?ser (3/10) = Some (?ser', ''OK>'')"
    by (simp add: read_until_idle_def read_until_idle_loop.simps world_ops)
  then have q: "read_until_quiet ?ser = Some (?ser', ''OK>'')"
    by (simp add: read_until_quiet_def IDLE_GAP_SEC_def)
  from idle_read_waits_for_silence [of ?ser "3/10" ?ser' "''OK>''"] r
  have "\<exists>n > 0. length (rounds n (tl (clock ?ser)) (rx ?ser)) = n \<and>
      ''OK>'' = concat (map snd (rounds n (tl (clock ?ser)) (rx ?ser))) \<and>
      snd (last (rounds n (tl (clock ?ser)) (rx ?ser))) = [] \<and>
      3/10 \<le> fst (last (rounds n (tl (clock ?ser)) (rx ?ser)))
                   - last_reception (hd (clock ?ser)) (rounds n (tl (clock ?ser)) (rx ?ser)) \<and>
      rx ?ser' = drop n (rx ?ser)"
    by blast
  with r q show ?thesis by simp
qed

section \<open>Facts about the two phases of the live speed switch\<close>

lemma phase1_ok_facts:
  assumes "phase1_ok w s = Some (w2, s2)"
  shows "baudrate w2 = baudrate w" "tx w2 = tx w" "rx w2 = rx w"
    "\<exists>pre. clock w = pre @ clock w2"
    "buf_old s2 = buf_old s" "cr1_time s2 = cr1_time s"
  using assms
  by (auto simp: phase1_ok_def split: if_splits option.splits dest!: py_time_SomeD)

lemma phase1_cr_facts:
  assumes "phase1_cr w s = Some (w3, s3, left)"
  shows "baudrate w3 = baudrate w" "tx w3 = tx w" "rx w3 = rx w"
    "\<exists>pre. clock w = pre @ clock w3"
    "buf_old s3 = buf_old s" "ok_time s3 = ok_time s" "ok_pos_end s3 = ok_pos_end s"
    "left \<Longrightarrow> cr1_time s3 \<noteq> None" "\<not> left \<Longrightarrow> s3 = s \<and> w3 = w"
  using assms
  by (auto simp: phase1_cr_def split: if_splits option.splits dest!: py_time_SomeD)

lemma phase1_ok_inv:
  assumes inv: "phase1_inv s" and ok: "phase1_ok w (s\<lparr>buf_old := buf_old s @ c\<rparr>) = Some (w2, s2)"
    and cr: "phase1_cr w2 s2 = Some (w3, s3, left)"
  shows "phase1_inv s3" 
proof (cases "ok_time s")
  case None
  with inv have c1: "cr1_time s = None" by (simp add: phase1_inv_def)
  show ?thesis
  proof (cases "py_find (buf_old s @ c) ''OK'' 0")
    case n: None
    with None ok have "s2 = s\<lparr>buf_old := buf_old s @ c\<rparr>" "w2 = w"
      by (auto simp: phase1_ok_def)
    with cr None have "s3 = s2" by (auto simp: phase1_cr_def)
    with \<open>s2 = _\<close> None n c1 show ?thesis by (simp add: phase1_inv_def)
  next
    case (Some p)
    with None ok obtain t where s2: "s2 = s\<lparr>buf_old := buf_old s @ c, ok_time := Some t, ok_pos_end := p + 2\<rparr>"
      by (auto simp: phase1_ok_def split: option.splits)
    show ?thesis
      using cr s2 Some c1
      by (auto simp: phase1_cr_def phase1_inv_def split: option.splits if_splits)
  qed
next
  case (Some t)
  with inv obtain p where p: "py_find (buf_old s) ''OK'' 0 = Some p" "ok_pos_end s = p + 2"
    "(cr1_time s = None) = (py_find (buf_old s) [CHR 0x0D] (p + 2) = None)"
    by (auto simp: phase1_inv_def split: option.splits)
  from Some ok have s2: "s2 = s\<lparr>buf_old := buf_old s @ c\<rparr>" by (auto simp: phase1_ok_def)
  have p': "py_find (buf_old s @ c) ''OK'' 0 = Some p" using p(1) by (rule find_append_stable)
  show ?thesis
  proof (cases "cr1_time s")
    case None
    then show ?thesis
      using cr s2 Some p p'
      by (auto simp: phase1_cr_def phase1_inv_def split: option.splits if_splits)
  next
    case c: (Some t1)
    with p(3) obtain q where "py_find (buf_old s) [CHR 0x0D] (p + 2) = Some q" by auto
    then have "py_find (buf_old s @ c) [CHR 0x0D] (p + 2) = Some q" by (rule find_append_stable)
    then show ?thesis
      using cr s2 Some p p' c
      by (auto simp: phase1_cr_def phase1_inv_def split: option.splits if_splits)
  qed
qed

lemma phase1_result:
  "phase1 d w s = Some (w', s') \<Longrightarrow> phase1_inv s \<Longrightarrow> cr1_time s = None \<Longrightarrow>
   phase1_inv s' \<and> baudrate w' = baudrate w \<and> tx w' = tx w \<and>
   (cr1_time s' = None \<longrightarrow> (\<exists>pre now. clock w = pre @ now # clock w' \<and> d \<le> now))"
proof (induction d w s rule: phase1.induct)
  case (1 d w s)
  from "1.prems"(1) obtain now w1 where t: "py_time w = Some (now, w1)"
    by (subst (asm) phase1.simps) (auto split: option.splits)
  note tw = py_time_SomeD [OF t]
  consider (timeout) "d \<le> now" | (idle) "\<not> d \<le> now" "fst (poll w1) = []"
    | (chunk) "\<not> d \<le> now" "fst (poll w1) \<noteq> []" by blast
  then show ?case
  proof cases
    case timeout
    with "1.prems"(1) t have "w' = w1" "s' = s" by (subst (asm) phase1.simps, simp)+
    with "1.prems" tw timeout show ?thesis by (auto intro: exI [of _ "[]"])
  next
    case idle
    with "1.prems"(1) t have r: "phase1 d (snd (poll w1)) s = Some (w', s')"
      by (subst (asm) phase1.simps) simp
    from "1.IH"(1) [OF t refl idle r "1.prems"(2,3)] 
    show ?thesis using tw by (auto simp: poll_facts intro: exI [of _ "_ # _"]) 
  next
    case chunk
    let ?s = "s\<lparr>buf_old := buf_old s @ fst (poll w1)\<rparr>"
    from chunk "1.prems"(1) t obtain w2 s2 w3 s3 left where
      ok: "phase1_ok (snd (poll w1)) ?s = Some (w2, s2)" and cr: "phase1_cr w2 s2 = Some (w3, s3, left)"
      and r: "if left then w' = w3 \<and> s' = s3 else phase1 d w3 s3 = Some (w', s')"
      by (subst (asm) phase1.simps) (auto split: option.splits if_splits)
    have inv3: "phase1_inv s3" using "1.prems"(2) ok cr by (rule phase1_ok_inv)
    note fo = phase1_ok_facts [OF ok] and fc = phase1_cr_facts [OF cr]
    show ?thesis
    proof (cases left)
      case True
      with r fc(8) have "cr1_time s' \<noteq> None" "w' = w3" "s' = s3" by auto
      with inv3 fo(1,2) fc(1,2) show ?thesis by (auto simp: poll_facts tw)
    next
      case False
      with r have r': "phase1 d w3 s3 = Some (w', s')" by simp
      have c3: "cr1_time s3 = None" using fc(9) [OF False] fo(6) "1.prems"(3) by simp
      from "1.IH"(2) [OF t refl chunk ok refl cr refl refl False r' inv3 c3]
      have ih: "phase1_inv s'" "baudrate w' = baudrate w3" "tx w' = tx w3"
        "cr1_time s' = None \<longrightarrow> (\<exists>pre now. clock w3 = pre @ now # clock w' \<and> d \<le> now)"
        by auto
      from fo(4) fc(4) tw obtain pre where pre: "clock w = pre @ clock w3"
        by (auto simp: poll_facts)
      have "cr1_time s' = None \<longrightarrow> (\<exists>pre now. clock w = pre @ now # clock w' \<and> d \<le> now)"
        using ih(4) pre by (metis append_assoc)
      with ih fo fc tw show ?thesis by (simp add: poll_facts)
    qed
  qed
qed

section \<open>Facts about the loop with two markers\<close>

lemma t12_ok_facts:
  assumes "t12_ok w s = Some (w2, s2)"
  shows "baudrate w2 = baudrate w" "tx w2 = tx w" "rx w2 = rx w"
    "\<exists>pre. clock w = pre @ clock w2"
    "t12_buf s2 = t12_buf s" "t12_prompt_time s2 = t12_prompt_time s"
  using assms
  by (auto simp: t12_ok_def split: if_splits option.splits dest!: py_time_SomeD)

lemma t12_prompt_facts:
  assumes "t12_prompt w s = Some (w3, s3, left)"
  shows "baudrate w3 = baudrate w" "tx w3 = tx w" "rx w3 = rx w"
    "\<exists>pre. clock w = pre @ clock w3"
    "t12_buf s3 = t12_buf s" "t12_ok_time s3 = t12_ok_time s" "prompt_search_from s3 = prompt_search_from s"
    "left \<Longrightarrow> t12_prompt_time s3 \<noteq> None" "\<not> left \<Longrightarrow> s3 = s \<and> w3 = w"
  using assms
  by (auto simp: t12_prompt_def split: if_splits option.splits dest!: py_time_SomeD)

lemma t12_ok_inv:
  assumes inv: "t12_inv s" and ok: "t12_ok w (s\<lparr>t12_buf := t12_buf s @ c\<rparr>) = Some (w2, s2)"
    and cr: "t12_prompt w2 s2 = Some (w3, s3, left)"
  shows "t12_inv s3"
proof -
  have z: "ok_search_from s = 0" using inv by (simp add: t12_inv_def)
  show ?thesis
  proof (cases "t12_ok_time s")
  case None
  with inv have c1: "t12_prompt_time s = None" by (simp add: z t12_inv_def)
  show ?thesis
  proof (cases "py_find (t12_buf s @ c) ''OK'' 0")
    case n: None
    with None ok have "s2 = s\<lparr>t12_buf := t12_buf s @ c\<rparr>" "w2 = w"
      by (auto simp: z t12_ok_def)
    with cr None have "s3 = s2" by (auto simp: t12_prompt_def)
    with \<open>s2 = _\<close> None n c1 show ?thesis by (simp add: z t12_inv_def)
  next
    case (Some p)
    with None ok obtain t where s2: "s2 = s\<lparr>t12_buf := t12_buf s @ c, t12_ok_time := Some t, prompt_search_from := p + 2\<rparr>"
      by (auto simp: z t12_ok_def split: option.splits)
    show ?thesis
      using cr s2 Some c1
      by (auto simp: z t12_prompt_def t12_inv_def split: option.splits if_splits)
  qed
next
  case (Some t)
  with inv obtain p where p: "py_find (t12_buf s) ''OK'' 0 = Some p" "prompt_search_from s = p + 2"
    "(t12_prompt_time s = None) = (py_find (t12_buf s) ''>'' (p + 2) = None)"
    by (auto simp: t12_inv_def split: option.splits)
  from Some ok have s2: "s2 = s\<lparr>t12_buf := t12_buf s @ c\<rparr>" by (auto simp: z t12_ok_def)
  have p': "py_find (t12_buf s @ c) ''OK'' 0 = Some p" using p(1) by (rule find_append_stable)
  show ?thesis
  proof (cases "t12_prompt_time s")
    case None
    then show ?thesis
      using cr s2 Some p p'
      by (auto simp: z t12_prompt_def t12_inv_def split: option.splits if_splits)
  next
    case c: (Some t1)
    with p(3) obtain q where "py_find (t12_buf s) ''>'' (p + 2) = Some q" by auto
    then have "py_find (t12_buf s @ c) ''>'' (p + 2) = Some q" by (rule find_append_stable)
    then show ?thesis
      using cr s2 Some p p' c
      by (auto simp: z t12_prompt_def t12_inv_def split: option.splits if_splits)
  qed
qed
qed

lemma t12_result:
  "read_stsbr_t1_t2_loop d w s = Some (w', s') \<Longrightarrow> t12_inv s \<Longrightarrow> t12_prompt_time s = None \<Longrightarrow>
   t12_inv s' \<and> baudrate w' = baudrate w \<and> tx w' = tx w \<and>
   (t12_prompt_time s' = None \<longrightarrow> (\<exists>pre now. clock w = pre @ now # clock w' \<and> d \<le> now))"
proof (induction d w s rule: read_stsbr_t1_t2_loop.induct)
  case (1 d w s)
  from "1.prems"(1) obtain now w1 where t: "py_time w = Some (now, w1)"
    by (subst (asm) read_stsbr_t1_t2_loop.simps) (auto split: option.splits)
  note tw = py_time_SomeD [OF t]
  consider (timeout) "d \<le> now" | (idle) "\<not> d \<le> now" "fst (poll w1) = []"
    | (chunk) "\<not> d \<le> now" "fst (poll w1) \<noteq> []" by blast
  then show ?case
  proof cases
    case timeout
    with "1.prems"(1) t have "w' = w1" "s' = s" by (subst (asm) read_stsbr_t1_t2_loop.simps, simp)+
    with "1.prems" tw timeout show ?thesis by (auto intro: exI [of _ "[]"])
  next
    case idle
    with "1.prems"(1) t have r: "read_stsbr_t1_t2_loop d (snd (poll w1)) s = Some (w', s')"
      by (subst (asm) read_stsbr_t1_t2_loop.simps) simp
    from "1.IH"(1) [OF t refl idle r "1.prems"(2,3)] 
    show ?thesis using tw by (auto simp: poll_facts intro: exI [of _ "_ # _"]) 
  next
    case chunk
    let ?s = "s\<lparr>t12_buf := t12_buf s @ fst (poll w1)\<rparr>"
    from chunk "1.prems"(1) t obtain w2 s2 w3 s3 left where
      ok: "t12_ok (snd (poll w1)) ?s = Some (w2, s2)" and cr: "t12_prompt w2 s2 = Some (w3, s3, left)"
      and r: "if left then w' = w3 \<and> s' = s3 else read_stsbr_t1_t2_loop d w3 s3 = Some (w', s')"
      by (subst (asm) read_stsbr_t1_t2_loop.simps) (auto split: option.splits if_splits)
    have inv3: "t12_inv s3" using "1.prems"(2) ok cr by (rule t12_ok_inv)
    note fo = t12_ok_facts [OF ok] and fc = t12_prompt_facts [OF cr]
    show ?thesis
    proof (cases left)
      case True
      with r fc(8) have "t12_prompt_time s' \<noteq> None" "w' = w3" "s' = s3" by auto
      with inv3 fo(1,2) fc(1,2) show ?thesis by (auto simp: poll_facts tw)
    next
      case False
      with r have r': "read_stsbr_t1_t2_loop d w3 s3 = Some (w', s')" by simp
      have c3: "t12_prompt_time s3 = None" using fc(9) [OF False] fo(6) "1.prems"(3) by simp
      from "1.IH"(2) [OF t refl chunk ok refl cr refl refl False r' inv3 c3]
      have ih: "t12_inv s'" "baudrate w' = baudrate w3" "tx w' = tx w3"
        "t12_prompt_time s' = None \<longrightarrow> (\<exists>pre now. clock w3 = pre @ now # clock w' \<and> d \<le> now)"
        by auto
      from fo(4) fc(4) tw obtain pre where pre: "clock w = pre @ clock w3"
        by (auto simp: poll_facts)
      have "t12_prompt_time s' = None \<longrightarrow> (\<exists>pre now. clock w = pre @ now # clock w' \<and> d \<le> now)"
        using ih(4) pre by (metis append_assoc)
      with ih fo fc tw show ?thesis by (simp add: poll_facts)
    qed
  qed
qed

lemma phase1_init_inv: "phase1_inv phase1_init" "cr1_time phase1_init = None"
  by (simp_all add: phase1_inv_def phase1_init_def py_find_def)

lemma t12_init_inv: "t12_inv t12_init" "t12_prompt_time t12_init = None"
  by (simp_all add: t12_inv_def t12_init_def py_find_def)

lemma phase2_frame:
  "phase2 d w b = Some (w', r) \<Longrightarrow> baudrate w' = baudrate w \<and> tx w' = tx w"
proof (induction d w b rule: phase2.induct)
  case (1 d w b)
  from "1.prems" obtain now w1 where t: "py_time w = Some (now, w1)"
    by (subst (asm) phase2.simps) (auto split: option.splits)
  note tw = py_time_SomeD [OF t]
  show ?case
    using "1.prems" "1.IH"(1) [OF t refl] "1.IH"(2) [OF t refl] t tw
    by (subst (asm) phase2.simps)
       (auto split: if_splits option.splits simp: poll_facts dest!: py_time_SomeD)
qed

lemma phase2_expired:
  "py_time w = Some (now, w1) \<Longrightarrow> d \<le> now \<Longrightarrow> phase2 d w b = Some (w1, b, None)"
  by (subst phase2.simps) simp

lemma switch_baud_facts:
  "cr1_time s = None \<Longrightarrow> switch_baud w s nb = w"
  "tx (switch_baud w s nb) = tx w"
  "cr1_time s \<noteq> None \<Longrightarrow> 0 \<le> nb \<Longrightarrow> baudrate (switch_baud w s nb) = nb"
  "baudrate (switch_baud w s nb) \<noteq> baudrate w \<Longrightarrow> cr1_time s \<noteq> None \<and> baudrate (switch_baud w s nb) = nb"
  by (auto simp: switch_baud_def set_baudrate_def reset_input_buffer_def split: if_splits)

lemma phase1_marker:
  assumes "phase1_inv s" "cr1_time s \<noteq> None"
  shows "\<exists>p q. py_find (buf_old s) ''OK'' 0 = Some p \<and> ok_pos_end s = p + 2 \<and>
           py_find (buf_old s) [CHR 0x0D] (p + 2) = Some q \<and> p + 2 \<le> q"
proof -
  from assms obtain p q where "py_find (buf_old s) ''OK'' 0 = Some p" "ok_pos_end s = p + 2"
    "py_find (buf_old s) [CHR 0x0D] (p + 2) = Some q"
    by (auto simp: phase1_inv_def split: option.splits)
  moreover from this(3) have "p + 2 \<le> q" by (simp add: find_Some_iff)
  ultimately show ?thesis by blast
qed

lemma t12_marker:
  assumes "t12_inv s" "t12_prompt_time s \<noteq> None"
  shows "\<exists>p q. py_find (t12_buf s) ''OK'' 0 = Some p \<and> prompt_search_from s = p + 2 \<and>
           py_find (t12_buf s) ''>'' (p + 2) = Some q \<and> p + 2 \<le> q"
proof -
  from assms obtain p q where "py_find (t12_buf s) ''OK'' 0 = Some p" "prompt_search_from s = p + 2"
    "py_find (t12_buf s) ''>'' (p + 2) = Some q"
    by (auto simp: t12_inv_def split: option.splits)
  moreover from this(3) have "p + 2 \<le> q" by (simp add: find_Some_iff)
  ultimately show ?thesis by blast
qed

lemma find_after_complete:
  assumes a: "occurs_at A buf i" and b: "occurs_at B buf j" and ij: "i + length A \<le> j"
  shows "\<exists>p q. py_find buf A 0 = Some p \<and> py_find buf B (p + length A) = Some q \<and>
           p \<le> i \<and> (\<forall>k < p. \<not> occurs_at A buf k) \<and> occurs_at A buf p \<and>
           p + length A \<le> q \<and> q \<le> j \<and> occurs_at B buf q"
proof -
  obtain p where p: "py_find buf A 0 = Some p"
    using a by (cases "py_find buf A 0") (auto simp: find_None_iff)
  then have p': "occurs_at A buf p" "\<forall>k < p. \<not> occurs_at A buf k"
    by (simp_all add: find_Some_iff)
  have pi: "p \<le> i" using p'(2) a by (meson not_le)
  obtain q where q: "py_find buf B (p + length A) = Some q"
    using b pi ij by (cases "py_find buf B (p + length A)") (auto simp: find_None_iff)
  then have q': "p + length A \<le> q" "occurs_at B buf q"
    "\<forall>k. p + length A \<le> k \<and> k < q \<longrightarrow> \<not> occurs_at B buf k"
    by (simp_all add: find_Some_iff)
  have "q \<le> j" using q'(3) b pi ij by (meson add_le_mono1 le_trans not_le)
  with p q p' q' pi show ?thesis by blast
qed

lemma two_stage_search:
  assumes n: "ok = None \<Longrightarrow> py_find buf A 0 = None \<and> mk = None"
    and s: "ok \<noteq> None \<Longrightarrow> \<exists>p. py_find buf A 0 = Some p \<and> start = p + length A \<and>
                (mk = None) = (py_find buf B (p + length A) = None)"
  shows "(ok \<noteq> None) = (\<exists>i. occurs_at A buf i)"
    and "(mk \<noteq> None) = (\<exists>i j. occurs_at A buf i \<and> occurs_at B buf j \<and> i + length A \<le> j)"
    and "occurs_at A buf i \<Longrightarrow>
           \<exists>p. p \<le> i \<and> occurs_at A buf p \<and> (\<forall>k < p. \<not> occurs_at A buf k) \<and> start = p + length A \<and>
             (\<forall>j. occurs_at B buf j \<longrightarrow> i + length A \<le> j \<longrightarrow>
                (\<exists>q. py_find buf B start = Some q \<and> p + length A \<le> q \<and> q \<le> j \<and> occurs_at B buf q))"
proof -
  show a: "(ok \<noteq> None) = (\<exists>i. occurs_at A buf i)"
  proof (cases ok)
    case None
    with n have "py_find buf A 0 = None" by simp
    then show ?thesis using None by (simp add: find_None_iff)
  next
    case (Some t)
    with s obtain p where "py_find buf A 0 = Some p" by auto
    then have "occurs_at A buf p" by (simp add: find_Some_iff)
    then show ?thesis using Some by auto
  qed
  show c: "\<exists>p. p \<le> i \<and> occurs_at A buf p \<and> (\<forall>k < p. \<not> occurs_at A buf k) \<and> start = p + length A \<and>
             (\<forall>j. occurs_at B buf j \<longrightarrow> i + length A \<le> j \<longrightarrow>
                (\<exists>q. py_find buf B start = Some q \<and> p + length A \<le> q \<and> q \<le> j \<and> occurs_at B buf q))"
    if i: "occurs_at A buf i" for i
  proof -
    from i a have "ok \<noteq> None" by blast
    with s obtain p where p: "py_find buf A 0 = Some p" and st: "start = p + length A" by auto
    have fin: "\<exists>q. py_find buf B start = Some q \<and> p + length A \<le> q \<and> q \<le> j \<and> occurs_at B buf q"
      if "occurs_at B buf j" "i + length A \<le> j" for j
      using find_after_complete [OF i that] p st by auto
    from p have "occurs_at A buf p" "\<forall>k < p. \<not> occurs_at A buf k" by (simp_all add: find_Some_iff)
    moreover from this(2) i have "p \<le> i" by (meson not_le)
    ultimately show ?thesis using st fin by blast
  qed
  show "(mk \<noteq> None) = (\<exists>i j. occurs_at A buf i \<and> occurs_at B buf j \<and> i + length A \<le> j)"
  proof
    assume m: "mk \<noteq> None"
    with n have "ok \<noteq> None" by auto
    with s obtain p where p: "py_find buf A 0 = Some p" 
      and e: "(mk = None) = (py_find buf B (p + length A) = None)" by auto
    from e m obtain q where q: "py_find buf B (p + length A) = Some q" by auto
    from p q have "occurs_at A buf p" "occurs_at B buf q" "p + length A \<le> q"
      by (simp_all add: find_Some_iff)
    then show "\<exists>i j. occurs_at A buf i \<and> occurs_at B buf j \<and> i + length A \<le> j" by blast
  next
    assume "\<exists>i j. occurs_at A buf i \<and> occurs_at B buf j \<and> i + length A \<le> j"
    then obtain i j where i: "occurs_at A buf i" and j: "occurs_at B buf j" "i + length A \<le> j" by blast
    from i a have o: "ok \<noteq> None" by blast
    with s obtain p where p: "py_find buf A 0 = Some p" 
      and e: "(mk = None) = (py_find buf B (p + length A) = None)" by auto
    from find_after_complete [OF i j] p have "py_find buf B (p + length A) \<noteq> None" by auto
    with e show "mk \<noteq> None" by simp
  qed
qed

lemma t12_anchor:
  assumes "t12_inv s"
  shows "t12_ok_time s = None \<Longrightarrow> py_find (t12_buf s) ''OK'' 0 = None \<and> t12_prompt_time s = None"
    and "t12_ok_time s \<noteq> None \<Longrightarrow> \<exists>p. py_find (t12_buf s) ''OK'' 0 = Some p \<and>
           prompt_search_from s = p + length ''OK'' \<and>
           (t12_prompt_time s = None) = (py_find (t12_buf s) ''>'' (p + length ''OK'') = None)"
  using assms by (auto simp: t12_inv_def split: option.splits)

lemma phase1_anchor:
  assumes "phase1_inv s"
  shows "ok_time s = None \<Longrightarrow> py_find (buf_old s) ''OK'' 0 = None \<and> cr1_time s = None"
    and "ok_time s \<noteq> None \<Longrightarrow> \<exists>p. py_find (buf_old s) ''OK'' 0 = Some p \<and>
           ok_pos_end s = p + length ''OK'' \<and>
           (cr1_time s = None) = (py_find (buf_old s) [CHR 0x0D] (p + length ''OK'') = None)"
  using assms by (auto simp: phase1_inv_def split: option.splits)

lemma phase1_clock:
  "phase1 d w s = Some (w', s') \<Longrightarrow> \<exists>pre. clock w = pre @ clock w'"
proof (induction d w s rule: phase1.induct)
  case (1 d w s)
  from "1.prems"(1) obtain now w1 where t: "py_time w = Some (now, w1)"
    by (subst (asm) phase1.simps) (auto split: option.splits)
  note tw = py_time_SomeD [OF t]
  consider (timeout) "d \<le> now" | (idle) "\<not> d \<le> now" "fst (poll w1) = []"
    | (chunk) "\<not> d \<le> now" "fst (poll w1) \<noteq> []" by blast
  then show ?case
  proof cases
    case timeout
    with "1.prems"(1) t have "w' = w1" by (subst (asm) phase1.simps, simp)
    with tw show ?thesis by (auto intro: exI [of _ "[now]"])
  next
    case idle
    with "1.prems"(1) t have r: "phase1 d (snd (poll w1)) s = Some (w', s')"
      by (subst (asm) phase1.simps) simp
    from "1.IH"(1) [OF t refl idle r] obtain pre where "clock w1 = pre @ clock w'"
      by (auto simp: poll_facts)
    with tw have "clock w = (now # pre) @ clock w'" by simp
    then show ?thesis by blast
  next
    case chunk
    let ?s = "s\<lparr>buf_old := buf_old s @ fst (poll w1)\<rparr>"
    from chunk "1.prems"(1) t obtain w2 s2 w3 s3 left where
      ok: "phase1_ok (snd (poll w1)) ?s = Some (w2, s2)" and cr: "phase1_cr w2 s2 = Some (w3, s3, left)"
      and r: "if left then w' = w3 \<and> s' = s3 else phase1 d w3 s3 = Some (w', s')"
      by (subst (asm) phase1.simps) (auto split: option.splits if_splits)
    note fo = phase1_ok_facts [OF ok] and fc = phase1_cr_facts [OF cr]
    from fo(4) fc(4) tw obtain pre where pre: "clock w = pre @ clock w3"
      by (auto simp: poll_facts)
    show ?thesis
    proof (cases left)
      case True
      with r pre show ?thesis by auto
    next
      case False
      with r have r': "phase1 d w3 s3 = Some (w', s')" by simp
      from "1.IH"(2) [OF t refl chunk ok refl cr refl refl False r']
      obtain pre' where "clock w3 = pre' @ clock w'" by blast
      with pre have "clock w = (pre @ pre') @ clock w'" by simp
      then show ?thesis by blast
    qed
  qed
qed

lemma phase2_deadline:
  "phase2 d w b = Some (w', b', None) \<Longrightarrow> \<exists>pre now. clock w = pre @ now # clock w' \<and> d \<le> now"
proof (induction d w b rule: phase2.induct)
  case (1 d w b)
  from "1.prems" obtain now w1 where t: "py_time w = Some (now, w1)"
    by (subst (asm) phase2.simps) (auto split: option.splits)
  note tw = py_time_SomeD [OF t]
  consider (timeout) "d \<le> now" | (idle) "\<not> d \<le> now" "fst (poll w1) = []"
    | (chunk) "\<not> d \<le> now" "fst (poll w1) \<noteq> []" by blast
  then show ?case
  proof cases
    case timeout
    with "1.prems"(1) t have "w' = w1" by (subst (asm) phase2.simps, simp)
    with tw timeout show ?thesis by (auto intro: exI [of _ "[]"])
  next
    case idle
    with "1.prems"(1) t have r: "phase2 d (snd (poll w1)) b = Some (w', b', None)"
      by (subst (asm) phase2.simps) simp
    from "1.IH"(1) [OF t refl idle r] obtain pre n where "clock w1 = pre @ n # clock w'" "d \<le> n"
      by (auto simp: poll_facts)
    with tw have "clock w = (now # pre) @ n # clock w'" "d \<le> n" by simp_all
    then show ?thesis by blast
  next
    case chunk
    with "1.prems"(1) t have nc: "\<not> contains (b @ fst (poll w1)) ''>''"
      and r: "phase2 d (snd (poll w1)) (b @ fst (poll w1)) = Some (w', b', None)"
      by (subst (asm) phase2.simps, auto split: option.splits if_splits)+
    from "1.IH"(2) [OF t refl chunk nc r] obtain pre n where "clock w1 = pre @ n # clock w'" "d \<le> n"
      by (auto simp: poll_facts)
    with tw have "clock w = (now # pre) @ n # clock w'" "d \<le> n" by simp_all
    then show ?thesis by blast
  qed
qed

lemma switch_baud_clock: "clock (switch_baud w s nb) = clock w"
  by (auto simp: switch_baud_def set_baudrate_def reset_input_buffer_def)

lemmas eval_phase = phase1.simps phase2.simps read_stsbr_t1_t2_loop.simps world_ops phase1_ok_def phase1_cr_def
  t12_ok_def t12_prompt_def py_find_def phase1_init_def t12_init_def contains_def switch_baud_def set_baudrate_def
  read_stsbr_with_baud_switch_def read_stsbr_t1_t2_def

text \<open>
  C1 (as amended). The two loops that search a growing buffer for a marker \<open>A\<close> and then
  for a marker \<open>B\<close> after it (\<^verbatim>\<open>read_stsbr_t1_t2\<close> with \<^verbatim>\<open>OK\<close> and the prompt, phase 1 of
  \<^verbatim>\<open>read_stsbr_with_baud_switch\<close> with \<^verbatim>\<open>OK\<close> and CR), measured on the buffer they return:
  \<^item> the time of \<open>A\<close> is stamped exactly when \<open>A\<close> occurs in the buffer;
  \<^item> the time of \<open>B\<close> is stamped exactly when the buffer holds an \<open>A\<close> and a \<open>B\<close> that
    starts at or after the end of that \<open>A\<close>;
  \<^item> whenever \<open>A\<close> occurs at some \<open>i\<close>, the index from which \<open>B\<close> is searched
    (\<^verbatim>\<open>prompt_search_from\<close>, \<^verbatim>\<open>ok_pos_end\<close>) is the end offset \<open>p + length A\<close> of the first
    occurrence \<open>p\<close> of \<open>A\<close>, never of a later one, and whenever \<open>B\<close> occurs at some \<open>j\<close> at
    or after the end of the \<open>A\<close> at \<open>i\<close>, the search for \<open>B\<close> from that index succeeds, at a
    position \<open>q\<close> that is at or after the end offset of the first \<open>A\<close>: \<open>B\<close> lies wholly after
    the last byte of \<open>A\<close>, and may start right at the end offset.
\<close>

theorem anchored_search_first_occurrence:
  "(read_stsbr_t1_t2_loop d w t12_init = Some (w', s) \<longrightarrow>
      (t12_ok_time s \<noteq> None) = (\<exists>i. occurs_at ''OK'' (t12_buf s) i) \<and>
      (t12_prompt_time s \<noteq> None) =
         (\<exists>i j. occurs_at ''OK'' (t12_buf s) i \<and> occurs_at ''>'' (t12_buf s) j \<and> i + length ''OK'' \<le> j) \<and>
      (\<forall>i. occurs_at ''OK'' (t12_buf s) i \<longrightarrow>
         (\<exists>p. p \<le> i \<and> occurs_at ''OK'' (t12_buf s) p \<and> (\<forall>k < p. \<not> occurs_at ''OK'' (t12_buf s) k) \<and>
              prompt_search_from s = p + length ''OK'' \<and>
              (\<forall>j. occurs_at ''>'' (t12_buf s) j \<longrightarrow> i + length ''OK'' \<le> j \<longrightarrow>
                 (\<exists>q. py_find (t12_buf s) ''>'' (prompt_search_from s) = Some q \<and>
                      p + length ''OK'' \<le> q \<and> q \<le> j \<and> occurs_at ''>'' (t12_buf s) q))))) \<and>
   (phase1 d w phase1_init = Some (w', s1) \<longrightarrow>
      (ok_time s1 \<noteq> None) = (\<exists>i. occurs_at ''OK'' (buf_old s1) i) \<and>
      (cr1_time s1 \<noteq> None) =
         (\<exists>i j. occurs_at ''OK'' (buf_old s1) i \<and> occurs_at [CHR 0x0D] (buf_old s1) j \<and> i + length ''OK'' \<le> j) \<and>
      (\<forall>i. occurs_at ''OK'' (buf_old s1) i \<longrightarrow>
         (\<exists>p. p \<le> i \<and> occurs_at ''OK'' (buf_old s1) p \<and> (\<forall>k < p. \<not> occurs_at ''OK'' (buf_old s1) k) \<and>
              ok_pos_end s1 = p + length ''OK'' \<and>
              (\<forall>j. occurs_at [CHR 0x0D] (buf_old s1) j \<longrightarrow> i + length ''OK'' \<le> j \<longrightarrow>
                 (\<exists>q. py_find (buf_old s1) [CHR 0x0D] (ok_pos_end s1) = Some q \<and>
                      p + length ''OK'' \<le> q \<and> q \<le> j \<and> occurs_at [CHR 0x0D] (buf_old s1) q)))))"
proof (intro conjI impI)
  assume r: "read_stsbr_t1_t2_loop d w t12_init = Some (w', s)"
  from t12_result [OF r t12_init_inv] have inv: "t12_inv s" by simp
  note a = two_stage_search [where ok = "t12_ok_time s" and mk = "t12_prompt_time s" and buf = "t12_buf s"
      and A = "''OK''" and B = "''>''" and start = "prompt_search_from s", OF t12_anchor [OF inv]]
  show "(t12_ok_time s \<noteq> None) = (\<exists>i. occurs_at ''OK'' (t12_buf s) i)" by (rule a(1))
  show "(t12_prompt_time s \<noteq> None) =
         (\<exists>i j. occurs_at ''OK'' (t12_buf s) i \<and> occurs_at ''>'' (t12_buf s) j \<and> i + length ''OK'' \<le> j)"
    by (rule a(2))
  show "\<forall>i. occurs_at ''OK'' (t12_buf s) i \<longrightarrow>
         (\<exists>p. p \<le> i \<and> occurs_at ''OK'' (t12_buf s) p \<and> (\<forall>k < p. \<not> occurs_at ''OK'' (t12_buf s) k) \<and>
              prompt_search_from s = p + length ''OK'' \<and>
              (\<forall>j. occurs_at ''>'' (t12_buf s) j \<longrightarrow> i + length ''OK'' \<le> j \<longrightarrow>
                 (\<exists>q. py_find (t12_buf s) ''>'' (prompt_search_from s) = Some q \<and>
                      p + length ''OK'' \<le> q \<and> q \<le> j \<and> occurs_at ''>'' (t12_buf s) q)))"
    using a(3) by blast
next
  assume r: "phase1 d w phase1_init = Some (w', s1)"
  from phase1_result [OF r phase1_init_inv] have inv: "phase1_inv s1" by simp
  note a = two_stage_search [where ok = "ok_time s1" and mk = "cr1_time s1" and buf = "buf_old s1"
      and A = "''OK''" and B = "[CHR 0x0D]" and start = "ok_pos_end s1", OF phase1_anchor [OF inv]]
  show "(ok_time s1 \<noteq> None) = (\<exists>i. occurs_at ''OK'' (buf_old s1) i)" by (rule a(1))
  show "(cr1_time s1 \<noteq> None) =
         (\<exists>i j. occurs_at ''OK'' (buf_old s1) i \<and> occurs_at [CHR 0x0D] (buf_old s1) j \<and> i + length ''OK'' \<le> j)"
    by (rule a(2))
  show "\<forall>i. occurs_at ''OK'' (buf_old s1) i \<longrightarrow>
         (\<exists>p. p \<le> i \<and> occurs_at ''OK'' (buf_old s1) p \<and> (\<forall>k < p. \<not> occurs_at ''OK'' (buf_old s1) k) \<and>
              ok_pos_end s1 = p + length ''OK'' \<and>
              (\<forall>j. occurs_at [CHR 0x0D] (buf_old s1) j \<longrightarrow> i + length ''OK'' \<le> j \<longrightarrow>
                 (\<exists>q. py_find (buf_old s1) [CHR 0x0D] (ok_pos_end s1) = Some q \<and>
                      p + length ''OK'' \<le> q \<and> q \<le> j \<and> occurs_at [CHR 0x0D] (buf_old s1) q)))"
    using a(3) by blast
qed

theorem anchored_search_first_occurrence_witness:
  "read_stsbr_t1_t2_loop 100 \<lparr>clock = [1, 2, 3, 4, 5], rx = [''xOK'', ''OK'' @ [CHR 0x0D] @ ''>''], baudrate = 9600, tx = []\<rparr> t12_init
     = Some (\<lparr>clock = [5], rx = [], baudrate = 9600, tx = []\<rparr>,
             \<lparr>t12_buf = ''xOKOK'' @ [CHR 0x0D] @ ''>'', t12_ok_time = Some 2, t12_prompt_time = Some 4,
              ok_search_from = 0, prompt_search_from = 3\<rparr>) \<and>
   phase1 100 \<lparr>clock = [1, 2, 3, 4, 5], rx = [''xOK'', ''OK'' @ [CHR 0x0D] @ ''>''], baudrate = 9600, tx = []\<rparr> phase1_init
     = Some (\<lparr>clock = [5], rx = [], baudrate = 9600, tx = []\<rparr>,
             \<lparr>buf_old = ''xOKOK'' @ [CHR 0x0D] @ ''>'', ok_time = Some 2, cr1_time = Some 4, ok_pos_end = 3\<rparr>) \<and>
   occurs_at ''OK'' (''xOKOK'' @ [CHR 0x0D] @ ''>'') 3 \<and>
   occurs_at ''>'' (''xOKOK'' @ [CHR 0x0D] @ ''>'') 6 \<and>
   occurs_at [CHR 0x0D] (''xOKOK'' @ [CHR 0x0D] @ ''>'') 5 \<and>
   (\<exists>p q. p \<le> 3 \<and> occurs_at ''OK'' (''xOKOK'' @ [CHR 0x0D] @ ''>'') p \<and> 3 = p + length ''OK'' \<and>
          py_find (''xOKOK'' @ [CHR 0x0D] @ ''>'') ''>'' 3 = Some q \<and> p + length ''OK'' \<le> q \<and> q \<le> 6) \<and>
   (\<exists>p q. p \<le> 3 \<and> occurs_at ''OK'' (''xOKOK'' @ [CHR 0x0D] @ ''>'') p \<and> 3 = p + length ''OK'' \<and>
          py_find (''xOKOK'' @ [CHR 0x0D] @ ''>'') [CHR 0x0D] 3 = Some q \<and> p + length ''OK'' \<le> q \<and> q \<le> 5)"
proof -
  let ?w = "\<lparr>clock = [1, 2, 3, 4, 5], rx = [''xOK'', ''OK'' @ [CHR 0x0D] @ ''>''], baudrate = 9600, tx = []\<rparr>"
  let ?w' = "\<lparr>clock = [5], rx = [], baudrate = 9600, tx = []\<rparr>"
  let ?b = "''xOKOK'' @ [CHR 0x0D] @ ''>''"
  let ?s = "\<lparr>t12_buf = ?b, t12_ok_time = Some 2, t12_prompt_time = Some 4,
              ok_search_from = 0, prompt_search_from = 3\<rparr>"
  let ?s1 = "\<lparr>buf_old = ?b, ok_time = Some 2, cr1_time = Some 4, ok_pos_end = 3\<rparr>"
  have a: "occurs_at ''OK'' ?b 3" and b: "occurs_at ''>'' ?b 6" and c: "occurs_at [CHR 0x0D] ?b 5"
    by (simp_all add: occurs_at_def)
  have l: "read_stsbr_t1_t2_loop 100 ?w t12_init = Some (?w', ?s)"
    by (simp add: eval_phase del: not_None_eq)
  have p: "phase1 100 ?w phase1_init = Some (?w', ?s1)"
    by (simp add: eval_phase del: not_None_eq)
  note inst = anchored_search_first_occurrence [of 100 ?w ?w' ?s ?s1]
  have sel: "t12_buf ?s = ?b" "prompt_search_from ?s = 3" "buf_old ?s1 = ?b" "ok_pos_end ?s1 = 3"
    by simp_all
  from inst l have
    "\<forall>i. occurs_at ''OK'' (t12_buf ?s) i \<longrightarrow>
         (\<exists>p. p \<le> i \<and> occurs_at ''OK'' (t12_buf ?s) p \<and> (\<forall>k < p. \<not> occurs_at ''OK'' (t12_buf ?s) k) \<and>
              prompt_search_from ?s = p + length ''OK'' \<and>
              (\<forall>j. occurs_at ''>'' (t12_buf ?s) j \<longrightarrow> i + length ''OK'' \<le> j \<longrightarrow>
                 (\<exists>q. py_find (t12_buf ?s) ''>'' (prompt_search_from ?s) = Some q \<and>
                      p + length ''OK'' \<le> q \<and> q \<le> j \<and> occurs_at ''>'' (t12_buf ?s) q)))"
    by blast
  then have t: "\<forall>i. occurs_at ''OK'' ?b i \<longrightarrow>
         (\<exists>p. p \<le> i \<and> occurs_at ''OK'' ?b p \<and> (\<forall>k < p. \<not> occurs_at ''OK'' ?b k) \<and>
              3 = p + length ''OK'' \<and>
              (\<forall>j. occurs_at ''>'' ?b j \<longrightarrow> i + length ''OK'' \<le> j \<longrightarrow>
                 (\<exists>q. py_find ?b ''>'' 3 = Some q \<and>
                      p + length ''OK'' \<le> q \<and> q \<le> j \<and> occurs_at ''>'' ?b q)))"
    unfolding sel .
  from inst p have
    "\<forall>i. occurs_at ''OK'' (buf_old ?s1) i \<longrightarrow>
         (\<exists>p. p \<le> i \<and> occurs_at ''OK'' (buf_old ?s1) p \<and> (\<forall>k < p. \<not> occurs_at ''OK'' (buf_old ?s1) k) \<and>
              ok_pos_end ?s1 = p + length ''OK'' \<and>
              (\<forall>j. occurs_at [CHR 0x0D] (buf_old ?s1) j \<longrightarrow> i + length ''OK'' \<le> j \<longrightarrow>
                 (\<exists>q. py_find (buf_old ?s1) [CHR 0x0D] (ok_pos_end ?s1) = Some q \<and>
                      p + length ''OK'' \<le> q \<and> q \<le> j \<and> occurs_at [CHR 0x0D] (buf_old ?s1) q)))"
    by blast
  then have u: "\<forall>i. occurs_at ''OK'' ?b i \<longrightarrow>
         (\<exists>p. p \<le> i \<and> occurs_at ''OK'' ?b p \<and> (\<forall>k < p. \<not> occurs_at ''OK'' ?b k) \<and>
              3 = p + length ''OK'' \<and>
              (\<forall>j. occurs_at [CHR 0x0D] ?b j \<longrightarrow> i + length ''OK'' \<le> j \<longrightarrow>
                 (\<exists>q. py_find ?b [CHR 0x0D] 3 = Some q \<and>
                      p + length ''OK'' \<le> q \<and> q \<le> j \<and> occurs_at [CHR 0x0D] ?b q)))"
    unfolding sel .
  have le: "3 + length ''OK'' \<le> (6::nat)" "3 + length ''OK'' \<le> (5::nat)" by simp_all
  from t a b le(1) have r1: "\<exists>p q. p \<le> 3 \<and> occurs_at ''OK'' ?b p \<and> 3 = p + length ''OK'' \<and>
          py_find ?b ''>'' 3 = Some q \<and> p + length ''OK'' \<le> q \<and> q \<le> 6" by blast
  from u a c le(2) have r2: "\<exists>p q. p \<le> 3 \<and> occurs_at ''OK'' ?b p \<and> 3 = p + length ''OK'' \<and>
          py_find ?b [CHR 0x0D] 3 = Some q \<and> p + length ''OK'' \<le> q \<and> q \<le> 5" by blast
  from l p a b c r1 r2 show ?thesis by blast
qed

text \<open>
  The usual answer \<^verbatim>\<open>OK\<close>, CR: the first \<^verbatim>\<open>OK\<close> is at 0, its end offset is 2 (the value of
  \<^verbatim>\<open>ok_pos_end\<close>), and the CR is found at 2, which is not strictly greater than the end
  offset.
\<close>

theorem anchored_search_first_occurrence_counterexample:
  "phase1 100 \<lparr>clock = [1, 2, 3, 4], rx = [''OK'' @ [CHR 0x0D]], baudrate = 9600, tx = []\<rparr> phase1_init
     = Some (\<lparr>clock = [4], rx = [], baudrate = 9600, tx = []\<rparr>,
             \<lparr>buf_old = ''OK'' @ [CHR 0x0D], ok_time = Some 2, cr1_time = Some 3, ok_pos_end = 2\<rparr>) \<and>
   py_find (''OK'' @ [CHR 0x0D]) ''OK'' 0 = Some 0 \<and>
   py_find (''OK'' @ [CHR 0x0D]) [CHR 0x0D] (0 + length ''OK'') = Some 2 \<and>
   \<not> (0 + length ''OK'' < (2::nat))"
  by (simp add: eval_phase del: not_None_eq)

text \<open>
  C3. In a run of \<^verbatim>\<open>read_stsbr_with_baud_switch\<close> that returns, phase 1 leaves the host
  speed as it was; the speed is touched only between the phases, and only when phase 1
  ended with \<^verbatim>\<open>cr1_time\<close> set, that is with \<^verbatim>\<open>OK\<close> and a CR after it in the bytes read at
  the old speed. When \<^verbatim>\<open>cr1_time\<close> is \<^verbatim>\<open>None\<close>, phase 1 ended on a clock reading at or past
  the deadline and the host speed at the end of the run is the speed at its start. When
  the speed has changed, the marker was seen and the speed is the new rate.
\<close>

theorem host_speed_switch_only_after_marker:
  "read_stsbr_with_baud_switch ser t_tx new_baud timeout_sec = Some (ser', data, ok_t, prompt_t, cr1_t) \<Longrightarrow>
   \<exists>w1 s. phase1 (t_tx + timeout_sec) ser phase1_init = Some (w1, s) \<and>
     cr1_t = cr1_time s \<and> baudrate w1 = baudrate ser \<and>
     (cr1_t = None \<longrightarrow>
        baudrate ser' = baudrate ser \<and>
        (\<exists>pre now. clock ser = pre @ now # clock w1 \<and> t_tx + timeout_sec \<le> now)) \<and>
     (cr1_t \<noteq> None \<longrightarrow>
        (\<exists>p q. py_find (buf_old s) ''OK'' 0 = Some p \<and>
                py_find (buf_old s) [CHR 0x0D] (p + 2) = Some q) \<and>
        (0 \<le> new_baud \<longrightarrow> baudrate ser' = new_baud)) \<and>
     (baudrate ser' \<noteq> baudrate ser \<longrightarrow> cr1_t \<noteq> None \<and> baudrate ser' = new_baud)"
proof -
  assume r: "read_stsbr_with_baud_switch ser t_tx new_baud timeout_sec = Some (ser', data, ok_t, prompt_t, cr1_t)"
  let ?d = "t_tx + timeout_sec"
  from r obtain w1 s buf_new where p1: "phase1 ?d ser phase1_init = Some (w1, s)"
    and p2: "phase2 ?d (switch_baud w1 s new_baud) [] = Some (ser', buf_new, prompt_t)"
    and res: "cr1_t = cr1_time s" "ok_t = ok_time s" "data = buf_old s @ buf_new"
    by (auto simp: read_stsbr_with_baud_switch_def split: option.splits)
  from phase1_result [OF p1 phase1_init_inv] have f1: "phase1_inv s" "baudrate w1 = baudrate ser"
    "cr1_time s = None \<longrightarrow> (\<exists>pre now. clock ser = pre @ now # clock w1 \<and> ?d \<le> now)"
    by auto
  from phase2_frame [OF p2] have f2: "baudrate ser' = baudrate (switch_baud w1 s new_baud)" by simp
  have m: "cr1_time s \<noteq> None \<longrightarrow> (\<exists>p q. py_find (buf_old s) ''OK'' 0 = Some p \<and>
                py_find (buf_old s) [CHR 0x0D] (p + 2) = Some q)"
    using phase1_marker [OF f1(1)] by blast
  have u: "cr1_time s = None \<longrightarrow> baudrate ser' = baudrate ser"
    using f2 f1(2) by (simp add: switch_baud_facts(1))
  have v: "cr1_time s \<noteq> None \<longrightarrow> 0 \<le> new_baud \<longrightarrow> baudrate ser' = new_baud"
    using f2 by (simp add: switch_baud_facts(3))
  have x: "baudrate ser' \<noteq> baudrate ser \<longrightarrow> cr1_time s \<noteq> None \<and> baudrate ser' = new_baud"
    using f2 f1(2) switch_baud_facts(4) [of w1 s new_baud] by auto
  have h: "phase1 ?d ser phase1_init = Some (w1, s) \<and>
     cr1_t = cr1_time s \<and> baudrate w1 = baudrate ser \<and>
     (cr1_t = None \<longrightarrow>
        baudrate ser' = baudrate ser \<and>
        (\<exists>pre now. clock ser = pre @ now # clock w1 \<and> ?d \<le> now)) \<and>
     (cr1_t \<noteq> None \<longrightarrow>
        (\<exists>p q. py_find (buf_old s) ''OK'' 0 = Some p \<and>
                py_find (buf_old s) [CHR 0x0D] (p + 2) = Some q) \<and>
        (0 \<le> new_baud \<longrightarrow> baudrate ser' = new_baud)) \<and>
     (baudrate ser' \<noteq> baudrate ser \<longrightarrow> cr1_t \<noteq> None \<and> baudrate ser' = new_baud)"
    unfolding res(1) using p1 f1(2,3) m u v x by blast
  show ?thesis by (rule exI [of _ w1], rule exI [of _ s], rule h)
qed

theorem host_speed_switch_only_after_marker_witness:
  "read_stsbr_with_baud_switch
     \<lparr>clock = [100.01, 100.05, 100.06, 100.07, 100.08, 100.09, 100.1, 100.2],
      rx = [''O'', ''K'' @ [CHR 0x0D], ''stale'', [], [CHR 0x0D] @ ''>''], baudrate = 9600, tx = []\<rparr>
     100 115200 6
     = Some (\<lparr>clock = [100.2], rx = [], baudrate = 115200, tx = []\<rparr>,
             ''OK'' @ [CHR 0x0D, CHR 0x0D] @ ''>'', Some 100.06, Some 100.1, Some 100.07) \<and>
   (\<exists>w1 s. phase1 (100 + 6)
       \<lparr>clock = [100.01, 100.05, 100.06, 100.07, 100.08, 100.09, 100.1, 100.2],
        rx = [''O'', ''K'' @ [CHR 0x0D], ''stale'', [], [CHR 0x0D] @ ''>''], baudrate = 9600, tx = []\<rparr>
       phase1_init = Some (w1, s) \<and>
     Some 100.07 = cr1_time s \<and> baudrate w1 = 9600 \<and>
     (\<exists>p q. py_find (buf_old s) ''OK'' 0 = Some p \<and> py_find (buf_old s) [CHR 0x0D] (p + 2) = Some q))"
proof -
  let ?ser = "\<lparr>clock = [100.01, 100.05, 100.06, 100.07, 100.08, 100.09, 100.1, 100.2],
      rx = [''O'', ''K'' @ [CHR 0x0D], ''stale'', [], [CHR 0x0D] @ ''>''], baudrate = 9600, tx = []\<rparr>"
  have r: "read_stsbr_with_baud_switch ?ser 100 115200 6
     = Some (\<lparr>clock = [100.2], rx = [], baudrate = 115200, tx = []\<rparr>,
             ''OK'' @ [CHR 0x0D, CHR 0x0D] @ ''>'', Some 100.06, Some 100.1, Some 100.07)"
    by (simp add: eval_phase del: not_None_eq)
  from host_speed_switch_only_after_marker [OF r] obtain w1 s where
    a: "phase1 (100 + 6) ?ser phase1_init = Some (w1, s)" and b: "Some 100.07 = cr1_time s"
    and c: "baudrate w1 = baudrate ?ser"
    and d: "Some (100.07 :: rat) \<noteq> None \<longrightarrow>
        (\<exists>p q. py_find (buf_old s) ''OK'' 0 = Some p \<and>
                py_find (buf_old s) [CHR 0x0D] (p + 2) = Some q) \<and>
        ((0 :: int) \<le> 115200 \<longrightarrow> baudrate \<lparr>clock = [100.2], rx = [], baudrate = 115200, tx = []\<rparr> = 115200)"
    by blast
  from d have e: "\<exists>p q. py_find (buf_old s) ''OK'' 0 = Some p \<and>
                py_find (buf_old s) [CHR 0x0D] (p + 2) = Some q" by simp
  from c have c': "baudrate w1 = 9600" by simp
  from a b c' e have "\<exists>w1 s. phase1 (100 + 6) ?ser phase1_init = Some (w1, s) \<and>
     Some 100.07 = cr1_time s \<and> baudrate w1 = 9600 \<and>
     (\<exists>p q. py_find (buf_old s) ''OK'' 0 = Some p \<and> py_find (buf_old s) [CHR 0x0D] (p + 2) = Some q)"
    by blast
  with r show ?thesis by (rule conjI)
qed

text \<open>
  C2 (as amended). With a clock that never runs backwards: when phase 1 of
  \<^verbatim>\<open>read_stsbr_with_baud_switch\<close> returns without the first CR after \<^verbatim>\<open>OK\<close>, it has ended
  on a clock reading at or after the deadline, and if the clock can be read once more the
  call returns: phase 2 takes that one clock reading and nothing else (no byte is read, the
  speed is not touched), the prompt and CR time stamps are \<^verbatim>\<open>None\<close>, the data are the bytes
  of phase 1 and \<^verbatim>\<open>ok_time\<close> is what phase 1 captured. With any clock: a call that returns
  without a prompt time has ended on a clock reading at or after the deadline, and its
  \<^verbatim>\<open>ok_time\<close> and \<^verbatim>\<open>cr1_time\<close> are those that phase 1 captured; a call of \<^verbatim>\<open>read_stsbr_t1_t2\<close>
  that returns without a prompt time has ended on a clock reading at or after its deadline,
  and it records no prompt time when \<^verbatim>\<open>OK\<close> was not found.
\<close>

theorem timed_out_step_stops_run:
  "(sorted (clock ser) \<longrightarrow> phase1 (t_tx + timeout_sec) ser phase1_init = Some (w1, s) \<longrightarrow>
      cr1_time s = None \<longrightarrow>
      (\<exists>pre now. clock ser = pre @ now # clock w1 \<and> t_tx + timeout_sec \<le> now) \<and>
      (clock w1 \<noteq> [] \<longrightarrow>
         read_stsbr_with_baud_switch ser t_tx new_baud timeout_sec
           = Some (w1\<lparr>clock := tl (clock w1)\<rparr>, buf_old s, ok_time s, None, None))) \<and>
   (read_stsbr_with_baud_switch ser t_tx new_baud timeout_sec = Some (ser', data, ok_t, None, cr1_t) \<longrightarrow>
      (\<exists>pre now. clock ser = pre @ now # clock ser' \<and> t_tx + timeout_sec \<le> now) \<and>
      (\<exists>w1 s buf_new. phase1 (t_tx + timeout_sec) ser phase1_init = Some (w1, s) \<and>
          ok_t = ok_time s \<and> cr1_t = cr1_time s \<and> data = buf_old s @ buf_new)) \<and>
   (read_stsbr_t1_t2 port t0 limit = Some (port', rx_data, ok_time', prompt_time') \<longrightarrow>
      (ok_time' = None \<longrightarrow> prompt_time' = None) \<and>
      (prompt_time' = None \<longrightarrow> (\<exists>pre now. clock port = pre @ now # clock port' \<and> t0 + limit \<le> now)))"
proof (intro conjI impI)
  let ?d = "t_tx + timeout_sec"
  assume so: "sorted (clock ser)" and p1: "phase1 ?d ser phase1_init = Some (w1, s)"
    and c: "cr1_time s = None"
  from phase1_result [OF p1 phase1_init_inv] c obtain pre now where
    cl: "clock ser = pre @ now # clock w1" and dn: "?d \<le> now" by auto
  then show "\<exists>pre now. clock ser = pre @ now # clock w1 \<and> ?d \<le> now" by blast
  assume ne: "clock w1 \<noteq> []"
  obtain t ts where ts: "clock w1 = t # ts" using ne by (cases "clock w1") auto
  have "now \<le> t" using so unfolding cl ts by (simp add: sorted_append)
  with dn have dt: "?d \<le> t" by simp
  have pt: "py_time w1 = Some (t, w1\<lparr>clock := tl (clock w1)\<rparr>)"
    by (simp add: py_time_def ts)
  have sb: "switch_baud w1 s new_baud = w1" using c by (rule switch_baud_facts(1))
  have p2: "phase2 ?d w1 [] = Some (w1\<lparr>clock := tl (clock w1)\<rparr>, [], None)"
    using pt dt by (rule phase2_expired)
  show "read_stsbr_with_baud_switch ser t_tx new_baud timeout_sec
        = Some (w1\<lparr>clock := tl (clock w1)\<rparr>, buf_old s, ok_time s, None, None)"
    by (simp only: read_stsbr_with_baud_switch_def p1 option.case prod.case sb p2 c append_Nil2)
next
  let ?d = "t_tx + timeout_sec"
  assume r: "read_stsbr_with_baud_switch ser t_tx new_baud timeout_sec = Some (ser', data, ok_t, None, cr1_t)"
  then obtain w1 s buf_new where p1: "phase1 ?d ser phase1_init = Some (w1, s)"
    and p2: "phase2 ?d (switch_baud w1 s new_baud) [] = Some (ser', buf_new, None)"
    and res: "ok_t = ok_time s" "cr1_t = cr1_time s" "data = buf_old s @ buf_new"
    by (auto simp: read_stsbr_with_baud_switch_def split: option.splits)
  from phase1_clock [OF p1] obtain pre1 where c1: "clock ser = pre1 @ clock w1" ..
  from phase2_deadline [OF p2] obtain pre2 now where
    c2: "clock w1 = pre2 @ now # clock ser'" and dn: "?d \<le> now"
    by (auto simp: switch_baud_clock)
  from c1 c2 have "clock ser = (pre1 @ pre2) @ now # clock ser'" by simp
  with dn show "\<exists>pre now. clock ser = pre @ now # clock ser' \<and> ?d \<le> now" by blast
  from p1 res show "\<exists>w1 s buf_new. phase1 ?d ser phase1_init = Some (w1, s) \<and>
          ok_t = ok_time s \<and> cr1_t = cr1_time s \<and> data = buf_old s @ buf_new" by blast
next
  assume r: "read_stsbr_t1_t2 port t0 limit = Some (port', rx_data, ok_time', prompt_time')"
  then obtain s' where l: "read_stsbr_t1_t2_loop (t0 + limit) port t12_init = Some (port', s')"
    and res: "ok_time' = t12_ok_time s'" "prompt_time' = t12_prompt_time s'"
    by (auto simp: read_stsbr_t1_t2_def split: option.splits)
  note tr = t12_result [OF l t12_init_inv]
  from tr have inv: "t12_inv s'" by simp
  { assume "ok_time' = None"
    with inv res show "prompt_time' = None" by (simp add: t12_inv_def) }
  { assume "prompt_time' = None"
    with tr res show "\<exists>pre now. clock port = pre @ now # clock port' \<and> t0 + limit \<le> now" by simp }
qed


theorem timed_out_step_stops_run_witness:
  "sorted [100.01, 100.05, 100.06, 106.5, 106.6, 107 :: rat] \<and>
   phase1 (100 + 6) \<lparr>clock = [100.01, 100.05, 100.06, 106.5, 106.6, 107], rx = [''O'', ''K'', ''late''],
                     baudrate = 9600, tx = []\<rparr> phase1_init
     = Some (\<lparr>clock = [106.6, 107], rx = [''late''], baudrate = 9600, tx = []\<rparr>,
             \<lparr>buf_old = ''OK'', ok_time = Some 100.06, cr1_time = None, ok_pos_end = 2\<rparr>) \<and>
   read_stsbr_with_baud_switch
     \<lparr>clock = [100.01, 100.05, 100.06, 106.5, 106.6, 107], rx = [''O'', ''K'', ''late''],
      baudrate = 9600, tx = []\<rparr> 100 115200 6
     = Some (\<lparr>clock = [107], rx = [''late''], baudrate = 9600, tx = []\<rparr>, ''OK'', Some 100.06, None, None) \<and>
   read_stsbr_t1_t2 \<lparr>clock = [100.01, 100.05, 106.5, 107], rx = [''O'', ''>''], baudrate = 9600, tx = []\<rparr> 100 6
     = Some (\<lparr>clock = [107], rx = [], baudrate = 9600, tx = []\<rparr>, ''O>'', None, None) \<and>
   (\<exists>pre now. [100.01, 100.05, 100.06, 106.5, 106.6, 107 :: rat] = pre @ now # [106.6, 107] \<and> 100 + 6 \<le> now) \<and>
   (\<exists>pre now. [100.01, 100.05, 100.06, 106.5, 106.6, 107 :: rat] = pre @ now # [107] \<and> 100 + 6 \<le> now) \<and>
   (\<exists>pre now. [100.01, 100.05, 106.5, 107 :: rat] = pre @ now # [107] \<and> 100 + 6 \<le> now)"
proof -
  let ?ser = "\<lparr>clock = [100.01, 100.05, 100.06, 106.5, 106.6, 107], rx = [''O'', ''K'', ''late''],
                     baudrate = 9600, tx = []\<rparr>"
  let ?w1 = "\<lparr>clock = [106.6, 107], rx = [''late''], baudrate = 9600, tx = []\<rparr>"
  let ?w3 = "\<lparr>clock = [107], rx = [''late''], baudrate = 9600, tx = []\<rparr>"
  let ?s = "\<lparr>buf_old = ''OK'', ok_time = Some 100.06, cr1_time = None, ok_pos_end = 2\<rparr>"
  let ?port = "\<lparr>clock = [100.01, 100.05, 106.5, 107], rx = [''O'', ''>''], baudrate = 9600, tx = []\<rparr>"
  let ?port' = "\<lparr>clock = [107], rx = [], baudrate = 9600, tx = []\<rparr>"
  have so: "sorted (clock ?ser)" by simp
  have p1: "phase1 (100 + 6) ?ser phase1_init = Some (?w1, ?s)"
    by (simp add: eval_phase del: not_None_eq)
  have c: "cr1_time ?s = None" and ne: "clock ?w1 \<noteq> []" by simp_all
  have r: "read_stsbr_with_baud_switch ?ser 100 115200 6 = Some (?w3, ''OK'', Some 100.06, None, None)"
    by (simp add: eval_phase del: not_None_eq)
  have t: "read_stsbr_t1_t2 ?port 100 6 = Some (?port', ''O>'', None, None)"
    by (simp add: eval_phase del: not_None_eq)
  note inst = timed_out_step_stops_run [of ?ser 100 6 ?w1 ?s 115200 ?w3 "''OK''" "Some 100.06" None
      ?port 100 6 ?port' "''O>''" None None]
  from inst so p1 c have e1: "\<exists>pre now. clock ?ser = pre @ now # clock ?w1 \<and> 100 + 6 \<le> now" by blast
  from inst r have e2: "\<exists>pre now. clock ?ser = pre @ now # clock ?w3 \<and> 100 + 6 \<le> now" by blast
  from inst t have e3: "\<exists>pre now. clock ?port = pre @ now # clock ?port' \<and> 100 + 6 \<le> now" by blast
  have so': "sorted [100.01, 100.05, 100.06, 106.5, 106.6, 107 :: rat]" by simp
  from so' p1 r t e1 e2 e3 show ?thesis by (simp only: world.simps)
qed

text \<open>
  A clock that is set back during the call: the first reading, 106, is the deadline, so phase 1
  ends at once with nothing found; the next reading, 100, is before the deadline again, so
  phase 2 reads the bytes \<^verbatim>\<open>OK>\<close> and records a prompt time.
\<close>

theorem timed_out_step_stops_run_counterexample:
  "phase1 (100 + 6) \<lparr>clock = [106, 100, 101, 102, 103], rx = [''OK>'', ''x''], baudrate = 9600, tx = []\<rparr>
       phase1_init
     = Some (\<lparr>clock = [100, 101, 102, 103], rx = [''OK>'', ''x''], baudrate = 9600, tx = []\<rparr>,
             \<lparr>buf_old = [], ok_time = None, cr1_time = None, ok_pos_end = 0\<rparr>) \<and>
   read_stsbr_with_baud_switch
       \<lparr>clock = [106, 100, 101, 102, 103], rx = [''OK>'', ''x''], baudrate = 9600, tx = []\<rparr> 100 115200 6
     = Some (\<lparr>clock = [102, 103], rx = [''x''], baudrate = 9600, tx = []\<rparr>, ''OK>'', None, Some 101, None)"
  by (simp add: eval_phase del: not_None_eq)
section \<open>Facts about the log lines\<close>

lemma write_log_line:
  "text \<noteq> [] \<Longrightarrow> last text \<noteq> CHR 0x0A \<Longrightarrow> write_log f text = f @ text @ [CHR 0x0A]"
  by (simp add: write_log_def endswith_single)

lemma write_log_some: "\<exists>e. write_log f text = f @ text @ e"
  by (simp add: write_log_def)

lemma str_nat_last: "str_nat n \<noteq> [] \<and> last (str_nat n) = digit_char (n mod 10)"
proof (cases "n < 10")
  case True
  then have "str_nat n = [digit_char n]" by (simp add: str_nat.simps)
  with True show ?thesis by simp
next
  case False
  then have "str_nat n = str_nat (n div 10) @ [digit_char (n mod 10)]"
    by (subst str_nat.simps) simp
  then show ?thesis by simp
qed

lemma digit_char_not_newline: "k < 10 \<Longrightarrow> digit_char k \<noteq> CHR 0x0A"
proof -
  assume "k < 10"
  then have "digit_char k \<in> set ''0123456789''"
    unfolding digit_char_def by (intro nth_mem) simp
  then show ?thesis by auto
qed

lemma fmt_fixed_last: "0 < d \<Longrightarrow> fmt_fixed d x \<noteq> [] \<and> last (fmt_fixed d x) \<noteq> CHR 0x0A"
  by (simp add: fmt_fixed_def Let_def str_nat_last digit_char_not_newline)

lemma str_int_last: "str_int i \<noteq> [] \<and> last (str_int i) \<noteq> CHR 0x0A"
  using str_nat_last [of "nat i"] str_nat_last [of "nat (- i)"]
    digit_char_not_newline [of "nat i mod 10"] digit_char_not_newline [of "nat (- i) mod 10"]
  by (simp add: str_int_def)

lemma log_timings_eq:
  "log_timings f t_tx new_baud ok_t prompt_t cr1_t =
     f @ ''TX time: '' @ fmt_fixed 6 t_tx @ [CHR 0x0A]
       @ (case ok_t of
            Some ok \<Rightarrow> ''T1 (TX -> OK): '' @ fmt_fixed 3 ((ok - t_tx) * 1000) @ '' ms''
          | None \<Rightarrow> ''OK not received (cannot compute T1/T2)'') @ [CHR 0x0A]
       @ (case cr1_t of
            Some cr1 \<Rightarrow> ''CR1 after OK seen at: '' @ fmt_fixed 3 ((cr1 - t_tx) * 1000)
                         @ '' ms (then host baud -> '' @ str_int new_baud @ '')''
          | None \<Rightarrow> ''First CR after OK not seen before timeout; host baud not switched to ''
                    @ str_int new_baud) @ [CHR 0x0A]
       @ (case ok_t of
            None \<Rightarrow> []
          | Some ok \<Rightarrow>
              (case prompt_t of
                 Some pr \<Rightarrow> ''T2 (OK -> '' @ [CHR 0x27] @ ''>'' @ [CHR 0x27] @ ''): ''
                             @ fmt_fixed 3 ((pr - ok) * 1000) @ '' ms''
               | None \<Rightarrow> ''Prompt ('' @ [CHR 0x27] @ ''>'' @ [CHR 0x27] @ '') not received within ''
                           @ fmt_fixed 1 STSBR_PROMPT_TIMEOUT_SEC @ '' s (cannot compute T2)'')
              @ [CHR 0x0A])"
  using fmt_fixed_last [of 6 t_tx] str_int_last [of new_baud]
  by (cases ok_t; cases cr1_t; cases prompt_t)
     (simp_all add: log_timings_def Let_def write_log_def endswith_single)

lemma log_timings_9600_eq:
  "log_timings_9600 f t_tx ok_t prompt_t =
     f @ ''TX time: '' @ fmt_fixed 6 t_tx @ [CHR 0x0A]
       @ (case ok_t of
            Some ok \<Rightarrow> ''T1 (TX -> OK): '' @ fmt_fixed 3 ((ok - t_tx) * 1000) @ '' ms''
          | None \<Rightarrow> ''OK not received (cannot compute T1/T2)'') @ [CHR 0x0A]
       @ (case ok_t of
            None \<Rightarrow> []
          | Some ok \<Rightarrow>
              (case prompt_t of
                 Some pr \<Rightarrow> ''T2 (OK -> '' @ [CHR 0x27] @ ''>'' @ [CHR 0x27] @ ''): ''
                             @ fmt_fixed 3 ((pr - ok) * 1000) @ '' ms''
               | None \<Rightarrow> ''Prompt ('' @ [CHR 0x27] @ ''>'' @ [CHR 0x27] @ '') not received within ''
                           @ fmt_fixed 1 STSBR_PROMPT_TIMEOUT_SEC @ '' s (cannot compute T2)'')
              @ [CHR 0x0A])"
  using fmt_fixed_last [of 6 t_tx]
  by (cases ok_t; cases prompt_t)
     (simp_all add: log_timings_9600_def Let_def write_log_def endswith_single)

text \<open>Rules that evaluate the formats on numerals.\<close>

lemma str_nat_numeral:
  "str_nat (numeral k) =
     (if (numeral k :: nat) < 10 then [digit_char (numeral k)]
      else str_nat (numeral k div 10) @ [digit_char (numeral k mod 10)])"
  by (rule str_nat.simps)

lemma str_nat_small: "str_nat 0 = ''0''" "str_nat (Suc 0) = ''1''"
  by (simp_all add: str_nat.simps digit_char_def)

lemma replicate_num: "replicate (numeral k) x = x # replicate (pred_numeral k) x"
  by (simp add: numeral_eq_Suc)

lemmas eval_fmt = fmt_fixed_def round_half_even_def Let_def str_nat_numeral str_nat_small
  digit_char_def replicate_num

lemmas eval_str = strip_def isspace_def split_def upper_def upper_char_def code_points_def startswith_def endswith_def
  suffix_to_prefix py_int_def is_dec_def isdigit_def encode_ascii_ignore_def encode_utf8_def utf8_char_def
  TX_NEWLINE_def str_nat_numeral str_nat_small str_int_def digit_char_def hex2_def hex_digit_def
  make_visible_def hex_dump_def hex_plain_def write_log_def write_log_section_def
  write_log_section_115200_def

text \<open>
  C5. When \<^verbatim>\<open>send_and_log\<close> handles a speed change, the lines it writes between the
  header and the section of the received bytes are determined by the time stamps alone,
  whichever of them are present. \<open>t_tx\<close> is the clock reading taken just before the
  command is written, the others are the readings taken by
  \<^verbatim>\<open>read_stsbr_with_baud_switch\<close> (by \<^verbatim>\<open>read_stsbr_t1_t2\<close> in the 9600 script). The number in
  the line T1 is OK minus TX, in the line CR1 it is CR1 minus TX, in the line T2 it is prompt
  minus OK, each times 1000 and written with three decimals; nothing else enters a number.
  T1 is written whenever OK was stamped, CR1 whenever the CR was, T2 whenever OK and the
  prompt were; a missing stamp gives a line that says so and no number. Time stamps are
  exact rationals here.
\<close>

theorem reported_intervals_are_differences:
  "(py_time (reset_input_buffer ser) = Some (t_tx, ser1) \<longrightarrow>
    startswith (upper (strip cmd)) (code_points ''STSBR'') \<longrightarrow>
    parse_stsbr_baud cmd = Some new_baud \<longrightarrow>
    read_stsbr_with_baud_switch (ser_write (encode_ascii_ignore (cmd @ TX_NEWLINE)) ser1)
        t_tx new_baud STSBR_PROMPT_TIMEOUT_SEC
      = Some (ser3, data, ok_t, prompt_t, cr1_t) \<longrightarrow>
    send_and_log_115200 ser cmd delay logf num =
      Some (ser3,
            write_log_section_115200
              (write_log logf ([CHR 0x0A] @ ''--- ['' @ str_nat num @ ''] ''
                               @ make_visible (encode_utf8 cmd) @ '' ---'')
               @ ''TX time: '' @ fmt_fixed 6 t_tx @ [CHR 0x0A]
               @ (case ok_t of
                    Some ok \<Rightarrow> ''T1 (TX -> OK): '' @ fmt_fixed 3 ((ok - t_tx) * 1000) @ '' ms''
                  | None \<Rightarrow> ''OK not received (cannot compute T1/T2)'') @ [CHR 0x0A]
               @ (case cr1_t of
                    Some cr1 \<Rightarrow> ''CR1 after OK seen at: '' @ fmt_fixed 3 ((cr1 - t_tx) * 1000)
                                 @ '' ms (then host baud -> '' @ str_int new_baud @ '')''
                  | None \<Rightarrow> ''First CR after OK not seen before timeout; host baud not switched to ''
                            @ str_int new_baud) @ [CHR 0x0A]
               @ (case ok_t of
                    None \<Rightarrow> []
                  | Some ok \<Rightarrow>
                      (case prompt_t of
                         Some pr \<Rightarrow> ''T2 (OK -> '' @ [CHR 0x27] @ ''>'' @ [CHR 0x27] @ ''): ''
                                     @ fmt_fixed 3 ((pr - ok) * 1000) @ '' ms''
                       | None \<Rightarrow> ''Prompt ('' @ [CHR 0x27] @ ''>'' @ [CHR 0x27] @ '') not received within ''
                                   @ fmt_fixed 1 STSBR_PROMPT_TIMEOUT_SEC @ '' s (cannot compute T2)'')
                      @ [CHR 0x0A]))
              data,
            num + 1, Some new_baud)) \<and>
   (py_time (reset_input_buffer port) = Some (t0, port1) \<longrightarrow>
    contains (upper line) (code_points ''STSBR'') \<longrightarrow>
    read_stsbr_t1_t2 (ser_write (encode_ascii_ignore (line @ TX_NEWLINE)) port1) t0 STSBR_PROMPT_TIMEOUT_SEC
      = Some (port2, rx_data, ok_time', prompt_time') \<longrightarrow>
    send_and_log_9600 port line wait logf' k =
      Some (port2,
            write_log_section
              (write_log logf' ([CHR 0x0A] @ ''--- ['' @ str_nat k @ ''] ''
                                @ make_visible (encode_utf8 line) @ '' ---'')
               @ ''TX time: '' @ fmt_fixed 6 t0 @ [CHR 0x0A]
               @ (case ok_time' of
                    Some ok \<Rightarrow> ''T1 (TX -> OK): '' @ fmt_fixed 3 ((ok - t0) * 1000) @ '' ms''
                  | None \<Rightarrow> ''OK not received (cannot compute T1/T2)'') @ [CHR 0x0A]
               @ (case ok_time' of
                    None \<Rightarrow> []
                  | Some ok \<Rightarrow>
                      (case prompt_time' of
                         Some pr \<Rightarrow> ''T2 (OK -> '' @ [CHR 0x27] @ ''>'' @ [CHR 0x27] @ ''): ''
                                     @ fmt_fixed 3 ((pr - ok) * 1000) @ '' ms''
                       | None \<Rightarrow> ''Prompt ('' @ [CHR 0x27] @ ''>'' @ [CHR 0x27] @ '') not received within ''
                                   @ fmt_fixed 1 STSBR_PROMPT_TIMEOUT_SEC @ '' s (cannot compute T2)'')
                      @ [CHR 0x0A]))
              rx_data (make_visible rx_data) (hex_plain rx_data),
            k + 1))"
proof (intro conjI impI)
  assume tx: "py_time (reset_input_buffer ser) = Some (t_tx, ser1)"
    and st: "startswith (upper (strip cmd)) (code_points ''STSBR'')"
    and pb: "parse_stsbr_baud cmd = Some new_baud"
    and rd: "read_stsbr_with_baud_switch (ser_write (encode_ascii_ignore (cmd @ TX_NEWLINE)) ser1)
               t_tx new_baud STSBR_PROMPT_TIMEOUT_SEC = Some (ser3, data, ok_t, prompt_t, cr1_t)"
  show "send_and_log_115200 ser cmd delay logf num =
      Some (ser3,
            write_log_section_115200
              (write_log logf ([CHR 0x0A] @ ''--- ['' @ str_nat num @ ''] ''
                               @ make_visible (encode_utf8 cmd) @ '' ---'')
               @ ''TX time: '' @ fmt_fixed 6 t_tx @ [CHR 0x0A]
               @ (case ok_t of
                    Some ok \<Rightarrow> ''T1 (TX -> OK): '' @ fmt_fixed 3 ((ok - t_tx) * 1000) @ '' ms''
                  | None \<Rightarrow> ''OK not received (cannot compute T1/T2)'') @ [CHR 0x0A]
               @ (case cr1_t of
                    Some cr1 \<Rightarrow> ''CR1 after OK seen at: '' @ fmt_fixed 3 ((cr1 - t_tx) * 1000)
                                 @ '' ms (then host baud -> '' @ str_int new_baud @ '')''
                  | None \<Rightarrow> ''First CR after OK not seen before timeout; host baud not switched to ''
                            @ str_int new_baud) @ [CHR 0x0A]
               @ (case ok_t of
                    None \<Rightarrow> []
                  | Some ok \<Rightarrow>
                      (case prompt_t of
                         Some pr \<Rightarrow> ''T2 (OK -> '' @ [CHR 0x27] @ ''>'' @ [CHR 0x27] @ ''): ''
                                     @ fmt_fixed 3 ((pr - ok) * 1000) @ '' ms''
                       | None \<Rightarrow> ''Prompt ('' @ [CHR 0x27] @ ''>'' @ [CHR 0x27] @ '') not received within ''
                                   @ fmt_fixed 1 STSBR_PROMPT_TIMEOUT_SEC @ '' s (cannot compute T2)'')
                      @ [CHR 0x0A]))
              data,
            num + 1, Some new_baud)"
    unfolding send_and_log_115200_def Let_def
    by (simp only: tx st pb rd option.case prod.case if_True log_timings_eq)
next
  assume tx: "py_time (reset_input_buffer port) = Some (t0, port1)"
    and st: "contains (upper line) (code_points ''STSBR'')"
    and rd: "read_stsbr_t1_t2 (ser_write (encode_ascii_ignore (line @ TX_NEWLINE)) port1) t0
               STSBR_PROMPT_TIMEOUT_SEC = Some (port2, rx_data, ok_time', prompt_time')"
  show "send_and_log_9600 port line wait logf' k =
      Some (port2,
            write_log_section
              (write_log logf' ([CHR 0x0A] @ ''--- ['' @ str_nat k @ ''] ''
                                @ make_visible (encode_utf8 line) @ '' ---'')
               @ ''TX time: '' @ fmt_fixed 6 t0 @ [CHR 0x0A]
               @ (case ok_time' of
                    Some ok \<Rightarrow> ''T1 (TX -> OK): '' @ fmt_fixed 3 ((ok - t0) * 1000) @ '' ms''
                  | None \<Rightarrow> ''OK not received (cannot compute T1/T2)'') @ [CHR 0x0A]
               @ (case ok_time' of
                    None \<Rightarrow> []
                  | Some ok \<Rightarrow>
                      (case prompt_time' of
                         Some pr \<Rightarrow> ''T2 (OK -> '' @ [CHR 0x27] @ ''>'' @ [CHR 0x27] @ ''): ''
                                     @ fmt_fixed 3 ((pr - ok) * 1000) @ '' ms''
                       | None \<Rightarrow> ''Prompt ('' @ [CHR 0x27] @ ''>'' @ [CHR 0x27] @ '') not received within ''
                                   @ fmt_fixed 1 STSBR_PROMPT_TIMEOUT_SEC @ '' s (cannot compute T2)'')
                      @ [CHR 0x0A]))
              rx_data (make_visible rx_data) (hex_plain rx_data),
            k + 1)"
    unfolding send_and_log_9600_def Let_def
    by (simp only: tx st rd option.case prod.case if_True log_timings_9600_eq)
qed

theorem reported_intervals_are_differences_witness:
  "py_time (reset_input_buffer
      \<lparr>clock = [100, 100.1, 100.123456, 100.13, 100.14, 100.2, 100.25],
       rx = [''junk'', ''OK'' @ [CHR 0x0D], ''x'', [CHR 0x0D] @ ''>''], baudrate = 9600, tx = []\<rparr>)
     = Some (100, \<lparr>clock = [100.1, 100.123456, 100.13, 100.14, 100.2, 100.25],
                   rx = [''OK'' @ [CHR 0x0D], ''x'', [CHR 0x0D] @ ''>''], baudrate = 9600, tx = []\<rparr>) \<and>
   startswith (upper (strip ''STSBR 115200'')) (code_points ''STSBR'') \<and>
   parse_stsbr_baud ''STSBR 115200'' = Some 115200 \<and>
   read_stsbr_with_baud_switch
      (ser_write (encode_ascii_ignore (''STSBR 115200'' @ TX_NEWLINE))
         \<lparr>clock = [100.1, 100.123456, 100.13, 100.14, 100.2, 100.25],
          rx = [''OK'' @ [CHR 0x0D], ''x'', [CHR 0x0D] @ ''>''], baudrate = 9600, tx = []\<rparr>)
      100 115200 STSBR_PROMPT_TIMEOUT_SEC
    = Some (\<lparr>clock = [100.25], rx = [], baudrate = 115200, tx = [''STSBR 115200'' @ [CHR 0x0D]]\<rparr>,
            ''OK'' @ [CHR 0x0D, CHR 0x0D] @ ''>'', Some 100.123456, Some 100.2, Some 100.13) \<and>
   send_and_log_115200
      \<lparr>clock = [100, 100.1, 100.123456, 100.13, 100.14, 100.2, 100.25],
       rx = [''junk'', ''OK'' @ [CHR 0x0D], ''x'', [CHR 0x0D] @ ''>''], baudrate = 9600, tx = []\<rparr>
      ''STSBR 115200'' 0 [] 2
    = Some (\<lparr>clock = [100.25], rx = [], baudrate = 115200, tx = [''STSBR 115200'' @ [CHR 0x0D]]\<rparr>,
            write_log_section_115200
              (write_log [] ([CHR 0x0A] @ ''--- ['' @ str_nat 2 @ ''] ''
                             @ make_visible (encode_utf8 ''STSBR 115200'') @ '' ---'')
               @ ''TX time: 100.000000'' @ [CHR 0x0A]
               @ ''T1 (TX -> OK): 123.456 ms'' @ [CHR 0x0A]
               @ ''CR1 after OK seen at: 130.000 ms (then host baud -> 115200)'' @ [CHR 0x0A]
               @ ''T2 (OK -> '' @ [CHR 0x27] @ ''>'' @ [CHR 0x27] @ ''): 76.544 ms'' @ [CHR 0x0A])
              (''OK'' @ [CHR 0x0D, CHR 0x0D] @ ''>''),
            3, Some 115200) \<and>
   py_time (reset_input_buffer
      \<lparr>clock = [100, 100.1, 100.123456, 106.5], rx = [''junk'', ''OK'' @ [CHR 0x0D]], baudrate = 9600, tx = []\<rparr>)
     = Some (100, \<lparr>clock = [100.1, 100.123456, 106.5], rx = [''OK'' @ [CHR 0x0D]], baudrate = 9600, tx = []\<rparr>) \<and>
   contains (upper ''STSBR 9600'') (code_points ''STSBR'') \<and>
   read_stsbr_t1_t2
      (ser_write (encode_ascii_ignore (''STSBR 9600'' @ TX_NEWLINE))
         \<lparr>clock = [100.1, 100.123456, 106.5], rx = [''OK'' @ [CHR 0x0D]], baudrate = 9600, tx = []\<rparr>)
      100 STSBR_PROMPT_TIMEOUT_SEC
    = Some (\<lparr>clock = [], rx = [], baudrate = 9600, tx = [''STSBR 9600'' @ [CHR 0x0D]]\<rparr>,
            ''OK'' @ [CHR 0x0D], Some 100.123456, None) \<and>
   send_and_log_9600
      \<lparr>clock = [100, 100.1, 100.123456, 106.5], rx = [''junk'', ''OK'' @ [CHR 0x0D]], baudrate = 9600, tx = []\<rparr>
      ''STSBR 9600'' 0 [] 2
    = Some (\<lparr>clock = [], rx = [], baudrate = 9600, tx = [''STSBR 9600'' @ [CHR 0x0D]]\<rparr>,
            write_log_section
              (write_log [] ([CHR 0x0A] @ ''--- ['' @ str_nat 2 @ ''] ''
                             @ make_visible (encode_utf8 ''STSBR 9600'') @ '' ---'')
               @ ''TX time: 100.000000'' @ [CHR 0x0A]
               @ ''T1 (TX -> OK): 123.456 ms'' @ [CHR 0x0A]
               @ ''Prompt ('' @ [CHR 0x27] @ ''>'' @ [CHR 0x27] @ '') not received within 6.0 s (cannot compute T2)''
               @ [CHR 0x0A])
              (''OK'' @ [CHR 0x0D]) (make_visible (''OK'' @ [CHR 0x0D])) (hex_plain (''OK'' @ [CHR 0x0D])),
            3)"
proof -
  let ?ser = "\<lparr>clock = [100, 100.1, 100.123456, 100.13, 100.14, 100.2, 100.25],
       rx = [''junk'', ''OK'' @ [CHR 0x0D], ''x'', [CHR 0x0D] @ ''>''], baudrate = 9600, tx = []\<rparr>"
  let ?ser1 = "\<lparr>clock = [100.1, 100.123456, 100.13, 100.14, 100.2, 100.25],
                   rx = [''OK'' @ [CHR 0x0D], ''x'', [CHR 0x0D] @ ''>''], baudrate = 9600, tx = []\<rparr>"
  let ?ser3 = "\<lparr>clock = [100.25], rx = [], baudrate = 115200, tx = [''STSBR 115200'' @ [CHR 0x0D]]\<rparr>"
  let ?port = "\<lparr>clock = [100, 100.1, 100.123456, 106.5], rx = [''junk'', ''OK'' @ [CHR 0x0D]],
                baudrate = 9600, tx = []\<rparr>"
  let ?port1 = "\<lparr>clock = [100.1, 100.123456, 106.5], rx = [''OK'' @ [CHR 0x0D]], baudrate = 9600, tx = []\<rparr>"
  let ?port2 = "\<lparr>clock = [], rx = [], baudrate = 9600, tx = [''STSBR 9600'' @ [CHR 0x0D]]\<rparr>"
  have h1: "py_time (reset_input_buffer ?ser) = Some (100, ?ser1)"
    by (simp add: world_ops)
  have h2: "startswith (upper (strip ''STSBR 115200'')) (code_points ''STSBR'')"
    by (simp add: eval_str)
  have h3: "parse_stsbr_baud ''STSBR 115200'' = Some 115200"
    by (simp add: parse_stsbr_baud_def eval_str)
  have h4: "read_stsbr_with_baud_switch
      (ser_write (encode_ascii_ignore (''STSBR 115200'' @ TX_NEWLINE)) ?ser1)
      100 115200 STSBR_PROMPT_TIMEOUT_SEC
    = Some (?ser3, ''OK'' @ [CHR 0x0D, CHR 0x0D] @ ''>'', Some 100.123456, Some 100.2, Some 100.13)"
    by (simp add: eval_phase eval_str STSBR_PROMPT_TIMEOUT_SEC_def del: not_None_eq)
  have g1: "py_time (reset_input_buffer ?port) = Some (100, ?port1)"
    by (simp add: world_ops)
  have g2: "contains (upper ''STSBR 9600'') (code_points ''STSBR'')"
    by (simp add: eval_str contains_def py_find_def)
  have g3: "read_stsbr_t1_t2 (ser_write (encode_ascii_ignore (''STSBR 9600'' @ TX_NEWLINE)) ?port1)
      100 STSBR_PROMPT_TIMEOUT_SEC
    = Some (?port2, ''OK'' @ [CHR 0x0D], Some 100.123456, None)"
    by (simp add: eval_phase eval_str STSBR_PROMPT_TIMEOUT_SEC_def del: not_None_eq)
  have f1: "fmt_fixed 3 ((100.123456 - 100) * 1000) = ''123.456''"
    and f2: "fmt_fixed 6 100 = ''100.000000''"
    and f3: "fmt_fixed 3 ((100.13 - 100) * 1000) = ''130.000''"
    and f4: "fmt_fixed 3 ((100.2 - 100.123456) * 1000) = ''76.544''"
    and f5: "fmt_fixed 1 STSBR_PROMPT_TIMEOUT_SEC = ''6.0''"
    by (simp_all add: eval_fmt STSBR_PROMPT_TIMEOUT_SEC_def)
  have si: "str_int 115200 = ''115200''" by (simp add: eval_str)
  note inst = reported_intervals_are_differences
      [of ?ser 100 ?ser1 "''STSBR 115200''" 115200 ?ser3 "''OK'' @ [CHR 0x0D, CHR 0x0D] @ ''>''"
          "Some 100.123456" "Some 100.2" "Some 100.13" 0 "[]" 2
          ?port 100 ?port1 "''STSBR 9600''" ?port2 "''OK'' @ [CHR 0x0D]" "Some 100.123456" None 0 "[]" 2]
  from inst h1 h2 h3 h4 have a: "send_and_log_115200 ?ser ''STSBR 115200'' 0 [] 2
    = Some (?ser3,
            write_log_section_115200
              (write_log [] ([CHR 0x0A] @ ''--- ['' @ str_nat 2 @ ''] ''
                             @ make_visible (encode_utf8 ''STSBR 115200'') @ '' ---'')
               @ ''TX time: '' @ fmt_fixed 6 100 @ [CHR 0x0A]
               @ (''T1 (TX -> OK): '' @ fmt_fixed 3 ((100.123456 - 100) * 1000) @ '' ms'') @ [CHR 0x0A]
               @ (''CR1 after OK seen at: '' @ fmt_fixed 3 ((100.13 - 100) * 1000)
                  @ '' ms (then host baud -> '' @ str_int 115200 @ '')'') @ [CHR 0x0A]
               @ (''T2 (OK -> '' @ [CHR 0x27] @ ''>'' @ [CHR 0x27] @ ''): ''
                  @ fmt_fixed 3 ((100.2 - 100.123456) * 1000) @ '' ms'') @ [CHR 0x0A])
              (''OK'' @ [CHR 0x0D, CHR 0x0D] @ ''>''),
            2 + 1, Some 115200)"
    by (simp only: option.case simp_thms)
  from inst g1 g2 g3 have b: "send_and_log_9600 ?port ''STSBR 9600'' 0 [] 2
    = Some (?port2,
            write_log_section
              (write_log [] ([CHR 0x0A] @ ''--- ['' @ str_nat 2 @ ''] ''
                             @ make_visible (encode_utf8 ''STSBR 9600'') @ '' ---'')
               @ ''TX time: '' @ fmt_fixed 6 100 @ [CHR 0x0A]
               @ (''T1 (TX -> OK): '' @ fmt_fixed 3 ((100.123456 - 100) * 1000) @ '' ms'') @ [CHR 0x0A]
               @ (''Prompt ('' @ [CHR 0x27] @ ''>'' @ [CHR 0x27] @ '') not received within ''
                  @ fmt_fixed 1 STSBR_PROMPT_TIMEOUT_SEC @ '' s (cannot compute T2)'') @ [CHR 0x0A])
              (''OK'' @ [CHR 0x0D]) (make_visible (''OK'' @ [CHR 0x0D])) (hex_plain (''OK'' @ [CHR 0x0D])),
            2 + 1)"
    by (simp only: option.case simp_thms)
  have a': "send_and_log_115200 ?ser ''STSBR 115200'' 0 [] 2
    = Some (?ser3,
            write_log_section_115200
              (write_log [] ([CHR 0x0A] @ ''--- ['' @ str_nat 2 @ ''] ''
                             @ make_visible (encode_utf8 ''STSBR 115200'') @ '' ---'')
               @ ''TX time: 100.000000'' @ [CHR 0x0A]
               @ ''T1 (TX -> OK): 123.456 ms'' @ [CHR 0x0A]
               @ ''CR1 after OK seen at: 130.000 ms (then host baud -> 115200)'' @ [CHR 0x0A]
               @ ''T2 (OK -> '' @ [CHR 0x27] @ ''>'' @ [CHR 0x27] @ ''): 76.544 ms'' @ [CHR 0x0A])
              (''OK'' @ [CHR 0x0D, CHR 0x0D] @ ''>''),
            3, Some 115200)"
    unfolding a f1 f2 f3 f4 si by simp
  have b': "send_and_log_9600 ?port ''STSBR 9600'' 0 [] 2
    = Some (?port2,
            write_log_section
              (write_log [] ([CHR 0x0A] @ ''--- ['' @ str_nat 2 @ ''] ''
                             @ make_visible (encode_utf8 ''STSBR 9600'') @ '' ---'')
               @ ''TX time: 100.000000'' @ [CHR 0x0A]
               @ ''T1 (TX -> OK): 123.456 ms'' @ [CHR 0x0A]
               @ ''Prompt ('' @ [CHR 0x27] @ ''>'' @ [CHR 0x27] @ '') not received within 6.0 s (cannot compute T2)''
               @ [CHR 0x0A])
              (''OK'' @ [CHR 0x0D]) (make_visible (''OK'' @ [CHR 0x0D])) (hex_plain (''OK'' @ [CHR 0x0D])),
            3)"
    unfolding b f1 f2 f5 by simp
  from h1 h2 h3 h4 a' g1 g2 g3 b' show ?thesis by blast
qed

section \<open>Facts about the sessions\<close>

lemma contains_iff: "contains buf sub \<longleftrightarrow> (\<exists>i. occurs_at sub buf i)"
proof
  assume "contains buf sub"
  then obtain p where "py_find buf sub 0 = Some p" by (auto simp: contains_def)
  then have "occurs_at sub buf p" by (simp add: find_Some_iff)
  then show "\<exists>i. occurs_at sub buf i" ..
next
  assume "\<exists>i. occurs_at sub buf i"
  then show "contains buf sub" by (auto simp: contains_def find_None_iff)
qed

lemma startswith_contains: "startswith s name \<Longrightarrow> contains s name"
  unfolding contains_iff by (rule exI [of _ 0]) (simp add: occurs_at_def startswith_def)

lemmas eval_session = for_loop_STSBR_STBRT.simps for_loop_ATI_CR.simps for_loop_115200.simps
  send_and_log_STSBR_STBRT_def send_and_log_ATI_CR_def send_and_log_115200_def send_stsbr_and_switch_baud_def
  old_baud_read_def command_kind_def first_digit_int_def parse_stsbr_baud_def contains_def py_find_def
  read_until_def read_until_loop.simps read_until_idle_def read_until_idle_loop.simps world_ops
  IDLE_GAP_SEC_def STSBR_OLD_READ_SEC_def

lemma read_until_idle_loop_frame:
  "read_until_idle_loop gap w buf l = Some (w', r) \<Longrightarrow>
   tx w' = tx w \<and> baudrate w' = baudrate w"
proof (induction gap w buf l rule: read_until_idle_loop.induct)
  case (1 gap w buf l)
  from "1.prems" obtain t w2 where t: "py_time (snd (poll w)) = Some (t, w2)"
    by (subst (asm) read_until_idle_loop.simps) (auto split: option.splits)
  have w2: "tx w2 = tx w \<and> baudrate w2 = baudrate w"
    using py_time_SomeD [OF t] by (simp add: poll_facts)
  show ?case
    using "1.prems" "1.IH"(1) [OF t refl] "1.IH"(2) [OF t refl] t w2
    by (subst (asm) read_until_idle_loop.simps) (auto split: if_splits)
qed

lemma read_until_idle_frame:
  "read_until_idle w gap = Some (w', r) \<Longrightarrow> tx w' = tx w \<and> baudrate w' = baudrate w"
  unfolding read_until_idle_def
  by (auto split: option.splits dest!: read_until_idle_loop_frame py_time_SomeD)

text \<open>
  The script with \<^verbatim>\<open>parse_stsbr_baud\<close> treats a speed change whose rate cannot be read as a
  plain round trip: the command is sent, an error line is logged, the speed stays, and the
  next number is returned.
\<close>

lemma send_and_log_115200_malformed:
  assumes "startswith (upper (strip cmd)) (code_points ''STSBR'')" and "parse_stsbr_baud cmd = None"
    and r: "send_and_log_115200 ser cmd delay logf num = Some (ser', logf', num', mb)"
  shows "mb = None \<and> num' = num + 1 \<and> baudrate ser' = baudrate ser \<and>
         tx ser' = tx ser @ [encode_ascii_ignore cmd @ [CHR 0x0D]] \<and>
         (\<exists>pre post. logf' = pre @ ''ERROR: Could not parse baud from STSBR command.'' @ [CHR 0x0A] @ post)"
proof -
  from r assms(1,2) obtain t_tx ser1 data where
    t: "py_time (reset_input_buffer ser) = Some (t_tx, ser1)"
    and i: "read_until_idle (ser_write (encode_ascii_ignore (cmd @ TX_NEWLINE)) ser1) IDLE_GAP_SEC
              = Some (ser', data)"
    and l: "logf' = write_log_section_115200
              (write_log (write_log logf ([CHR 0x0A] @ ''--- ['' @ str_nat num @ ''] ''
                                          @ make_visible (encode_utf8 cmd) @ '' ---''))
                 ''ERROR: Could not parse baud from STSBR command.'') data"
    and n: "num' = num + 1" "mb = None"
    by (auto simp: send_and_log_115200_def Let_def split: option.splits)
  have e: "write_log f ''ERROR: Could not parse baud from STSBR command.''
             = f @ ''ERROR: Could not parse baud from STSBR command.'' @ [CHR 0x0A]" for f
    by (intro write_log_line) simp_all
  obtain post where "logf' = (write_log logf ([CHR 0x0A] @ ''--- ['' @ str_nat num @ ''] ''
                                          @ make_visible (encode_utf8 cmd) @ '' ---'')
        @ ''ERROR: Could not parse baud from STSBR command.'' @ [CHR 0x0A]) @ post"
    unfolding l write_log_section_115200_def e using write_log_some by blast
  then have "\<exists>pre post. logf' = pre @ ''ERROR: Could not parse baud from STSBR command.'' @ [CHR 0x0A] @ post"
    by (metis append_assoc)
  moreover from read_until_idle_frame [OF i] py_time_SomeD [OF t]
  have "baudrate ser' = baudrate ser" "tx ser' = tx ser @ [encode_ascii_ignore cmd @ [CHR 0x0D]]"
    by (simp_all add: ser_write_def reset_input_buffer_def encode_ascii_ignore_def TX_NEWLINE_def)
  ultimately show ?thesis using n by simp
qed







text \<open>
  C9. The sequence \<^verbatim>\<open>STSBR abc\<close>, \<^verbatim>\<open>ATI\<close> on a silent port. In \<^verbatim>\<open>STSBR_ATI_CR.py\<close> the
  first command raises \<^verbatim>\<open>IndexError\<close> in \<^verbatim>\<open>send_stsbr_and_switch_baud\<close> before anything is
  written to the port: the loop ends there, the log holds the header line only, no warning,
  and \<^verbatim>\<open>ATI\<close> is never sent. The sibling \<^verbatim>\<open>STSBR_STBRT_115200_delay.py\<close> does what the claim
  says on the same sequence: both commands are sent, the error line is logged, the speed
  stays at 9600.
\<close>

theorem malformed_speed_change_aborts_session:
  "for_loop_ATI_CR [(''STSBR abc'', 5), (''ATI'', 1)]
     \<lparr>s_port = \<lparr>clock = [0, 1, 2, 3, 4, 5], rx = [], baudrate = 9600, tx = []\<rparr>,
      s_log = [], s_num = 0, s_baud = 9600, STARTING_BAUD = 9600, TIMEOUT = 1\<rparr>
   = Some (Inl (IndexError,
        \<lparr>s_port = \<lparr>clock = [0, 1, 2, 3, 4, 5], rx = [], baudrate = 9600, tx = []\<rparr>,
         s_log = [CHR 0x0A] @ ''--- [0] STSBR'' @ [CHR 0xB7] @ ''abc (FAST BAUD SWITCH) ---'' @ [CHR 0x0A],
         s_num = 0, s_baud = 9600, STARTING_BAUD = 9600, TIMEOUT = 1\<rparr>)) \<and>
   for_loop_115200 [(''STSBR abc'', 5), (''ATI'', 1)]
     \<lparr>s_port = \<lparr>clock = [0, 1, 2, 3, 4, 5], rx = [], baudrate = 9600, tx = []\<rparr>,
      s_log = [], s_num = 0, s_baud = 9600\<rparr>
   = Some \<lparr>s_port = \<lparr>clock = [], rx = [], baudrate = 9600,
                      tx = [''STSBR abc'' @ [CHR 0x0D], ''ATI'' @ [CHR 0x0D]]\<rparr>,
           s_log = [CHR 0x0A] @ ''--- [0] STSBR'' @ [CHR 0xB7] @ ''abc ---'' @ [CHR 0x0A]
                   @ ''ERROR: Could not parse baud from STSBR command.'' @ [CHR 0x0A]
                   @ ''len=0'' @ [CHR 0x0A, CHR 0x0A] @ ''HEX: '' @ [CHR 0x0A]
                   @ [CHR 0x0A] @ ''--- [1] ATI ---'' @ [CHR 0x0A]
                   @ ''len=0'' @ [CHR 0x0A, CHR 0x0A] @ ''HEX: '' @ [CHR 0x0A],
           s_num = 2, s_baud = 9600\<rparr>"
  by (simp add: eval_session eval_str)

text \<open>
  C6. The command \<^verbatim>\<open>"\r"\<close> is a command that already ends with a carriage return; it is
  an entry of \<^verbatim>\<open>SEQUENCE\<close> in \<^verbatim>\<open>STSBR_ATI_CR.py\<close>. \<^verbatim>\<open>send_and_log\<close> of \<^verbatim>\<open>STSBR_STBRT.py\<close>
  and of \<^verbatim>\<open>STSBR_ATI_CR.py\<close> append \<^verbatim>\<open>TX_NEWLINE\<close> without looking, and write the two bytes
  \<^verbatim>\<open>0D 0D\<close>; the claim asks for the single byte \<^verbatim>\<open>0D\<close>.
\<close>

theorem send_and_log_second_CR:
  "send_and_log_STSBR_STBRT \<lparr>clock = [0, 1], rx = [], baudrate = 9600, tx = []\<rparr> [CHR 0x0D] 1 [] 3 =
     Some (\<lparr>clock = [], rx = [], baudrate = 9600, tx = [[CHR 0x0D, CHR 0x0D]]\<rparr>,
           [CHR 0x0A] @ ''--- [3] <CR> ---'' @ [CHR 0x0A] @ ''len=0'' @ [CHR 0x0A, CHR 0x0A]
             @ ''HEX: '' @ [CHR 0x0A], 4) \<and>
   send_and_log_ATI_CR \<lparr>clock = [0, 1], rx = [], baudrate = 9600, tx = []\<rparr> [CHR 0x0D] 1 [] 3 =
     Some (Inr (\<lparr>clock = [], rx = [], baudrate = 9600, tx = [[CHR 0x0D, CHR 0x0D]]\<rparr>,
                [CHR 0x0A] @ ''--- [3] <CR> ---'' @ [CHR 0x0A] @ ''len=0'' @ [CHR 0x0A, CHR 0x0A]
                  @ ''HEX: '' @ [CHR 0x0A], 4))"
  by (simp add: eval_session eval_str)

section \<open>Facts about the transcript sections\<close>

lemma visible_bytes_loop_eq: "visible_bytes_loop b out = out @ map spec_visible b"
proof (induction b arbitrary: out)
  case Nil
  show ?case by simp
next
  case (Cons x xs)
  show ?case by (simp add: Cons.IH spec_visible_def)
qed

lemma visible_bytes_STPX_eq: "visible_bytes_STPX b = concat (map spec_visible b)"
  by (simp add: visible_bytes_STPX_def visible_bytes_loop_eq join_empty_sep)

lemma spec_visible_last: "spec_visible x \<noteq> [] \<and> (last (spec_visible x) = CHR 0x0A) = (x = CHR 0x0A)"
proof -
  have "hex_digit ((of_char x :: nat) mod 16) \<noteq> CHR 0x0A" by (rule hex_digit_not_newline) simp
  then show ?thesis by (auto simp: spec_visible_def hex2_def)
qed

lemma rendering_ends_with_newline:
  "endswith (concat (map spec_visible data)) [CHR 0x0A] = (data \<noteq> [] \<and> last data = CHR 0x0A)"
proof (cases data rule: rev_cases)
  case Nil
  then show ?thesis by (simp add: endswith_single)
next
  case (snoc ys y)
  then show ?thesis using spec_visible_last [of y] by (simp add: endswith_single)
qed

lemma hex_join_no_newline_end:
  assumes "\<And>x. f x \<noteq> [] \<and> last (f x) \<noteq> CHR 0x0A"
  shows "\<not> endswith (pre @ ''HEX: '' @ join '' '' (map f data)) [CHR 0x0A]"
proof (cases data)
  case Nil
  then show ?thesis by (simp add: endswith_single)
next
  case (Cons x xs)
  have ne: "map f data \<noteq> []" using Cons by simp
  have all: "\<forall>y \<in> set (map f data). y \<noteq> []" using assms by auto
  have l: "last (join '' '' (map f data)) = last (f (last data))" and n: "join '' '' (map f data) \<noteq> []"
    using last_join [OF ne all, of "'' ''"] Cons by (simp_all add: last_map)
  with assms [of "last data"] show ?thesis by (simp add: endswith_single)
qed

lemma hex2_last: "hex2 x \<noteq> [] \<and> last (hex2 x) \<noteq> CHR 0x0A"
  by (simp add: hex2_def hex_digit_not_newline)

lemma log_response_STPX_eq:
  "log_response_STPX logf data =
     logf @ ''len='' @ str_nat (length data) @ [CHR 0x0A]
       @ concat (map spec_visible data) @ (if data \<noteq> [] \<and> last data = CHR 0x0A then [] else [CHR 0x0A])
       @ ''HEX: '' @ join '' '' (map hex2 data) @ [CHR 0x0A]"
proof -
  have a: "write_log f (''len='' @ str_nat (length data)) = f @ ''len='' @ str_nat (length data) @ [CHR 0x0A]" for f
    using str_nat_last [of "length data"] digit_char_not_newline [of "length data mod 10"]
    by (intro write_log_line [THEN trans]) simp_all
  have b: "write_log f (concat (map spec_visible data)) =
      f @ concat (map spec_visible data) @ (if data \<noteq> [] \<and> last data = CHR 0x0A then [] else [CHR 0x0A])" for f
    unfolding write_log_def rendering_ends_with_newline by simp
  have c: "write_log f (''HEX: '' @ join '' '' (map hex2 data)) = f @ ''HEX: '' @ join '' '' (map hex2 data) @ [CHR 0x0A]" for f
    using hex_join_no_newline_end [of hex2 "[]" data, OF hex2_last] by (simp add: write_log_def)
  show ?thesis
    unfolding log_response_STPX_def visible_bytes_STPX_eq hex_bytes_STPX_def a b c by simp
qed

lemma write_log_section_eq:
  assumes "\<And>x. f x \<noteq> [] \<and> last (f x) \<noteq> CHR 0x0A"
  shows "write_log_section logf data vis (join '' '' (map f data)) =
     logf @ ''len='' @ str_nat (length data) @ [CHR 0x0A] @ vis @ [CHR 0x0A]
       @ ''HEX: '' @ join '' '' (map f data) @ [CHR 0x0A]"
  using hex_join_no_newline_end [of f "''len='' @ str_nat (length data) @ [CHR 0x0A] @ vis @ [CHR 0x0A]" data, OF assms]
  by (simp add: write_log_section_def write_log_def)

lemma zero_dump:
  "(\<lambda>x. if (of_char x :: nat) \<noteq> 0 then hex2 x else z) = (\<lambda>x. if x = CHR 0x00 then z else hex2 x)"
  by (auto simp: of_char_zero_iff)

lemma no_zero_takeWhile: "CHR 0x00 \<notin> set data \<Longrightarrow> takeWhile (\<lambda>x. x \<noteq> CHR 0x00) data = data"
  by (induction data) auto

lemma no_zero_dump:
  "CHR 0x00 \<notin> set data \<Longrightarrow> map (\<lambda>x. if x = CHR 0x00 then z else hex2 x) data = map hex2 data"
  by (induction data) auto

text \<open>
  C7 (as amended). The transcript section of a received byte sequence holds the byte
  count of the whole sequence, a visible rendering and a dump separated by spaces, and
  the scripts differ in how they treat a zero byte. The rendering of one byte is the one
  of the specification: space as U+00B7, CR as \<^verbatim>\<open><CR>\<close>, LF as \<^verbatim>\<open><LF>\<close> and a newline, TAB
  as \<^verbatim>\<open><TAB>\<close>, printable ASCII as itself, any other byte as \<^verbatim>\<open>\xHH\<close>.
  \<^item> \<^verbatim>\<open>STPX.py\<close>: every byte is rendered, and every byte is dumped as two upper-case hex
    digits; the rendering is followed by a newline unless it ends with one.
  \<^item> \<^verbatim>\<open>STSBR_STBRT.py\<close> (\<^verbatim>\<open>read_until\<close>, \<^verbatim>\<open>make_visible\<close>): the bytes before the first zero
    byte are rendered; the dump has two upper-case hex digits for a byte that is not zero
    and the single character U+0000 for a zero byte.
  \<^item> \<^verbatim>\<open>STSBR_STBRT_115200_delay.py\<close>: the bytes before the first zero byte are rendered;
    every byte is dumped as two upper-case hex digits.
  \<^item> \<^verbatim>\<open>read_until\<close> of \<^verbatim>\<open>STSBR_STBRT_9600_delay.py\<close>: the bytes before the first zero byte
    are rendered; the dump has a backslash and \<^verbatim>\<open>0\<close> for a zero byte.
  For a sequence without a zero byte all of them render every byte and dump every byte as
  two upper-case hex digits.
\<close>

theorem transcript_section_rendering:
  "log_response_STPX logf data =
     logf @ ''len='' @ str_nat (length data) @ [CHR 0x0A]
       @ concat (map spec_visible data)
       @ (if data \<noteq> [] \<and> last data = CHR 0x0A then [] else [CHR 0x0A])
       @ ''HEX: '' @ join '' '' (map hex2 data) @ [CHR 0x0A] \<and>
   (read_until delay command w = Some (w', data, vis, hex) \<longrightarrow>
      write_log_section logf data vis hex =
        logf @ ''len='' @ str_nat (length data) @ [CHR 0x0A]
          @ concat (map spec_visible (takeWhile (\<lambda>x. x \<noteq> CHR 0x00) data)) @ [CHR 0x0A]
          @ ''HEX: '' @ join '' '' (map (\<lambda>x. if x = CHR 0x00 then [CHR 0x00] else hex2 x) data)
          @ [CHR 0x0A]) \<and>
   write_log_section_115200 logf data =
     logf @ ''len='' @ str_nat (length data) @ [CHR 0x0A]
       @ concat (map spec_visible (takeWhile (\<lambda>x. x \<noteq> CHR 0x00) data)) @ [CHR 0x0A]
       @ ''HEX: '' @ join '' '' (map hex2 data) @ [CHR 0x0A] \<and>
   (read_until_9600 w idle_gap command = Some (w', data, vis, hex) \<longrightarrow>
      write_log_section logf data vis hex =
        logf @ ''len='' @ str_nat (length data) @ [CHR 0x0A]
          @ concat (map spec_visible (takeWhile (\<lambda>x. x \<noteq> CHR 0x00) data)) @ [CHR 0x0A]
          @ ''HEX: '' @ join '' '' (map (\<lambda>x. if x = CHR 0x00 then [CHR 0x5C, CHR ''0''] else hex2 x) data)
          @ [CHR 0x0A]) \<and>
   (CHR 0x00 \<notin> set data \<longrightarrow>
      make_visible data = concat (map spec_visible data) \<and>
      visible_bytes_STPX data = make_visible data \<and>
      hex_dump data = join '' '' (map hex2 data) \<and>
      hex_dump_9600 data = join '' '' (map hex2 data) \<and>
      hex_bytes_STPX data = join '' '' (map hex2 data))"
proof (intro conjI impI)
  show "log_response_STPX logf data =
     logf @ ''len='' @ str_nat (length data) @ [CHR 0x0A]
       @ concat (map spec_visible data)
       @ (if data \<noteq> [] \<and> last data = CHR 0x0A then [] else [CHR 0x0A])
       @ ''HEX: '' @ join '' '' (map hex2 data) @ [CHR 0x0A]"
    by (rule log_response_STPX_eq)
next
  assume "read_until delay command w = Some (w', data, vis, hex)"
  then have v: "vis = make_visible data" and h: "hex = hex_dump data"
    by (auto simp: read_until_def split: option.splits)
  have f: "(if z = CHR 0x00 then [CHR 0x00] else hex2 z) \<noteq> [] \<and>
           last (if z = CHR 0x00 then [CHR 0x00] else hex2 z) \<noteq> CHR 0x0A" for z
    using hex2_last [of z] by simp
  show "write_log_section logf data vis hex =
        logf @ ''len='' @ str_nat (length data) @ [CHR 0x0A]
          @ concat (map spec_visible (takeWhile (\<lambda>x. x \<noteq> CHR 0x00) data)) @ [CHR 0x0A]
          @ ''HEX: '' @ join '' '' (map (\<lambda>x. if x = CHR 0x00 then [CHR 0x00] else hex2 x) data)
          @ [CHR 0x0A]"
    unfolding v h hex_dump_def zero_dump make_visible_eq
    by (rule write_log_section_eq) (rule f)
next
  show "write_log_section_115200 logf data =
     logf @ ''len='' @ str_nat (length data) @ [CHR 0x0A]
       @ concat (map spec_visible (takeWhile (\<lambda>x. x \<noteq> CHR 0x00) data)) @ [CHR 0x0A]
       @ ''HEX: '' @ join '' '' (map hex2 data) @ [CHR 0x0A]"
    using write_log_section_eq [of hex2 logf data "make_visible data", OF hex2_last]
    by (simp add: write_log_section_115200_def write_log_section_def hex_plain_def make_visible_eq)
next
  assume "read_until_9600 w idle_gap command = Some (w', data, vis, hex)"
  then have v: "vis = make_visible data" and h: "hex = hex_dump_9600 data"
    by (auto simp: read_until_9600_def split: option.splits)
  have f: "(if z = CHR 0x00 then [CHR 0x5C, CHR ''0''] else hex2 z) \<noteq> [] \<and>
           last (if z = CHR 0x00 then [CHR 0x5C, CHR ''0''] else hex2 z) \<noteq> CHR 0x0A" for z
    using hex2_last [of z] by simp
  show "write_log_section logf data vis hex =
        logf @ ''len='' @ str_nat (length data) @ [CHR 0x0A]
          @ concat (map spec_visible (takeWhile (\<lambda>x. x \<noteq> CHR 0x00) data)) @ [CHR 0x0A]
          @ ''HEX: '' @ join '' '' (map (\<lambda>x. if x = CHR 0x00 then [CHR 0x5C, CHR ''0''] else hex2 x) data)
          @ [CHR 0x0A]"
    unfolding v h hex_dump_9600_def zero_dump make_visible_eq
    by (rule write_log_section_eq) (rule f)
next
  assume nz: "CHR 0x00 \<notin> set data"
  show m: "make_visible data = concat (map spec_visible data)"
    by (simp only: make_visible_eq no_zero_takeWhile [OF nz])
  show "visible_bytes_STPX data = make_visible data"
    by (simp only: m visible_bytes_STPX_eq)
  show "hex_dump data = join '' '' (map hex2 data)"
    unfolding hex_dump_def zero_dump by (simp only: no_zero_dump [OF nz])
  show "hex_dump_9600 data = join '' '' (map hex2 data)"
    unfolding hex_dump_9600_def zero_dump by (simp only: no_zero_dump [OF nz])
  show "hex_bytes_STPX data = join '' '' (map hex2 data)"
    by (rule hex_bytes_STPX_def)
qed

theorem transcript_section_rendering_witness:
  "read_until (3 / 10) None \<lparr>clock = [0, 1 / 10, 1 / 2, 1], rx = [''OK >''], baudrate = 9600, tx = []\<rparr>
     = Some (\<lparr>clock = [1], rx = [], baudrate = 9600, tx = []\<rparr>, ''OK >'', ''OK'' @ [CHR 0xB7] @ ''>'',
             ''4F 4B 20 3E'') \<and>
   read_until_9600 \<lparr>clock = [0, 1 / 10, 1 / 2, 1], rx = [''OK >''], baudrate = 9600, tx = []\<rparr> (3 / 10) None
     = Some (\<lparr>clock = [1], rx = [], baudrate = 9600, tx = []\<rparr>, ''OK >'', ''OK'' @ [CHR 0xB7] @ ''>'',
             ''4F 4B 20 3E'') \<and>
   CHR 0x00 \<notin> set ''OK >'' \<and>
   write_log_section [] ''OK >'' (''OK'' @ [CHR 0xB7] @ ''>'') ''4F 4B 20 3E''
     = ''len=4'' @ [CHR 0x0A] @ ''OK'' @ [CHR 0xB7] @ ''>'' @ [CHR 0x0A] @ ''HEX: 4F 4B 20 3E'' @ [CHR 0x0A] \<and>
   log_response_STPX [] ''OK >''
     = ''len=4'' @ [CHR 0x0A] @ ''OK'' @ [CHR 0xB7] @ ''>'' @ [CHR 0x0A] @ ''HEX: 4F 4B 20 3E'' @ [CHR 0x0A] \<and>
   make_visible ''OK >'' = ''OK'' @ [CHR 0xB7] @ ''>'' \<and>
   hex_dump ''OK >'' = ''4F 4B 20 3E''"
proof -
  let ?w = "\<lparr>clock = [0, 1 / 10, 1 / 2, 1], rx = [''OK >''], baudrate = 9600, tx = []\<rparr>"
  let ?w' = "\<lparr>clock = [1], rx = [], baudrate = 9600, tx = []\<rparr>"
  let ?v = "''OK'' @ [CHR 0xB7] @ ''>''"
  have r: "read_until (3 / 10) None ?w = Some (?w', ''OK >'', ?v, ''4F 4B 20 3E'')"
    by (simp add: read_until_def read_until_loop.simps world_ops make_visible_def hex_dump_def
          hex2_def hex_digit_def)
  have r9: "read_until_9600 ?w (3 / 10) None = Some (?w', ''OK >'', ?v, ''4F 4B 20 3E'')"
    by (simp add: read_until_9600_def read_until_9600_loop.simps world_ops make_visible_def
          hex_dump_9600_def hex2_def hex_digit_def)
  have nz: "CHR 0x00 \<notin> set ''OK >''" by simp
  note inst = transcript_section_rendering [of "[]" "''OK >''" "3 / 10" None ?w ?w' ?v "''4F 4B 20 3E''" "3 / 10"]
  from inst r have a: "write_log_section [] ''OK >'' ?v ''4F 4B 20 3E''
     = ''len=4'' @ [CHR 0x0A] @ ''OK'' @ [CHR 0xB7] @ ''>'' @ [CHR 0x0A] @ ''HEX: 4F 4B 20 3E'' @ [CHR 0x0A]"
    by (simp add: spec_visible_def hex2_def hex_digit_def str_nat.simps digit_char_def)
  from inst have b: "log_response_STPX [] ''OK >''
     = ''len=4'' @ [CHR 0x0A] @ ''OK'' @ [CHR 0xB7] @ ''>'' @ [CHR 0x0A] @ ''HEX: 4F 4B 20 3E'' @ [CHR 0x0A]"
    by (simp add: spec_visible_def hex2_def hex_digit_def str_nat.simps digit_char_def)
  from inst nz have c: "make_visible ''OK >'' = ''OK'' @ [CHR 0xB7] @ ''>''" "hex_dump ''OK >'' = ''4F 4B 20 3E''"
    by (simp_all add: spec_visible_def hex2_def hex_digit_def)
  from r r9 nz a b c show ?thesis by blast
qed

text \<open>
  On the bytes \<^verbatim>\<open>00 41\<close> the rendering of \<^verbatim>\<open>make_visible\<close> is empty, where the mapping of
  the claim gives \<^verbatim>\<open>\x00A\<close>, and the dump of \<^verbatim>\<open>read_until\<close> is U+0000, a space and \<^verbatim>\<open>41\<close>,
  where two-digit hex gives \<^verbatim>\<open>00 41\<close>.
\<close>

theorem transcript_section_rendering_counterexample:
  "make_visible [CHR 0x00, CHR ''A''] = [] \<and>
   concat (map spec_visible [CHR 0x00, CHR ''A'']) = [CHR 0x5C, CHR ''x'', CHR ''0'', CHR ''0'', CHR ''A''] \<and>
   hex_dump [CHR 0x00, CHR ''A''] = [CHR 0x00, CHR '' '', CHR ''4'', CHR ''1''] \<and>
   join '' '' (map hex2 [CHR 0x00, CHR ''A'']) = ''00 41''"
  by (simp add: make_visible_def hex_dump_def spec_visible_def hex2_def hex_digit_def hex2_def)

end
